theory Spec2Isabelle
  imports Main
begin

section \<open>The grammar AST (lib/parser.d.ts)\<close>

text \<open>
  Source positions.  \<open>LocationRange\<close> has the fields \<open>source\<close>, \<open>start\<close> and \<open>end\<close>.
\<close>

datatype Location = Location (line: nat) (column: nat) (offset: nat)

datatype LocationRange =
  LocationRange (source: string) (start: Location) (finish: Location)

text \<open>
  \<open>MatchResult\<close> is a numeric enum: \<open>ALWAYS = 1\<close>, \<open>SOMETIMES = 0\<close>, \<open>NEVER = -1\<close>.
  The passes negate it arithmetically (\<open>-match\<close>).
\<close>

datatype MatchResult = ALWAYS | SOMETIMES | NEVER

fun match_value :: "MatchResult \<Rightarrow> int" where
  "match_value ALWAYS = 1"
| "match_value SOMETIMES = 0"
| "match_value NEVER = -1"

fun negate :: "MatchResult \<Rightarrow> MatchResult" where
  "negate ALWAYS = NEVER"
| "negate SOMETIMES = SOMETIMES"
| "negate NEVER = ALWAYS"

text \<open>
  Every expression node carries \<open>location\<close> and the optional \<open>match\<close> (interface \<open>Expr\<close>);
  \<open>None\<close> is JavaScript's \<open>undefined\<close>.
\<close>

datatype Expr = Expr (location: LocationRange) (match: "MatchResult option")

datatype ClassPart = Single string | Range string string

text \<open>
  The expression nodes, one constructor for each value of the \<open>type\<close> discriminator.
  \<open>Action\<close> and the semantic predicates carry \<open>code\<close> and \<open>codeLocation\<close>;
  \<open>Labeled\<close> carries \<open>pick\<close>, \<open>label\<close> (\<open>None\<close> is \<open>null\<close>) and \<open>labelLocation\<close>;
  \<open>Literal\<close> carries \<open>value\<close> and \<open>ignoreCase\<close>; \<open>Class\<close> carries \<open>parts\<close>,
  \<open>inverted\<close> and \<open>ignoreCase\<close>.
\<close>

datatype expr =
    Named Expr string expr
  | Choice Expr "expr list"
  | Action Expr string LocationRange expr
  | Sequence Expr "expr list"
  | Labeled Expr bool "string option" LocationRange expr
  | Text Expr expr
  | Simple_and Expr expr
  | Simple_not Expr expr
  | Optional Expr expr
  | Zero_or_more Expr expr
  | One_or_more Expr expr
  | Group Expr expr
  | Semantic_and Expr string LocationRange
  | Semantic_not Expr string LocationRange
  | Rule_ref Expr string
  | Literal Expr string bool
  | Class Expr "ClassPart list" bool bool
  | Any Expr

fun node_of :: "expr \<Rightarrow> Expr" where
  "node_of (Named x nm e) = x"
| "node_of (Choice x es) = x"
| "node_of (Action x c cl e) = x"
| "node_of (Sequence x es) = x"
| "node_of (Labeled x p l ll e) = x"
| "node_of (Text x e) = x"
| "node_of (Simple_and x e) = x"
| "node_of (Simple_not x e) = x"
| "node_of (Optional x e) = x"
| "node_of (Zero_or_more x e) = x"
| "node_of (One_or_more x e) = x"
| "node_of (Group x e) = x"
| "node_of (Semantic_and x c cl) = x"
| "node_of (Semantic_not x c cl) = x"
| "node_of (Rule_ref x nm) = x"
| "node_of (Literal x v ic) = x"
| "node_of (Class x ps iv ic) = x"
| "node_of (Any x) = x"

text \<open>The idiom \<open>node.match || MatchResult.SOMETIMES\<close>: a missing \<open>match\<close> counts as \<open>SOMETIMES\<close>.\<close>

definition match_or_sometimes :: "Expr \<Rightarrow> MatchResult" where
  "match_or_sometimes x = (case match x of None \<Rightarrow> SOMETIMES | Some m \<Rightarrow> m)"

datatype CodeBlock =
  CodeBlock (cb_location: LocationRange) (cb_code: string) (cb_codeLocation: LocationRange)

type_synonym Bytecode = "int option list"

record Rule =
  name :: string
  nameLocation :: LocationRange
  expression :: expr
  rule_node :: Expr
  bytecode :: "Bytecode option"

datatype CharClassDesc = CharClassDesc "ClassPart list" bool bool

datatype ExpectedConst =
    ExpectedConstRule string
  | ExpectedConstLiteral string bool
  | ExpectedConstClass "ClassPart list" bool bool
  | ExpectedConstAny

datatype FunctionDesc = FunctionDesc bool "string list" string LocationRange

text \<open>
  The generated parser, a \<open>SourceNode\<close> of the source-map library: only its text matters here.
\<close>

datatype SourceNode = SourceNode (toString: string)

record Grammar =
  grammar_location :: LocationRange
  topLevelInitializer :: "CodeBlock option"
  initializer :: "CodeBlock option"
  rules :: "Rule list"
  literals :: "string list option"
  classes :: "CharClassDesc list option"
  expectations :: "ExpectedConst list option"
  functionsPool :: "FunctionDesc list option"
  code :: "SourceNode option"

text \<open>A visitor is called on any node of the tree (type \<open>AnyNode\<close>).\<close>

datatype AnyNode =
    NGrammar Grammar
  | NTopLevelInitializer CodeBlock
  | NInitializer CodeBlock
  | NRule Rule
  | NExpr expr

section \<open>Diagnostics (lib/grammar-error.ts, lib/compiler/passes/pass.ts)\<close>

datatype Stage = Stage_check | Stage_transform | Stage_generate

fun stage_name :: "Stage \<Rightarrow> string" where
  "stage_name Stage_check = ''check''"
| "stage_name Stage_transform = ''transform''"
| "stage_name Stage_generate = ''generate''"

datatype Severity = Sev_error | Sev_warning | Sev_info

datatype DiagnosticNote = DiagnosticNote (note_message: string) (note_location: LocationRange)

text \<open>
  A problem is the tuple \<open>[severity, message, location?, notes?]\<close>; an argument that was not
  given is \<open>undefined\<close>, here \<open>None\<close>.
\<close>

type_synonym Problem = "Severity \<times> string \<times> LocationRange option \<times> DiagnosticNote list option"

text \<open>
  The \<open>problems\<close> field of a \<open>GrammarError\<close> holds a reference to an array.  The constructor
  stores a fresh array of its own; \<open>Session.error\<close> overwrites the field with the session's
  array, the one array that is ever shared.  The reference is therefore either an array of the
  error's own or the session's array, read through the session.
\<close>

datatype ProblemsRef = OwnProblems "Problem list" | SessionProblems

datatype GrammarError = GrammarError
  (ge_message: string)
  (ge_location: "LocationRange option")
  (ge_diagnostics: "DiagnosticNote list")
  (ge_stage: "Stage option")
  (ge_problems: ProblemsRef)

text \<open>
  The constructor: \<open>diagnostics\<close> defaults to \<open>[]\<close>, \<open>stage\<close> is \<open>null\<close> and \<open>problems\<close> is
  a fresh one-element array.
\<close>

definition new_GrammarError ::
  "string \<Rightarrow> LocationRange option \<Rightarrow> DiagnosticNote list option \<Rightarrow> GrammarError" where
  "new_GrammarError msg loc notes =
     (let diagnostics = (case notes of None \<Rightarrow> [] | Some ds \<Rightarrow> ds)
      in GrammarError msg loc diagnostics None
           (OwnProblems [(Sev_error, msg, loc, Some diagnostics)]))"

text \<open>
  What a \<open>throw\<close> carries: a plain \<open>Error\<close> with its message, the \<open>TypeError\<close> of a read
  through \<open>undefined\<close>, a \<open>GrammarError\<close>, or the value \<open>null\<close> (\<open>checkErrors\<close> throws the field
  \<open>_firstError\<close> whatever it holds).
\<close>

datatype exn = Error string | TypeError string | Throw_GrammarError GrammarError | Throw_null

text \<open>Small grammars for the examples: nodes without a \<open>match\<close>, at one fixed location.\<close>

definition loc0 :: LocationRange where
  "loc0 = LocationRange ''g'' (Location 1 1 0) (Location 1 1 0)"

definition node0 :: Expr where
  "node0 = Expr loc0 None"

definition mk_rule :: "string \<Rightarrow> expr \<Rightarrow> Rule" where
  "mk_rule nm e =
     \<lparr>name = nm, nameLocation = loc0, expression = e, rule_node = node0, bytecode = None\<rparr>"

definition mk_grammar :: "Rule list \<Rightarrow> Grammar" where
  "mk_grammar rs =
     \<lparr>grammar_location = loc0, topLevelInitializer = None, initializer = None, rules = rs,
      literals = None, classes = None, expectations = None, functionsPool = None,
      code = None\<rparr>"

section \<open>AST helpers (lib/compiler/asts.ts)\<close>

fun findRule_rules :: "Rule list \<Rightarrow> string \<Rightarrow> Rule option" where
  "findRule_rules [] nm = None"
| "findRule_rules (r # rs) nm = (if name r = nm then Some r else findRule_rules rs nm)"

definition findRule :: "Grammar \<Rightarrow> string \<Rightarrow> Rule option" where
  "findRule ast nm = findRule_rules (rules ast) nm"

text \<open>\<open>indexOfRule\<close> scans from index \<open>i\<close> and returns \<open>-1\<close> when no rule has the name.\<close>

fun indexOfRule_from :: "int \<Rightarrow> Rule list \<Rightarrow> string \<Rightarrow> int" where
  "indexOfRule_from i [] nm = -1"
| "indexOfRule_from i (r # rs) nm = (if name r = nm then i else indexOfRule_from (i + 1) rs nm)"

definition indexOfRule :: "Grammar \<Rightarrow> string \<Rightarrow> int" where
  "indexOfRule ast nm = indexOfRule_from 0 (rules ast) nm"

text \<open>
  \<open>alwaysConsumesOnSuccess\<close> builds the visitor \<open>consumes\<close> with \<open>buildExprVisitor\<close>:
  the nodes with one \<open>expression\<close> child that get no handler of their own (\<open>rule\<close>, \<open>named\<close>,
  \<open>action\<close>, \<open>labeled\<close>, \<open>text\<close>, \<open>one_or_more\<close>, \<open>group\<close>) visit that child.
  \<open>Array.every\<close> stops at the first \<open>false\<close> and \<open>Array.some\<close> at the first \<open>true\<close>.
  A \<open>rule_ref\<close> follows the reference, so the recursion need not end
  (\<open>a = a\<close>): the first argument bounds the number of references followed, and \<open>None\<close>
  says that the bound was reached.
\<close>

fun consumes :: "nat \<Rightarrow> Grammar \<Rightarrow> expr \<Rightarrow> bool option"
  and consumes_every :: "nat \<Rightarrow> Grammar \<Rightarrow> expr list \<Rightarrow> bool option"
  and consumes_some :: "nat \<Rightarrow> Grammar \<Rightarrow> expr list \<Rightarrow> bool option" where
  "consumes n ast (Named x nm e) = consumes n ast e"
| "consumes n ast (Choice x alternatives) = consumes_every n ast alternatives"
| "consumes n ast (Action x c cl e) = consumes n ast e"
| "consumes n ast (Sequence x elements) = consumes_some n ast elements"
| "consumes n ast (Labeled x p l ll e) = consumes n ast e"
| "consumes n ast (Text x e) = consumes n ast e"
| "consumes n ast (Simple_and x e) = Some False"
| "consumes n ast (Simple_not x e) = Some False"
| "consumes n ast (Optional x e) = Some False"
| "consumes n ast (Zero_or_more x e) = Some False"
| "consumes n ast (One_or_more x e) = consumes n ast e"
| "consumes n ast (Group x e) = consumes n ast e"
| "consumes n ast (Semantic_and x c cl) = Some False"
| "consumes n ast (Semantic_not x c cl) = Some False"
| "consumes n ast (Rule_ref x nm) =
     (case findRule ast nm of
        None \<Rightarrow> Some False
      | Some rule \<Rightarrow> (case n of 0 \<Rightarrow> None | Suc m \<Rightarrow> consumes m ast (expression rule)))"
| "consumes n ast (Literal x v ic) = Some (v \<noteq> '''')"
| "consumes n ast (Class x ps iv ic) = Some True"
| "consumes n ast (Any x) = Some True"
| "consumes_every n ast [] = Some True"
| "consumes_every n ast (e # es) =
     (case consumes n ast e of
        None \<Rightarrow> None
      | Some b \<Rightarrow> if b then consumes_every n ast es else Some False)"
| "consumes_some n ast [] = Some False"
| "consumes_some n ast (e # es) =
     (case consumes n ast e of
        None \<Rightarrow> None
      | Some b \<Rightarrow> if b then Some True else consumes_some n ast es)"

text \<open>
  The entry point takes any node: the handlers for \<open>grammar\<close> and the initializers throw,
  a rule is visited through its \<open>expression\<close>.
\<close>

fun alwaysConsumesOnSuccess :: "nat \<Rightarrow> Grammar \<Rightarrow> AnyNode \<Rightarrow> (exn + bool) option" where
  "alwaysConsumesOnSuccess n ast (NGrammar g) = Some (Inl (Error ''Impossible''))"
| "alwaysConsumesOnSuccess n ast (NTopLevelInitializer c) = Some (Inl (Error ''Impossible''))"
| "alwaysConsumesOnSuccess n ast (NInitializer c) = Some (Inl (Error ''Impossible''))"
| "alwaysConsumesOnSuccess n ast (NRule r) = map_option Inr (consumes n ast (expression r))"
| "alwaysConsumesOnSuccess n ast (NExpr e) = map_option Inr (consumes n ast e)"

section \<open>Properties of \<open>alwaysConsumesOnSuccess\<close>\<close>





text \<open>
  The bound on the references followed is only a bound: a result obtained within \<open>n\<close>
  references is the result for every larger bound.
\<close>

lemma consumes_mono_aux:
  "consumes n ast e = Some b \<Longrightarrow> consumes (Suc n) ast e = Some b"
  "consumes_every n ast es = Some b \<Longrightarrow> consumes_every (Suc n) ast es = Some b"
  "consumes_some n ast es = Some b \<Longrightarrow> consumes_some (Suc n) ast es = Some b"
proof (induction n ast e and n ast es and n ast es arbitrary: b and b and b
    rule: consumes_consumes_every_consumes_some.induct)
  case (15 n ast x nm)
  then show ?case by (auto split: option.splits nat.splits)
qed (auto split: option.splits if_splits)

lemma consumes_mono:
  "consumes n ast e = Some b \<Longrightarrow> n \<le> m \<Longrightarrow> consumes m ast e = Some b"
proof (induction m)
  case 0
  then show ?case by simp
next
  case (Suc m)
  show ?case
  proof (cases "n = Suc m")
    case True
    with Suc.prems show ?thesis by simp
  next
    case False
    with Suc have "consumes m ast e = Some b" by simp
    then show ?thesis by (rule consumes_mono_aux)
  qed
qed





section \<open>The compiler session (lib/compiler/session.ts)\<close>

text \<open>
  A diagnostic callback is code of the caller.  It is called with the stage, the message,
  the location and the notes, and it returns (\<open>None\<close>) or throws.  \<open>Diagnostics\<close> holds the three
  callbacks; a field that holds no function is \<open>undefined\<close>, here \<open>None\<close>.
\<close>

type_synonym DiagnosticCallback =
  "Stage \<Rightarrow> string \<Rightarrow> LocationRange option \<Rightarrow> DiagnosticNote list option \<Rightarrow> exn option"

record Diagnostics =
  cb_error :: "DiagnosticCallback option"
  cb_warning :: "DiagnosticCallback option"
  cb_info :: "DiagnosticCallback option"

text \<open>
  The argument of the constructor is a \<open>Partial<Diagnostics>\<close>: a key is missing, or it is present
  with a value that may be \<open>undefined\<close>.  The constructor spreads the argument over the three
  defaults, \<open>{error: ignored, info: ignored, warning: ignored, ...options}\<close>: a key that is
  present replaces the default, also when its value is \<open>undefined\<close>.
\<close>

datatype 'a property = Missing | Property 'a

record DiagnosticsOptions =
  opt_error :: "DiagnosticCallback option property"
  opt_warning :: "DiagnosticCallback option property"
  opt_info :: "DiagnosticCallback option property"

definition no_options :: DiagnosticsOptions where
  "no_options = \<lparr>opt_error = Missing, opt_warning = Missing, opt_info = Missing\<rparr>"

definition ignored :: DiagnosticCallback where
  "ignored st msg loc notes = None"

text \<open>
  The session holds the problems, the current stage, the callbacks, the first error and the
  error count.
\<close>

record Session =
  problems :: "Problem list"
  stage :: "Stage option"
  callbacks :: Diagnostics
  firstError :: "GrammarError option"
  errors :: nat

definition new_Session :: "DiagnosticsOptions \<Rightarrow> Session" where
  "new_Session options =
     \<lparr>problems = [], stage = None,
      callbacks =
        \<lparr>cb_error = (case opt_error options of Missing \<Rightarrow> Some ignored | Property v \<Rightarrow> v),
         cb_warning = (case opt_warning options of Missing \<Rightarrow> Some ignored | Property v \<Rightarrow> v),
         cb_info = (case opt_info options of Missing \<Rightarrow> Some ignored | Property v \<Rightarrow> v)\<rparr>,
      firstError = None, errors = 0\<rparr>"

text \<open>
  The call \<open>this._callbacks.error(this.stage, ...args)\<close>: calling \<open>undefined\<close> throws a \<open>TypeError\<close>,
  a function returns or throws what it does.
\<close>

definition notify ::
  "DiagnosticCallback option \<Rightarrow> string \<Rightarrow> Stage \<Rightarrow> string \<Rightarrow> LocationRange option
     \<Rightarrow> DiagnosticNote list option \<Rightarrow> exn option" where
  "notify callback key st msg loc notes =
     (case callback of
        None \<Rightarrow> Some (TypeError (''this._callbacks.'' @ key @ '' is not a function''))
      | Some f \<Rightarrow> f st msg loc notes)"

text \<open>
  A method returns the exception it threw, if any, and the session as it left it: the
  assignments made before a \<open>throw\<close> stay made.
\<close>

definition Session_error ::
  "Session \<Rightarrow> string \<Rightarrow> LocationRange option \<Rightarrow> DiagnosticNote list option \<Rightarrow> exn option \<times> Session" where
  "Session_error s msg loc notes =
     (let s1 = s\<lparr>errors := errors s + 1\<rparr>;
          s2 = (if firstError s1 = None
                then s1\<lparr>firstError :=
                       Some (case new_GrammarError msg loc notes of
                               GrammarError m l d st ps \<Rightarrow> GrammarError m l d (stage s1) SessionProblems)\<rparr>
                else s1)
      in case stage s2 of
           None \<Rightarrow> (Some (Error ''Impossible''), s2)
         | Some st \<Rightarrow>
             (let s3 = s2\<lparr>problems := problems s2 @ [(Sev_error, msg, loc, notes)]\<rparr>
              in (notify (cb_error (callbacks s3)) ''error'' st msg loc notes, s3)))"

definition Session_warning ::
  "Session \<Rightarrow> string \<Rightarrow> LocationRange option \<Rightarrow> DiagnosticNote list option \<Rightarrow> exn option \<times> Session" where
  "Session_warning s msg loc notes =
     (let s1 = s\<lparr>problems := problems s @ [(Sev_warning, msg, loc, notes)]\<rparr>
      in case stage s1 of
           None \<Rightarrow> (Some (Error ''Impossible''), s1)
         | Some st \<Rightarrow> (notify (cb_warning (callbacks s1)) ''warning'' st msg loc notes, s1))"

definition Session_info ::
  "Session \<Rightarrow> string \<Rightarrow> LocationRange option \<Rightarrow> DiagnosticNote list option \<Rightarrow> exn option \<times> Session" where
  "Session_info s msg loc notes =
     (let s1 = s\<lparr>problems := problems s @ [(Sev_info, msg, loc, notes)]\<rparr>
      in case stage s1 of
           None \<Rightarrow> (Some (Error ''Impossible''), s1)
         | Some st \<Rightarrow> (notify (cb_info (callbacks s1)) ''info'' st msg loc notes, s1))"

definition checkErrors :: "Session \<Rightarrow> exn option" where
  "checkErrors s =
     (if errors s \<noteq> 0
      then Some (case firstError s of None \<Rightarrow> Throw_null | Some e \<Rightarrow> Throw_GrammarError e)
      else None)"

text \<open>What the holder of a \<open>GrammarError\<close> reads in its \<open>problems\<close>, the session being \<open>s\<close>.\<close>

definition problems_of :: "Session \<Rightarrow> GrammarError \<Rightarrow> Problem list" where
  "problems_of s e = (case ge_problems e of OwnProblems ps \<Rightarrow> ps | SessionProblems \<Rightarrow> problems s)"

section \<open>Properties of the session\<close>

text \<open>
  A session built by the constructor and used through its methods keeps the error count
  and the first error in step: the count is zero exactly when no error is retained, and a
  retained error shares the session's problems.
\<close>

definition session_inv :: "Session \<Rightarrow> bool" where
  "session_inv s \<longleftrightarrow>
     (errors s = 0) = (firstError s = None) \<and>
     (case firstError s of None \<Rightarrow> True | Some e \<Rightarrow> ge_problems e = SessionProblems)"

lemma session_inv_new: "session_inv (new_Session options)"
  by (simp add: session_inv_def new_Session_def)

lemma session_inv_error: "session_inv s \<Longrightarrow> session_inv (snd (Session_error s msg loc notes))"
  by (auto simp: session_inv_def Session_error_def Let_def new_GrammarError_def
      split: option.splits)

lemma session_inv_warning: "session_inv s \<Longrightarrow> session_inv (snd (Session_warning s msg loc notes))"
  by (auto simp: session_inv_def Session_warning_def Let_def split: option.splits)

lemma session_inv_info: "session_inv s \<Longrightarrow> session_inv (snd (Session_info s msg loc notes))"
  by (auto simp: session_inv_def Session_info_def Let_def split: option.splits)

lemma session_inv_stage: "session_inv s \<Longrightarrow> session_inv (s\<lparr>stage := st\<rparr>)"
  by (simp add: session_inv_def)

text \<open>
  Claim C7, as the code has it.  \<open>Session.error\<close> first counts the error and retains the first
  one, then throws \<open>Error("Impossible")\<close> when no stage is set, and only then records the
  problem: with no stage the error is counted and retained but not recorded.
\<close>

theorem Session_error_without_stage_counterexample:
  "stage (new_Session no_options) = None \<and>
   fst (Session_error (new_Session no_options) ''m'' None None) = Some (Error ''Impossible'') \<and>
   problems (snd (Session_error (new_Session no_options) ''m'' None None)) = [] \<and>
   errors (snd (Session_error (new_Session no_options) ''m'' None None)) = 1"
  by (simp add: Session_error_def new_Session_def new_GrammarError_def)

text \<open>
  Claim C7, amended: when the session's stage is set, \<open>Session.error\<close> appends the problem with
  severity \<open>error\<close> and adds one to the error count; if no error was retained before, it retains
  one made from its arguments whose \<open>stage\<close> is the session's stage and whose \<open>problems\<close> are the
  session's own list, whatever is appended to it later; if one was retained, it is kept.  All
  this is done before the callback is called, so it holds whether the callback returns,
  throws or is \<open>undefined\<close>; the method returns normally exactly when the callback does.
  \<open>Session.warning\<close> and \<open>Session.info\<close> append their problem and leave the error count and the
  retained error alone (with or without a stage).  \<open>checkErrors\<close> throws exactly when the error
  count is not zero, and what it throws is the retained error.
\<close>

theorem Session_reports:
  assumes "stage s = Some st"
  shows
    "problems (snd (Session_error s msg loc notes)) = problems s @ [(Sev_error, msg, loc, notes)] \<and>
     errors (snd (Session_error s msg loc notes)) = errors s + 1 \<and>
     stage (snd (Session_error s msg loc notes)) = stage s \<and>
     callbacks (snd (Session_error s msg loc notes)) = callbacks s \<and>
     (firstError s = None \<longrightarrow>
        (\<exists>e. firstError (snd (Session_error s msg loc notes)) = Some e \<and>
             ge_message e = msg \<and> ge_location e = loc \<and>
             ge_stage e = stage s \<and> (\<forall>s'. problems_of s' e = problems s'))) \<and>
     (firstError s \<noteq> None \<longrightarrow> firstError (snd (Session_error s msg loc notes)) = firstError s) \<and>
     (\<forall>f. cb_error (callbacks s) = Some f \<longrightarrow> fst (Session_error s msg loc notes) = f st msg loc notes) \<and>
     (cb_error (callbacks s) = None \<longrightarrow> fst (Session_error s msg loc notes) \<noteq> None) \<and>
     problems (snd (Session_warning s' msg loc notes)) = problems s' @ [(Sev_warning, msg, loc, notes)] \<and>
     errors (snd (Session_warning s' msg loc notes)) = errors s' \<and>
     firstError (snd (Session_warning s' msg loc notes)) = firstError s' \<and>
     problems (snd (Session_info s' msg loc notes)) = problems s' @ [(Sev_info, msg, loc, notes)] \<and>
     errors (snd (Session_info s' msg loc notes)) = errors s' \<and>
     firstError (snd (Session_info s' msg loc notes)) = firstError s' \<and>
     (checkErrors s' \<noteq> None) = (errors s' \<noteq> 0) \<and>
     (errors s' \<noteq> 0 \<longrightarrow>
        checkErrors s' = Some (case firstError s' of None \<Rightarrow> Throw_null | Some e \<Rightarrow> Throw_GrammarError e)) \<and>
     (session_inv s' \<longrightarrow> errors s' \<noteq> 0 \<longrightarrow>
        (\<exists>e. firstError s' = Some e \<and> checkErrors s' = Some (Throw_GrammarError e)))"
proof -
  have err: "Session_error s msg loc notes =
      (notify (cb_error (callbacks s)) ''error'' st msg loc notes,
       (if firstError s = None
        then s\<lparr>errors := errors s + 1,
               firstError := Some (GrammarError msg loc (case notes of None \<Rightarrow> [] | Some ds \<Rightarrow> ds)
                                    (stage s) SessionProblems)\<rparr>
        else s\<lparr>errors := errors s + 1\<rparr>)
       \<lparr>problems := problems s @ [(Sev_error, msg, loc, notes)]\<rparr>)"
    using assms by (simp add: Session_error_def Let_def new_GrammarError_def)
  have warn: "snd (Session_warning s' msg loc notes) =
      s'\<lparr>problems := problems s' @ [(Sev_warning, msg, loc, notes)]\<rparr>"
    by (simp add: Session_warning_def Let_def split: option.splits)
  have inf: "snd (Session_info s' msg loc notes) =
      s'\<lparr>problems := problems s' @ [(Sev_info, msg, loc, notes)]\<rparr>"
    by (simp add: Session_info_def Let_def split: option.splits)
  have chk: "(checkErrors s' \<noteq> None) = (errors s' \<noteq> 0) \<and>
     (errors s' \<noteq> 0 \<longrightarrow>
        checkErrors s' = Some (case firstError s' of None \<Rightarrow> Throw_null | Some e \<Rightarrow> Throw_GrammarError e)) \<and>
     (session_inv s' \<longrightarrow> errors s' \<noteq> 0 \<longrightarrow>
        (\<exists>e. firstError s' = Some e \<and> checkErrors s' = Some (Throw_GrammarError e)))"
    by (auto simp: checkErrors_def session_inv_def split: option.splits)
  show ?thesis
    unfolding err warn inf using chk
    by (simp add: problems_of_def notify_def split: option.splits)
qed

text \<open>
  The amended claim at work: a session in stage \<open>check\<close> receives an error, a warning and a
  second error.  The first error is retained with stage \<open>check\<close>, the count is two,
  \<open>checkErrors\<close> throws the first error, and its \<open>problems\<close> are all three problems.
\<close>

theorem Session_reports_witness:
  "stage ((new_Session no_options)\<lparr>stage := Some Stage_check\<rparr>) = Some Stage_check \<and>
   fst (Session_error ((new_Session no_options)\<lparr>stage := Some Stage_check\<rparr>) ''first'' None None) = None \<and>
   problems (snd (Session_error ((new_Session no_options)\<lparr>stage := Some Stage_check\<rparr>) ''first'' None None))
     = [(Sev_error, ''first'', None, None)] \<and>
   errors (snd (Session_error ((new_Session no_options)\<lparr>stage := Some Stage_check\<rparr>) ''first'' None None)) = 1 \<and>
   firstError (snd (Session_error ((new_Session no_options)\<lparr>stage := Some Stage_check\<rparr>) ''first'' None None))
     = Some (GrammarError ''first'' None [] (Some Stage_check) SessionProblems) \<and>
   errors (snd (Session_error (snd (Session_warning (snd (Session_error
      ((new_Session no_options)\<lparr>stage := Some Stage_check\<rparr>) ''first'' None None)) ''w'' None None)) ''second'' None None)) = 2 \<and>
   checkErrors (snd (Session_error (snd (Session_warning (snd (Session_error
      ((new_Session no_options)\<lparr>stage := Some Stage_check\<rparr>) ''first'' None None)) ''w'' None None)) ''second'' None None))
     = Some (Throw_GrammarError (GrammarError ''first'' None [] (Some Stage_check) SessionProblems)) \<and>
   problems_of (snd (Session_error (snd (Session_warning (snd (Session_error
      ((new_Session no_options)\<lparr>stage := Some Stage_check\<rparr>) ''first'' None None)) ''w'' None None)) ''second'' None None))
      (GrammarError ''first'' None [] (Some Stage_check) SessionProblems)
     = [(Sev_error, ''first'', None, None), (Sev_warning, ''w'', None, None),
        (Sev_error, ''second'', None, None)] \<and>
   checkErrors ((new_Session no_options)\<lparr>stage := Some Stage_check\<rparr>) = None"
  using Session_reports [of "(new_Session no_options)\<lparr>stage := Some Stage_check\<rparr>" Stage_check "''first''" None None
      "(new_Session no_options)\<lparr>stage := Some Stage_check\<rparr>"]
  by (simp add: Session_error_def Session_warning_def new_Session_def new_GrammarError_def
      checkErrors_def problems_of_def no_options_def notify_def ignored_def)

section \<open>The pipeline driver (\<open>compile\<close> and \<open>parseOptions\<close>)\<close>

text \<open>
  The raw options: a field that is not given is \<open>undefined\<close>, here \<open>None\<close>.  \<open>grammarSource\<close> is
  of any type; \<open>compile\<close> only asks whether it is a string.  \<open>error\<close>, \<open>warning\<close> and \<open>info\<close> are
  the diagnostic callbacks of the caller.
\<close>

datatype GrammarSource = GS_undefined | GS_string string | GS_other

record RawOptions =
  raw_allowedStartRules :: "string list option"
  raw_cache :: "bool option"
  raw_trace :: "bool option"
  raw_grammarSource :: GrammarSource
  raw_optimize :: "string option"
  raw_plugins :: "string list option"
  raw_output :: "string option"
  raw_format :: "string option"
  raw_dependencies :: "(string \<times> string) list option"
  raw_exportVar :: "string option"
  raw_error :: "DiagnosticCallback option"
  raw_warning :: "DiagnosticCallback option"
  raw_info :: "DiagnosticCallback option"

record ParsedOptions =
  outputKind :: string
  allowedStartRules :: "string list"
  cache :: bool
  trace :: bool
  grammarSource :: GrammarSource
  optimize :: "string option"
  plugins :: "string list option"
  error :: "DiagnosticCallback option"
  warning :: "DiagnosticCallback option"
  info :: "DiagnosticCallback option"
  format :: "string option"
  dependencies :: "(string \<times> string) list option"
  exportVar :: "string option"

text \<open>
  \<open>parseModuleFormats\<close> returns the fields \<open>format\<close>, \<open>dependencies\<close> and \<open>exportVar\<close>;
  \<open>x || y\<close> takes \<open>y\<close> when \<open>x\<close> is \<open>undefined\<close> or the empty string.  A format outside the six
  known ones falls out of the \<open>switch\<close> and gives no field.
\<close>

definition parseModuleFormats ::
  "RawOptions \<Rightarrow> string option \<times> (string \<times> string) list option \<times> string option" where
  "parseModuleFormats data =
     (let deps = (case raw_dependencies data of None \<Rightarrow> Some [] | Some d \<Rightarrow> Some d);
          ev = (case raw_exportVar data of None \<Rightarrow> None | Some v \<Rightarrow> if v = '''' then None else Some v)
      in case raw_format data of
           None \<Rightarrow> (Some ''bare'', None, None)
         | Some f \<Rightarrow>
             if f = ''amd'' \<or> f = ''commonjs'' \<or> f = ''es'' then (Some f, deps, None)
             else if f = ''bare'' then (Some ''bare'', None, None)
             else if f = ''umd'' then (Some f, deps, ev)
             else if f = ''globals'' then (Some f, None, ev)
             else (None, None, None))"

text \<open>
  \<open>parseOptions\<close> destructures the options first: the default of \<open>allowedStartRules\<close>,
  \<open>[getFirstRule()]\<close>, is evaluated there, and only when the field is \<open>undefined\<close>.  The first
  argument is what the call \<open>getFirstRule()\<close> gives: a name, or the exception it throws.
\<close>

definition parseOptions :: "exn + string \<Rightarrow> RawOptions \<Rightarrow> exn + ParsedOptions" where
  "parseOptions getFirstRule options =
     (case (case raw_allowedStartRules options of
              Some rs \<Rightarrow> Inr rs
            | None \<Rightarrow> (case getFirstRule of Inl e \<Rightarrow> Inl e | Inr r \<Rightarrow> Inr [r])) of
        Inl e \<Rightarrow> Inl e
      | Inr allowed \<Rightarrow>
          (let base = \<lparr>outputKind = ''parser'', allowedStartRules = allowed,
                       cache = (case raw_cache options of None \<Rightarrow> False | Some c \<Rightarrow> c),
                       trace = (case raw_trace options of None \<Rightarrow> False | Some t \<Rightarrow> t),
                       grammarSource = raw_grammarSource options,
                       optimize = raw_optimize options,
                       plugins = raw_plugins options,
                       error = raw_error options, warning = raw_warning options,
                       info = raw_info options,
                       format = Some ''bare'', dependencies = None, exportVar = None\<rparr>;
               out = (case raw_output options of None \<Rightarrow> '''' | Some v \<Rightarrow> v)
           in if out = '''' \<or> out = ''parser'' \<or> out = ''ast''
              then Inr (base\<lparr>outputKind := (if out = '''' then ''parser'' else out)\<rparr>)
              else if out = ''source'' \<or> out = ''source-and-map'' \<or> out = ''source-with-inline-map''
              then (case parseModuleFormats options of
                      (f, d, ev) \<Rightarrow>
                        Inr (base\<lparr>outputKind := out, format := f, dependencies := d, exportVar := ev\<rparr>))
              else Inl (Error (''Unknown output value: '' @ out))))"

text \<open>
  A pass receives the AST, the options and the session, and mutates the AST and the
  session.  It returns the exception it threw, if any, with the AST and the session as it
  left them; \<open>None\<close> says that it does not return.  \<open>compile\<close> reads its \<open>name\<close> for a message.
\<close>

record Pass =
  pass_name :: string
  pass_run :: "Grammar \<Rightarrow> ParsedOptions \<Rightarrow> Session \<Rightarrow> (exn option \<times> Grammar \<times> Session) option"

type_synonym Stages = "(Stage \<times> Pass list) list"

fun run_passes ::
  "Stage \<Rightarrow> Pass list \<Rightarrow> Grammar \<Rightarrow> ParsedOptions \<Rightarrow> Session \<Rightarrow> (exn option \<times> Grammar \<times> Session) option" where
  "run_passes st [] ast options session = Some (None, ast, session)"
| "run_passes st (pass # passes) ast options session =
     (case Session_info session (''Process pass '' @ stage_name st @ ''.'' @ pass_name pass) None None of
        (Some e, session1) \<Rightarrow> Some (Some e, ast, session1)
      | (None, session1) \<Rightarrow>
          (case pass_run pass ast options session1 of
             None \<Rightarrow> None
           | Some (Some e, ast2, session2) \<Rightarrow> Some (Some e, ast2, session2)
           | Some (None, ast2, session2) \<Rightarrow> run_passes st passes ast2 options session2))"

fun run_stages ::
  "Stages \<Rightarrow> Grammar \<Rightarrow> ParsedOptions \<Rightarrow> Session \<Rightarrow> (exn option \<times> Grammar \<times> Session) option" where
  "run_stages [] ast options session = Some (None, ast, session)"
| "run_stages ((stageName, passes) # stages) ast options session =
     (let session0 = session\<lparr>stage := Some stageName\<rparr>
      in case Session_info session0 (''Process stage '' @ stage_name stageName) None None of
           (Some e, session1) \<Rightarrow> Some (Some e, ast, session1)
         | (None, session1) \<Rightarrow>
             (case run_passes stageName passes ast options session1 of
                None \<Rightarrow> None
              | Some (Some e, ast2, session2) \<Rightarrow> Some (Some e, ast2, session2)
              | Some (None, ast2, session2) \<Rightarrow>
                  (case checkErrors session2 of
                     Some e \<Rightarrow> Some (Some e, ast2, session2)
                   | None \<Rightarrow> run_stages stages ast2 options session2)))"

text \<open>
  The session is local to \<open>compile\<close>: who catches the exception reads the problems of a
  \<open>GrammarError\<close> through the reference it holds, at the time of the \<open>throw\<close>.
\<close>

fun snapshot :: "Session \<Rightarrow> exn \<Rightarrow> exn" where
  "snapshot s (Throw_GrammarError e) =
     Throw_GrammarError (GrammarError (ge_message e) (ge_location e) (ge_diagnostics e) (ge_stage e)
        (OwnProblems (problems_of s e)))"
| "snapshot s e = e"

datatype Output =
    Out_parser string
  | Out_source string
  | Out_source_and_map SourceNode
  | Out_source_with_inline_map SourceNode
  | Out_ast Grammar
  | Out_undefined

fun first_unknown :: "string list \<Rightarrow> string list \<Rightarrow> string option" where
  "first_unknown allRules [] = None"
| "first_unknown allRules (r # rs) = (if r \<in> set allRules then first_unknown allRules rs else Some r)"

text \<open>
  \<open>compile\<close>.  \<open>hasTextEncoder\<close> says whether the platform defines \<open>TextEncoder\<close>.  The result is
  what the caller gets, the exception or the output, and the AST as the passes left it.
  The session is built from the parsed options, in which the keys \<open>error\<close>, \<open>warning\<close> and
  \<open>info\<close> are always present: a callback that the caller did not give is \<open>undefined\<close> in the
  session, not the default.
\<close>

definition compile ::
  "bool \<Rightarrow> Grammar \<Rightarrow> Stages \<Rightarrow> RawOptions \<Rightarrow> ((exn + Output) \<times> Grammar) option" where
  "compile hasTextEncoder ast stages rawOptions =
     (case parseOptions
             (case rules ast of
                [] \<Rightarrow> Inl (Error ''Must have at least one start rule'')
              | r # rs \<Rightarrow> Inr (name r))
             rawOptions of
        Inl e \<Rightarrow> Some (Inl e, ast)
      | Inr options0 \<Rightarrow>
          (let allRules = map name (rules ast) in
           case (if ''*'' \<in> set (allowedStartRules options0)
                 then Inr (options0\<lparr>allowedStartRules := allRules\<rparr>)
                 else (case first_unknown allRules (allowedStartRules options0) of
                         Some r \<Rightarrow> Inl (Error (''Unknown start rule \"'' @ r @ ''\"''))
                       | None \<Rightarrow> Inr options0)) of
             Inl e \<Rightarrow> Some (Inl e, ast)
           | Inr options \<Rightarrow>
               if (outputKind options = ''source-and-map'' \<or> outputKind options = ''source-with-inline-map'')
                  \<and> (case grammarSource options of GS_string g \<Rightarrow> g = '''' | _ \<Rightarrow> True)
               then Some (Inl (Error
                 ''Must provide grammarSource (as a string) in order to generate source maps''), ast)
               else
                 (case run_stages stages ast options
                         (new_Session \<lparr>opt_error = Property (error options),
                                       opt_warning = Property (warning options),
                                       opt_info = Property (info options)\<rparr>) of
                    None \<Rightarrow> None
                  | Some (Some e, ast2, session) \<Rightarrow> Some (Inl (snapshot session e), ast2)
                  | Some (None, ast2, session) \<Rightarrow>
                      (case code ast2 of
                         None \<Rightarrow> Some (Inl (Error ''Failed to generate code''), ast2)
                       | Some c \<Rightarrow>
                           if outputKind options = ''parser'' then Some (Inr (Out_parser (toString c)), ast2)
                           else if outputKind options = ''source'' then Some (Inr (Out_source (toString c)), ast2)
                           else if outputKind options = ''source-and-map''
                           then Some (Inr (Out_source_and_map c), ast2)
                           else if outputKind options = ''source-with-inline-map''
                           then (if hasTextEncoder
                                 then Some (Inr (Out_source_with_inline_map c), ast2)
                                 else Some (Inl (Error ''TextEncoder is not supported by this platform''), ast2))
                           else if outputKind options = ''ast'' then Some (Inr (Out_ast ast2), ast2)
                           else Some (Inr Out_undefined, ast2)))))"

text \<open>
  Claim C9.  On a grammar without rules, with options that give no \<open>allowedStartRules\<close>,
  \<open>compile\<close> throws \<open>Error("Must have at least one start rule")\<close>.  This holds for every list
  of stages and passes, whatever the passes would do, and the AST is returned as it was
  given: no pass has run.
\<close>

theorem compile_no_start_rule:
  "rules ast = [] \<and> raw_allowedStartRules rawOptions = None \<longrightarrow>
     compile hasTextEncoder ast stages rawOptions
       = Some (Inl (Error ''Must have at least one start rule''), ast)"
  by (simp add: compile_def parseOptions_def)

theorem compile_no_start_rule_witness:
  "rules (mk_grammar []) = [] \<and>
   raw_allowedStartRules
     \<lparr>raw_allowedStartRules = None, raw_cache = None, raw_trace = None,
      raw_grammarSource = GS_undefined, raw_optimize = None, raw_plugins = None,
      raw_output = None, raw_format = None, raw_dependencies = None, raw_exportVar = None,
      raw_error = None, raw_warning = None, raw_info = None\<rparr> = None \<and>
   compile True (mk_grammar [])
     [(Stage_check, [\<lparr>pass_name = ''diverges'', pass_run = (\<lambda>ast options session. None)\<rparr>])]
     \<lparr>raw_allowedStartRules = None, raw_cache = None, raw_trace = None,
      raw_grammarSource = GS_undefined, raw_optimize = None, raw_plugins = None,
      raw_output = None, raw_format = None, raw_dependencies = None, raw_exportVar = None,
      raw_error = None, raw_warning = None, raw_info = None\<rparr>
     = Some (Inl (Error ''Must have at least one start rule''), mk_grammar [])"
  using compile_no_start_rule [of "mk_grammar []"
      "\<lparr>raw_allowedStartRules = None, raw_cache = None, raw_trace = None,
        raw_grammarSource = GS_undefined, raw_optimize = None, raw_plugins = None,
        raw_output = None, raw_format = None, raw_dependencies = None, raw_exportVar = None,
      raw_error = None, raw_warning = None, raw_info = None\<rparr>"
      True
      "[(Stage_check, [\<lparr>pass_name = ''diverges'', pass_run = (\<lambda>ast options session. None)\<rparr>])]"]
  by (simp add: mk_grammar_def)

section \<open>The bytecode generator (\<open>generateBytecode\<close>)\<close>

text \<open>
  The opcodes, with the numbers of the instruction table that heads the pass.
\<close>

definition op_PUSH_EMPTY_STRING :: int where "op_PUSH_EMPTY_STRING = 35"
definition op_PUSH_UNDEFINED :: int where "op_PUSH_UNDEFINED = 1"
definition op_PUSH_NULL :: int where "op_PUSH_NULL = 2"
definition op_PUSH_FAILED :: int where "op_PUSH_FAILED = 3"
definition op_PUSH_EMPTY_ARRAY :: int where "op_PUSH_EMPTY_ARRAY = 4"
definition op_PUSH_CURR_POS :: int where "op_PUSH_CURR_POS = 5"
definition op_POP :: int where "op_POP = 6"
definition op_POP_CURR_POS :: int where "op_POP_CURR_POS = 7"
definition op_POP_N :: int where "op_POP_N = 8"
definition op_NIP :: int where "op_NIP = 9"
definition op_APPEND :: int where "op_APPEND = 10"
definition op_WRAP :: int where "op_WRAP = 11"
definition op_TEXT :: int where "op_TEXT = 12"
definition op_PLUCK :: int where "op_PLUCK = 36"
definition op_IF :: int where "op_IF = 13"
definition op_IF_ERROR :: int where "op_IF_ERROR = 14"
definition op_IF_NOT_ERROR :: int where "op_IF_NOT_ERROR = 15"
definition op_WHILE_NOT_ERROR :: int where "op_WHILE_NOT_ERROR = 16"
definition op_MATCH_ANY :: int where "op_MATCH_ANY = 17"
definition op_MATCH_STRING :: int where "op_MATCH_STRING = 18"
definition op_MATCH_STRING_IC :: int where "op_MATCH_STRING_IC = 19"
definition op_MATCH_CHAR_CLASS :: int where "op_MATCH_CHAR_CLASS = 20"
definition op_ACCEPT_N :: int where "op_ACCEPT_N = 21"
definition op_ACCEPT_STRING :: int where "op_ACCEPT_STRING = 22"
definition op_FAIL :: int where "op_FAIL = 23"
definition op_LOAD_SAVED_POS :: int where "op_LOAD_SAVED_POS = 24"
definition op_UPDATE_SAVED_POS :: int where "op_UPDATE_SAVED_POS = 25"
definition op_CALL :: int where "op_CALL = 26"
definition op_RULE :: int where "op_RULE = 27"
definition op_SILENT_FAILS_ON :: int where "op_SILENT_FAILS_ON = 28"
definition op_SILENT_FAILS_OFF :: int where "op_SILENT_FAILS_OFF = 29"

text \<open>
  The four constant pools.  \<open>indexOf\<close> and \<open>findIndex\<close> return \<open>-1\<close> when nothing is found;
  the three pools of descriptors compare the \<open>JSON.stringify\<close> texts, which is equality of
  the descriptors.  \<open>xs.push(x) - 1\<close> is the index of the new last element.
\<close>

record Pools =
  const_literals :: "string list"
  const_classes :: "CharClassDesc list"
  const_expectations :: "ExpectedConst list"
  const_functions :: "FunctionDesc list"

fun indexOf_from :: "int \<Rightarrow> 'a list \<Rightarrow> 'a \<Rightarrow> int" where
  "indexOf_from i [] v = -1"
| "indexOf_from i (x # xs) v = (if x = v then i else indexOf_from (i + 1) xs v)"

definition addConst :: "'a \<Rightarrow> 'a list \<Rightarrow> int \<times> 'a list" where
  "addConst v xs =
     (let index = indexOf_from 0 xs v
      in if index = -1 then (int (length xs), xs @ [v]) else (index, xs))"

definition addLiteralConst :: "string \<Rightarrow> Pools \<Rightarrow> int \<times> Pools" where
  "addLiteralConst v ps =
     (case addConst v (const_literals ps) of (i, xs) \<Rightarrow> (i, ps\<lparr>const_literals := xs\<rparr>))"

definition addClassConst :: "ClassPart list \<Rightarrow> bool \<Rightarrow> bool \<Rightarrow> Pools \<Rightarrow> int \<times> Pools" where
  "addClassConst parts inverted ignoreCase ps =
     (case addConst (CharClassDesc parts inverted ignoreCase) (const_classes ps) of
        (i, xs) \<Rightarrow> (i, ps\<lparr>const_classes := xs\<rparr>))"

definition addExpectedConst :: "ExpectedConst \<Rightarrow> Pools \<Rightarrow> int \<times> Pools" where
  "addExpectedConst expected ps =
     (case addConst expected (const_expectations ps) of (i, xs) \<Rightarrow> (i, ps\<lparr>const_expectations := xs\<rparr>))"

definition addFunctionConst ::
  "bool \<Rightarrow> string list \<Rightarrow> string \<times> LocationRange \<Rightarrow> Pools \<Rightarrow> int \<times> Pools" where
  "addFunctionConst predicate params node ps =
     (case addConst (FunctionDesc predicate params (fst node) (snd node)) (const_functions ps) of
        (i, xs) \<Rightarrow> (i, ps\<lparr>const_functions := xs\<rparr>))"

text \<open>
  The code builders.  An element of a bytecode is a number or \<open>null\<close> (an index that was not
  needed), here \<open>None\<close>.
\<close>

definition buildCondition :: "MatchResult \<Rightarrow> Bytecode \<Rightarrow> Bytecode \<Rightarrow> Bytecode \<Rightarrow> Bytecode" where
  "buildCondition m condCode thenCode elseCode =
     (if m = ALWAYS then thenCode
      else if m = NEVER then elseCode
      else condCode @ [Some (int (length thenCode)), Some (int (length elseCode))] @ thenCode @ elseCode)"

definition buildLoop :: "Bytecode \<Rightarrow> Bytecode \<Rightarrow> Bytecode" where
  "buildLoop condCode bodyCode = condCode @ [Some (int (length bodyCode))] @ bodyCode"

text \<open>
  The environment maps label names to stack positions.  It is a plain JavaScript object (\<open>{}\<close>),
  written by \<open>env[label] = sp\<close> and read through its own keys (\<open>Object.keys\<close>, the spread
  \<open>{...env}\<close>).  The keys that are array indices (the decimal numerals below \<open>2^32 - 1\<close>) are listed
  first, in ascending numeric order, and the other keys after them in the order of their first
  assignment; an assignment to a key that is present replaces the value in place.  The
  assignment \<open>env['__proto__'] = sp\<close> reaches the setter that \<open>Object.prototype\<close> has for that
  name, which ignores a number: it makes no key.  The list holds the own keys in the order
  of \<open>Object.keys\<close>.
\<close>

type_synonym Env = "(string \<times> int) list"

definition index_value :: "string \<Rightarrow> nat" where
  "index_value k = foldl (\<lambda>n c. 10 * n + ((of_char c :: nat) - 48)) 0 k"

definition is_array_index :: "string \<Rightarrow> bool" where
  "is_array_index k \<longleftrightarrow>
     k \<noteq> [] \<and> list_all (\<lambda>c. 48 \<le> (of_char c :: nat) \<and> (of_char c :: nat) \<le> 57) k \<and>
     (length k = 1 \<or> hd k \<noteq> CHR ''0'') \<and> index_value k < 4294967295"

fun env_replace :: "string \<Rightarrow> int \<Rightarrow> Env \<Rightarrow> Env" where
  "env_replace k v [] = []"
| "env_replace k v ((k', v') # kvs) =
     (if k' = k then (k, v) # kvs else (k', v') # env_replace k v kvs)"

fun env_insert_index :: "string \<Rightarrow> int \<Rightarrow> Env \<Rightarrow> Env" where
  "env_insert_index k v [] = [(k, v)]"
| "env_insert_index k v ((k', v') # kvs) =
     (if is_array_index k' \<and> index_value k' < index_value k
      then (k', v') # env_insert_index k v kvs
      else (k, v) # (k', v') # kvs)"

definition env_set :: "string \<Rightarrow> int \<Rightarrow> Env \<Rightarrow> Env" where
  "env_set k v ev =
     (if k = ''__proto__'' then ev
      else if k \<in> set (map fst ev) then env_replace k v ev
      else if is_array_index k then env_insert_index k v ev
      else ev @ [(k, v)])"

definition buildCall :: "int option \<Rightarrow> int \<Rightarrow> Env \<Rightarrow> int \<Rightarrow> Bytecode" where
  "buildCall functionIndex delta env sp =
     (let params = map (\<lambda>(nm, pos). sp - pos) env
      in [Some op_CALL, functionIndex, Some delta, Some (int (length params))] @ map Some params)"

definition buildAppendLoop :: "Bytecode \<Rightarrow> Bytecode" where
  "buildAppendLoop expressionCode = buildLoop [Some op_WHILE_NOT_ERROR] ([Some op_APPEND] @ expressionCode)"

text \<open>
  \<open>String.toLowerCase\<close>.  A character of the model is a code unit from \<open>U+0000\<close> to \<open>U+00FF\<close>; the
  letters of that range that have a lowercase are \<open>A\<close> to \<open>Z\<close> and \<open>U+00C0\<close> to \<open>U+00DE\<close> without the
  multiplication sign \<open>U+00D7\<close>, and the lowercase of each lies 32 above it.
\<close>

definition toLowerCase :: "string \<Rightarrow> string" where
  "toLowerCase v =
     map (\<lambda>c. if (65 \<le> (of_char c :: nat) \<and> (of_char c :: nat) \<le> 90) \<or>
                 (192 \<le> (of_char c :: nat) \<and> (of_char c :: nat) \<le> 222 \<and> (of_char c :: nat) \<noteq> 215)
              then char_of ((of_char c :: nat) + 32) else c) v"

text \<open>
  The context of a node: the stack pointer, the environment, the picked positions
  (\<open>undefined\<close> in most contexts) and the enclosing action (its \<open>code\<close> and \<open>codeLocation\<close>,
  which is all that is read of it).  \<open>env\<close> and \<open>pluck\<close> are objects that contexts may share:
  \<open>generate\<close> returns them as the node left them, and a caller that had passed a copy
  (\<open>{...context.env}\<close>) or no \<open>pluck\<close> drops what comes back.
\<close>

record Context =
  sp :: int
  env :: Env
  pluck :: "int list option"
  action :: "(string \<times> LocationRange) option"

fun is_sequence :: "expr \<Rightarrow> bool" where
  "is_sequence (Sequence x es) = True"
| "is_sequence e = False"

fun elements_of :: "expr \<Rightarrow> expr list" where
  "elements_of (Sequence x es) = es"
| "elements_of e = []"

text \<open>The tail of a sequence, emitted after its last element.\<close>

definition sequence_tail :: "nat \<Rightarrow> Context \<Rightarrow> Pools \<Rightarrow> Bytecode \<times> Pools" where
  "sequence_tail n_elements context ps =
     (case (case pluck context of None \<Rightarrow> [] | Some picked \<Rightarrow> picked) of
        p # picked \<Rightarrow>
          ([Some op_PLUCK, Some (int n_elements + 1), Some (int (length (p # picked)))]
             @ map (\<lambda>eSP. Some (sp context - eSP)) (p # picked), ps)
      | [] \<Rightarrow>
          (case action context of
             Some a \<Rightarrow>
               (case addFunctionConst False (map fst (env context)) a ps of
                  (functionIndex, ps1) \<Rightarrow>
                    ([Some op_LOAD_SAVED_POS, Some (int n_elements)]
                       @ buildCall (Some functionIndex) (int n_elements + 1) (env context) (sp context), ps1))
           | None \<Rightarrow> ([Some op_WRAP, Some (int n_elements), Some op_NIP], ps)))"

text \<open>
  The visitor.  A handler of an expression node always gets a context: \<open>rule\<close> makes one for
  its body, and every handler passes one on; the \<open>throw new Error('Impossible')\<close> of the
  handlers that test \<open>!context\<close> guard the call with \<open>null\<close>, which only the top-level call on
  the grammar makes.
\<close>

fun generate :: "Grammar \<Rightarrow> expr \<Rightarrow> Context \<Rightarrow> Pools \<Rightarrow> exn + (Bytecode \<times> Env \<times> int list option \<times> Pools)"
  and buildAlternativesCode :: "Grammar \<Rightarrow> expr list \<Rightarrow> Context \<Rightarrow> Pools \<Rightarrow> exn + (Bytecode \<times> Pools)"
  and buildElementsCode ::
    "Grammar \<Rightarrow> nat \<Rightarrow> expr list \<Rightarrow> Context \<Rightarrow> Pools \<Rightarrow> exn + (Bytecode \<times> Env \<times> int list option \<times> Pools)" where
  "generate ast (Named x nm e) context ps =
     (let m = match_or_sometimes x;
          (nameIndex, ps1) = (if m = NEVER then (None, ps)
                              else (case addExpectedConst (ExpectedConstRule nm) ps of
                                      (i, ps') \<Rightarrow> (Some i, ps')))
      in case generate ast e context ps1 of
           Inl err \<Rightarrow> Inl err
         | Inr (c, env1, pluck1, ps2) \<Rightarrow>
             Inr ([Some op_SILENT_FAILS_ON] @ c @ [Some op_SILENT_FAILS_OFF]
                    @ buildCondition m [Some op_IF_ERROR] [Some op_FAIL, nameIndex] [],
                  env1, pluck1, ps2))"
| "generate ast (Choice x alternatives) context ps =
     (case buildAlternativesCode ast alternatives context ps of
        Inl err \<Rightarrow> Inl err
      | Inr (c, ps1) \<Rightarrow> Inr (c, env context, pluck context, ps1))"
| "generate ast (Action x c cl e) context ps =
     (let emitCall = (\<not> is_sequence e \<or> length (elements_of e) = 0)
      in case generate ast e
                \<lparr>sp = sp context + (if emitCall then 1 else 0), env = env context, pluck = None,
                 action = Some (c, cl)\<rparr> ps of
           Inl err \<Rightarrow> Inl err
         | Inr (expressionCode, env1, pluck1, ps1) \<Rightarrow>
             (let m = match_or_sometimes (node_of e);
                  (functionIndex, ps2) =
                     (if emitCall \<and> m \<noteq> NEVER
                      then (case addFunctionConst False (map fst env1) (c, cl) ps1 of
                              (i, ps') \<Rightarrow> (Some i, ps'))
                      else (None, ps1))
              in Inr (if emitCall
                      then [Some op_PUSH_CURR_POS] @ expressionCode
                             @ buildCondition m [Some op_IF_NOT_ERROR]
                                 ([Some op_LOAD_SAVED_POS, Some 1]
                                    @ buildCall functionIndex 1 env1 (sp context + 2))
                                 []
                             @ [Some op_NIP]
                      else expressionCode,
                      env context, pluck context, ps2)))"
| "generate ast (Sequence x elements) context ps =
     (case buildElementsCode ast (length elements) elements
             \<lparr>sp = sp context + 1, env = env context, pluck = Some [], action = action context\<rparr> ps of
        Inl err \<Rightarrow> Inl err
      | Inr (c, env1, pluck1, ps1) \<Rightarrow> Inr ([Some op_PUSH_CURR_POS] @ c, env1, pluck context, ps1))"
| "generate ast (Labeled x pick label ll e) context ps =
     (let labelled = (case label of None \<Rightarrow> False | Some l \<Rightarrow> l \<noteq> '''');
          env0 = env context;
          env1 = (if labelled then env_set (the label) (sp context + 1) (env context) else env context)
      in if pick \<and> pluck context = None then Inl (Error ''Impossible'')
         else
           (let pluck1 = (if pick then map_option (\<lambda>picked. picked @ [sp context + 1]) (pluck context)
                          else pluck context)
            in case generate ast e \<lparr>sp = sp context, env = env0, pluck = None, action = None\<rparr> ps of
                 Inl err \<Rightarrow> Inl err
               | Inr (c, env2, pluck2, ps1) \<Rightarrow> Inr (c, if labelled then env1 else env2, pluck1, ps1)))"
| "generate ast (Text x e) context ps =
     (case generate ast e \<lparr>sp = sp context + 1, env = env context, pluck = None, action = None\<rparr> ps of
        Inl err \<Rightarrow> Inl err
      | Inr (c, env1, pluck1, ps1) \<Rightarrow>
          Inr ([Some op_PUSH_CURR_POS] @ c
                 @ buildCondition (match_or_sometimes x) [Some op_IF_NOT_ERROR]
                     [Some op_POP, Some op_TEXT] [Some op_NIP],
               env context, pluck context, ps1))"
| "generate ast (Simple_and x e) context ps =
     (case generate ast e \<lparr>sp = sp context + 1, env = env context, pluck = None, action = None\<rparr> ps of
        Inl err \<Rightarrow> Inl err
      | Inr (c, env1, pluck1, ps1) \<Rightarrow>
          Inr ([Some op_PUSH_CURR_POS] @ [Some op_SILENT_FAILS_ON] @ c @ [Some op_SILENT_FAILS_OFF]
                 @ buildCondition (match_or_sometimes (node_of e)) [Some op_IF_NOT_ERROR]
                     [Some op_POP, Some op_POP_CURR_POS, Some op_PUSH_UNDEFINED]
                     [Some op_POP, Some op_POP, Some op_PUSH_FAILED],
               env context, pluck context, ps1))"
| "generate ast (Simple_not x e) context ps =
     (case generate ast e \<lparr>sp = sp context + 1, env = env context, pluck = None, action = None\<rparr> ps of
        Inl err \<Rightarrow> Inl err
      | Inr (c, env1, pluck1, ps1) \<Rightarrow>
          Inr ([Some op_PUSH_CURR_POS] @ [Some op_SILENT_FAILS_ON] @ c @ [Some op_SILENT_FAILS_OFF]
                 @ buildCondition (negate (match_or_sometimes (node_of e))) [Some op_IF_ERROR]
                     [Some op_POP, Some op_POP, Some op_PUSH_UNDEFINED]
                     [Some op_POP, Some op_POP_CURR_POS, Some op_PUSH_FAILED],
               env context, pluck context, ps1))"
| "generate ast (Optional x e) context ps =
     (case generate ast e \<lparr>sp = sp context, env = env context, pluck = None, action = None\<rparr> ps of
        Inl err \<Rightarrow> Inl err
      | Inr (c, env1, pluck1, ps1) \<Rightarrow>
          Inr (c @ buildCondition (negate (match_or_sometimes (node_of e))) [Some op_IF_ERROR]
                     [Some op_POP, Some op_PUSH_NULL] [],
               env context, pluck context, ps1))"
| "generate ast (Zero_or_more x e) context ps =
     (case generate ast e \<lparr>sp = sp context + 1, env = env context, pluck = None, action = None\<rparr> ps of
        Inl err \<Rightarrow> Inl err
      | Inr (expressionCode, env1, pluck1, ps1) \<Rightarrow>
          Inr ([Some op_PUSH_EMPTY_ARRAY] @ expressionCode @ buildAppendLoop expressionCode @ [Some op_POP],
               env context, pluck context, ps1))"
| "generate ast (One_or_more x e) context ps =
     (case generate ast e \<lparr>sp = sp context + 1, env = env context, pluck = None, action = None\<rparr> ps of
        Inl err \<Rightarrow> Inl err
      | Inr (expressionCode, env1, pluck1, ps1) \<Rightarrow>
          Inr ([Some op_PUSH_EMPTY_ARRAY] @ expressionCode
                 @ buildCondition (match_or_sometimes (node_of e)) [Some op_IF_NOT_ERROR]
                     (buildAppendLoop expressionCode @ [Some op_POP])
                     [Some op_POP, Some op_POP, Some op_PUSH_FAILED],
               env context, pluck context, ps1))"
| "generate ast (Group x e) context ps =
     (case generate ast e \<lparr>sp = sp context, env = env context, pluck = None, action = None\<rparr> ps of
        Inl err \<Rightarrow> Inl err
      | Inr (c, env1, pluck1, ps1) \<Rightarrow> Inr (c, env context, pluck context, ps1))"
| "generate ast (Semantic_and x c cl) context ps =
     (case addFunctionConst True (map fst (env context)) (c, cl) ps of
        (functionIndex, ps1) \<Rightarrow>
          Inr ([Some op_UPDATE_SAVED_POS] @ buildCall (Some functionIndex) 0 (env context) (sp context)
                 @ buildCondition (match_or_sometimes x) [Some op_IF]
                     [Some op_POP, Some op_PUSH_UNDEFINED] [Some op_POP, Some op_PUSH_FAILED],
               env context, pluck context, ps1))"
| "generate ast (Semantic_not x c cl) context ps =
     (case addFunctionConst True (map fst (env context)) (c, cl) ps of
        (functionIndex, ps1) \<Rightarrow>
          Inr ([Some op_UPDATE_SAVED_POS] @ buildCall (Some functionIndex) 0 (env context) (sp context)
                 @ buildCondition (match_or_sometimes x) [Some op_IF]
                     [Some op_POP, Some op_PUSH_FAILED] [Some op_POP, Some op_PUSH_UNDEFINED],
               env context, pluck context, ps1))"
| "generate ast (Rule_ref x nm) context ps =
     Inr ([Some op_RULE, Some (indexOfRule ast nm)], env context, pluck context, ps)"
| "generate ast (Literal x v ignoreCase) context ps =
     (if length v > 0
      then
        (let m = match_or_sometimes x;
             needConst = (m = SOMETIMES \<or> (m = ALWAYS \<and> \<not> ignoreCase));
             (stringIndex, ps1) =
                (if needConst
                 then (case addLiteralConst (if ignoreCase then toLowerCase v else v) ps of
                         (i, ps') \<Rightarrow> (Some i, ps'))
                 else (None, ps));
             (expectedIndex, ps2) =
                (if m \<noteq> ALWAYS
                 then (case addExpectedConst (ExpectedConstLiteral v ignoreCase) ps1 of
                         (i, ps') \<Rightarrow> (Some i, ps'))
                 else (None, ps1))
         in Inr (buildCondition m
                   (if ignoreCase then [Some op_MATCH_STRING_IC, stringIndex]
                    else [Some op_MATCH_STRING, stringIndex])
                   (if ignoreCase then [Some op_ACCEPT_N, Some (int (length v))]
                    else [Some op_ACCEPT_STRING, stringIndex])
                   [Some op_FAIL, expectedIndex],
                 env context, pluck context, ps2))
      else Inr ([Some op_PUSH_EMPTY_STRING], env context, pluck context, ps))"
| "generate ast (Class x parts inverted ignoreCase) context ps =
     (let m = match_or_sometimes x;
          (classIndex, ps1) =
             (if m = SOMETIMES
              then (case addClassConst parts inverted ignoreCase ps of (i, ps') \<Rightarrow> (Some i, ps'))
              else (None, ps));
          (expectedIndex, ps2) =
             (if m \<noteq> ALWAYS
              then (case addExpectedConst (ExpectedConstClass parts inverted ignoreCase) ps1 of
                      (i, ps') \<Rightarrow> (Some i, ps'))
              else (None, ps1))
      in Inr (buildCondition m [Some op_MATCH_CHAR_CLASS, classIndex]
                [Some op_ACCEPT_N, Some 1] [Some op_FAIL, expectedIndex],
              env context, pluck context, ps2))"
| "generate ast (Any x) context ps =
     (let m = match_or_sometimes x;
          (expectedIndex, ps1) =
             (if m \<noteq> ALWAYS
              then (case addExpectedConst ExpectedConstAny ps of (i, ps') \<Rightarrow> (Some i, ps'))
              else (None, ps))
      in Inr (buildCondition m [Some op_MATCH_ANY]
                [Some op_ACCEPT_N, Some 1] [Some op_FAIL, expectedIndex],
              env context, pluck context, ps1))"
| "buildAlternativesCode ast [] context ps =
     Inl (TypeError ''Cannot read properties of undefined (reading 'match')'')"
| "buildAlternativesCode ast (a # alternatives) context ps =
     (let m = match_or_sometimes (node_of a)
      in case generate ast a \<lparr>sp = sp context, env = env context, pluck = None, action = None\<rparr> ps of
           Inl err \<Rightarrow> Inl err
         | Inr (first, env1, pluck1, ps1) \<Rightarrow>
             if m = ALWAYS then Inr (first, ps1)
             else if length (a # alternatives) > 1
             then (case buildAlternativesCode ast alternatives context ps1 of
                     Inl err \<Rightarrow> Inl err
                   | Inr (rest, ps2) \<Rightarrow>
                       Inr (first @ buildCondition SOMETIMES [Some op_IF_ERROR] ([Some op_POP] @ rest) [],
                            ps2))
             else Inr (first @ [], ps1))"
| "buildElementsCode ast n_elements [] context ps =
     (case sequence_tail n_elements context ps of
        (c, ps1) \<Rightarrow> Inr (c, env context, pluck context, ps1))"
| "buildElementsCode ast n_elements (e # elements) context ps =
     (let processedCount = int n_elements - int (length (e # elements)) + 1
      in case generate ast e
                \<lparr>sp = sp context, env = env context, pluck = pluck context, action = None\<rparr> ps of
           Inl err \<Rightarrow> Inl err
         | Inr (c, env1, pluck1, ps1) \<Rightarrow>
             (case buildElementsCode ast n_elements elements
                     \<lparr>sp = sp context + 1, env = env1, pluck = pluck1, action = action context\<rparr> ps1 of
                Inl err \<Rightarrow> Inl err
              | Inr (rest, env2, pluck2, ps2) \<Rightarrow>
                  Inr (c @ buildCondition (match_or_sometimes (node_of e)) [Some op_IF_NOT_ERROR]
                             rest
                             ((if processedCount > 1 then [Some op_POP_N, Some processedCount]
                               else [Some op_POP])
                                @ [Some op_POP_CURR_POS] @ [Some op_PUSH_FAILED]),
                       env2, pluck2, ps2)))"
text \<open>
  \<open>rule\<close> stores the code of the body, generated in a fresh context, in the rule's
  \<open>bytecode\<close>; \<open>grammar\<close> visits the rules in order and then stores the four pools.  An
  exception leaves the rules visited so far with their code.
\<close>

fun generate_rules :: "Grammar \<Rightarrow> Rule list \<Rightarrow> Pools \<Rightarrow> exn option \<times> Rule list \<times> Pools" where
  "generate_rules ast [] ps = (None, [], ps)"
| "generate_rules ast (r # rs) ps =
     (case generate ast (expression r) \<lparr>sp = -1, env = [], pluck = Some [], action = None\<rparr> ps of
        Inl err \<Rightarrow> (Some err, r # rs, ps)
      | Inr (c, env1, pluck1, ps1) \<Rightarrow>
          (case generate_rules ast rs ps1 of
             (err, rs', ps2) \<Rightarrow> (err, r\<lparr>bytecode := Some c\<rparr> # rs', ps2)))"

definition generateBytecode :: "Grammar \<Rightarrow> exn option \<times> Grammar" where
  "generateBytecode ast =
     (case generate_rules ast (rules ast)
             \<lparr>const_literals = [], const_classes = [], const_expectations = [], const_functions = []\<rparr> of
        (Some err, rs, ps) \<Rightarrow> (Some err, ast\<lparr>rules := rs\<rparr>)
      | (None, rs, ps) \<Rightarrow>
          (None, ast\<lparr>rules := rs, literals := Some (const_literals ps),
                      classes := Some (const_classes ps),
                      expectations := Some (const_expectations ps),
                      functionsPool := Some (const_functions ps)\<rparr>))"

section \<open>Well-formed bytecode\<close>

text \<open>
  The instructions by shape: without operand, with one operand, conditions whose two
  branch lengths follow the opcode, and conditions with one operand before the lengths.
\<close>

definition plain_ops :: "int list" where
  "plain_ops = [op_PUSH_EMPTY_STRING, op_PUSH_UNDEFINED, op_PUSH_NULL, op_PUSH_FAILED,
     op_PUSH_EMPTY_ARRAY, op_PUSH_CURR_POS, op_POP, op_POP_CURR_POS, op_NIP, op_APPEND, op_TEXT,
     op_UPDATE_SAVED_POS, op_SILENT_FAILS_ON, op_SILENT_FAILS_OFF]"

definition operand_ops :: "int list" where
  "operand_ops = [op_POP_N, op_WRAP, op_ACCEPT_N, op_ACCEPT_STRING, op_FAIL, op_LOAD_SAVED_POS]"

definition cond_ops :: "int list" where
  "cond_ops = [op_IF, op_IF_ERROR, op_IF_NOT_ERROR, op_MATCH_ANY]"

definition match_ops :: "int list" where
  "match_ops = [op_MATCH_STRING, op_MATCH_STRING_IC, op_MATCH_CHAR_CLASS]"

text \<open>
  A bytecode is well formed when it reads as a sequence of instructions in which every
  element is a number, the two lengths of a condition are the lengths of the two branches
  that follow it inline, the length of a loop is the length of the body that follows it
  inline, the branches and bodies are well formed themselves, the argument counts of \<open>PLUCK\<close>
  and \<open>CALL\<close> are the numbers of positions that follow, and the operand of every \<open>RULE\<close> satisfies
  \<open>ok\<close>.  With \<open>any_operand\<close> this is the structure of the lengths alone; with \<open>rule_index ast\<close> the
  operand of every \<open>RULE\<close> is, in addition, an index into \<open>ast.rules\<close>.
\<close>

inductive wf_code :: "(int \<Rightarrow> bool) \<Rightarrow> Bytecode \<Rightarrow> bool" for ok :: "int \<Rightarrow> bool" where
  wf_empty: "wf_code ok []"
| wf_plain: "opc \<in> set plain_ops \<Longrightarrow> wf_code ok rest \<Longrightarrow> wf_code ok (Some opc # rest)"
| wf_operand: "opc \<in> set operand_ops \<Longrightarrow> wf_code ok rest \<Longrightarrow> wf_code ok (Some opc # Some a # rest)"
| wf_rule: "ok r \<Longrightarrow> wf_code ok rest \<Longrightarrow> wf_code ok (Some op_RULE # Some r # rest)"
| wf_pluck: "wf_code ok rest \<Longrightarrow>
     wf_code ok (Some op_PLUCK # Some m # Some (int (length ps)) # map Some ps @ rest)"
| wf_call: "wf_code ok rest \<Longrightarrow>
     wf_code ok (Some op_CALL # Some f # Some d # Some (int (length ps)) # map Some ps @ rest)"
| wf_cond: "opc \<in> set cond_ops \<Longrightarrow> wf_code ok t \<Longrightarrow> wf_code ok e \<Longrightarrow> wf_code ok rest \<Longrightarrow>
     wf_code ok (Some opc # Some (int (length t)) # Some (int (length e)) # t @ e @ rest)"
| wf_match: "opc \<in> set match_ops \<Longrightarrow> wf_code ok t \<Longrightarrow> wf_code ok e \<Longrightarrow> wf_code ok rest \<Longrightarrow>
     wf_code ok (Some opc # Some s # Some (int (length t)) # Some (int (length e)) # t @ e @ rest)"
| wf_loop: "wf_code ok body \<Longrightarrow> wf_code ok rest \<Longrightarrow>
     wf_code ok (Some op_WHILE_NOT_ERROR # Some (int (length body)) # body @ rest)"

definition any_operand :: "int \<Rightarrow> bool" where
  "any_operand r = True"

definition rule_index :: "Grammar \<Rightarrow> int \<Rightarrow> bool" where
  "rule_index ast r \<longleftrightarrow> 0 \<le> r \<and> r < int (length (rules ast))"

text \<open>The names an expression refers to.\<close>

fun refs :: "expr \<Rightarrow> string set" where
  "refs (Named x nm e) = refs e"
| "refs (Choice x es) = \<Union> (set (map refs es))"
| "refs (Action x c cl e) = refs e"
| "refs (Sequence x es) = \<Union> (set (map refs es))"
| "refs (Labeled x p l ll e) = refs e"
| "refs (Text x e) = refs e"
| "refs (Simple_and x e) = refs e"
| "refs (Simple_not x e) = refs e"
| "refs (Optional x e) = refs e"
| "refs (Zero_or_more x e) = refs e"
| "refs (One_or_more x e) = refs e"
| "refs (Group x e) = refs e"
| "refs (Semantic_and x c cl) = {}"
| "refs (Semantic_not x c cl) = {}"
| "refs (Rule_ref x nm) = {nm}"
| "refs (Literal x v ic) = {}"
| "refs (Class x parts iv ic) = {}"
| "refs (Any x) = {}"

text \<open>Every \<open>rule_ref\<close> of an expression names a rule of the grammar.\<close>

fun refs_defined :: "Grammar \<Rightarrow> expr \<Rightarrow> bool" where
  "refs_defined ast (Named x nm e) = refs_defined ast e"
| "refs_defined ast (Choice x es) = list_all (refs_defined ast) es"
| "refs_defined ast (Action x c cl e) = refs_defined ast e"
| "refs_defined ast (Sequence x es) = list_all (refs_defined ast) es"
| "refs_defined ast (Labeled x p l ll e) = refs_defined ast e"
| "refs_defined ast (Text x e) = refs_defined ast e"
| "refs_defined ast (Simple_and x e) = refs_defined ast e"
| "refs_defined ast (Simple_not x e) = refs_defined ast e"
| "refs_defined ast (Optional x e) = refs_defined ast e"
| "refs_defined ast (Zero_or_more x e) = refs_defined ast e"
| "refs_defined ast (One_or_more x e) = refs_defined ast e"
| "refs_defined ast (Group x e) = refs_defined ast e"
| "refs_defined ast (Semantic_and x c cl) = True"
| "refs_defined ast (Semantic_not x c cl) = True"
| "refs_defined ast (Rule_ref x nm) = (findRule ast nm \<noteq> None)"
| "refs_defined ast (Literal x v ic) = True"
| "refs_defined ast (Class x ps iv ic) = True"
| "refs_defined ast (Any x) = True"

lemma wf_code_append: "wf_code ok a \<Longrightarrow> wf_code ok b \<Longrightarrow> wf_code ok (a @ b)"
proof (induction rule: wf_code.induct)
  case (wf_pluck rest m ps)
  then show ?case using wf_code.wf_pluck [of ok "rest @ b" m ps] by simp
next
  case (wf_call rest f d ps)
  then show ?case using wf_code.wf_call [of ok "rest @ b" f d ps] by simp
next
  case (wf_cond opc t e rest)
  then show ?case using wf_code.wf_cond [of opc ok t e "rest @ b"] by simp
next
  case (wf_match opc t e rest s)
  then show ?case using wf_code.wf_match [of opc ok t e "rest @ b" s] by simp
next
  case (wf_loop body rest)
  then show ?case using wf_code.wf_loop [of ok body "rest @ b"] by simp
qed (auto intro: wf_code.intros)

lemma wf_code_plain1: "opc \<in> set plain_ops \<Longrightarrow> wf_code ok [Some opc]"
  by (simp add: wf_code.intros)

lemma wf_code_plain_cons: "opc \<in> set plain_ops \<Longrightarrow> wf_code ok c \<Longrightarrow> wf_code ok (Some opc # c)"
  by (rule wf_plain)

lemma wf_code_operand1: "opc \<in> set operand_ops \<Longrightarrow> wf_code ok [Some opc, Some a]"
  by (simp add: wf_code.intros)

lemma plain_ops_mem:
  "op_PUSH_EMPTY_STRING \<in> set plain_ops" "op_PUSH_UNDEFINED \<in> set plain_ops"
  "op_PUSH_NULL \<in> set plain_ops" "op_PUSH_FAILED \<in> set plain_ops"
  "op_PUSH_EMPTY_ARRAY \<in> set plain_ops" "op_PUSH_CURR_POS \<in> set plain_ops"
  "op_POP \<in> set plain_ops" "op_POP_CURR_POS \<in> set plain_ops" "op_NIP \<in> set plain_ops"
  "op_APPEND \<in> set plain_ops" "op_TEXT \<in> set plain_ops" "op_UPDATE_SAVED_POS \<in> set plain_ops"
  "op_SILENT_FAILS_ON \<in> set plain_ops" "op_SILENT_FAILS_OFF \<in> set plain_ops"
  by (simp_all add: plain_ops_def)

lemma operand_ops_mem:
  "op_POP_N \<in> set operand_ops" "op_WRAP \<in> set operand_ops" "op_ACCEPT_N \<in> set operand_ops"
  "op_ACCEPT_STRING \<in> set operand_ops" "op_FAIL \<in> set operand_ops"
  "op_LOAD_SAVED_POS \<in> set operand_ops"
  by (simp_all add: operand_ops_def)

lemma cond_ops_mem:
  "op_IF \<in> set cond_ops" "op_IF_ERROR \<in> set cond_ops" "op_IF_NOT_ERROR \<in> set cond_ops"
  "op_MATCH_ANY \<in> set cond_ops"
  by (simp_all add: cond_ops_def)

lemma match_ops_mem:
  "op_MATCH_STRING \<in> set match_ops" "op_MATCH_STRING_IC \<in> set match_ops"
  "op_MATCH_CHAR_CLASS \<in> set match_ops"
  by (simp_all add: match_ops_def)

lemma wf_buildCondition:
  assumes "m \<noteq> NEVER \<Longrightarrow> wf_code ok t" and "m \<noteq> ALWAYS \<Longrightarrow> wf_code ok e"
    and "opc \<in> set cond_ops"
  shows "wf_code ok (buildCondition m [Some opc] t e)"
proof (cases m)
  case SOMETIMES
  then show ?thesis
    using assms wf_cond [of opc ok t e "[]"] by (simp add: buildCondition_def wf_empty)
qed (use assms in \<open>simp_all add: buildCondition_def\<close>)

lemma wf_buildCondition_match:
  assumes "m \<noteq> NEVER \<Longrightarrow> wf_code ok t" and "m \<noteq> ALWAYS \<Longrightarrow> wf_code ok e"
    and "opc \<in> set match_ops" and "m = SOMETIMES \<Longrightarrow> s \<noteq> None"
  shows "wf_code ok (buildCondition m [Some opc, s] t e)"
proof (cases m)
  case SOMETIMES
  with assms(4) obtain i where "s = Some i" by auto
  with SOMETIMES show ?thesis
    using assms wf_match [of opc ok t e "[]" i] by (simp add: buildCondition_def wf_empty)
qed (use assms in \<open>simp_all add: buildCondition_def\<close>)

lemma wf_buildCall: "wf_code ok (buildCall (Some f) d ev p)"
  using wf_call [of ok "[]" f d "map (\<lambda>(nm, pos). p - pos) ev"]
  by (simp add: buildCall_def wf_empty)

lemma wf_buildAppendLoop: "wf_code ok c \<Longrightarrow> wf_code ok (buildAppendLoop c)"
  using wf_loop [of ok "Some op_APPEND # c" "[]"]
  by (simp add: buildAppendLoop_def buildLoop_def wf_empty wf_plain plain_ops_mem)

lemma indexOfRule_from_bounds:
  "findRule_rules rs nm \<noteq> None \<Longrightarrow>
     i \<le> indexOfRule_from i rs nm \<and> indexOfRule_from i rs nm < i + int (length rs)"
proof (induction rs arbitrary: i)
  case Nil
  then show ?case by simp
next
  case (Cons r rs)
  show ?case
  proof (cases "name r = nm")
    case True
    then show ?thesis by simp
  next
    case False
    with Cons.prems have "findRule_rules rs nm \<noteq> None" by simp
    from Cons.IH [OF this, of "i + 1"] False show ?thesis by simp
  qed
qed

lemma indexOfRule_valid:
  "findRule ast nm \<noteq> None \<Longrightarrow> 0 \<le> indexOfRule ast nm \<and> indexOfRule ast nm < int (length (rules ast))"
  using indexOfRule_from_bounds [of "rules ast" nm 0] by (simp add: findRule_def indexOfRule_def)

lemma indexOfRule_from_missing: "findRule_rules rs nm = None \<Longrightarrow> indexOfRule_from i rs nm = -1"
  by (induction rs arbitrary: i) (auto split: if_splits)

lemma wf_sequence_tail:
  "sequence_tail k context ps = (c, ps') \<Longrightarrow> wf_code ok c"
proof -
  assume a: "sequence_tail k context ps = (c, ps')"
  show ?thesis
  proof (cases "case pluck context of None \<Rightarrow> [] | Some picked \<Rightarrow> picked")
    case Nil
    then show ?thesis
      using a wf_buildCall [of ok]
      by (auto simp: sequence_tail_def wf_code_append wf_code_operand1 operand_ops_mem
          wf_operand wf_plain wf_empty plain_ops_mem
          split: option.splits prod.splits)
  next
    case (Cons p picked)
    then show ?thesis
      using a wf_pluck [of ok "[]" "int k + 1" "map (\<lambda>eSP. sp context - eSP) (p # picked)"]
      by (simp add: sequence_tail_def wf_empty comp_def)
  qed
qed

lemmas wf_plain_ops = plain_ops_mem [THEN wf_plain]
lemmas wf_operand_ops = operand_ops_mem [THEN wf_operand]
lemmas wf_cond_ops = cond_ops_mem [THEN wf_buildCondition [rotated 2]]
lemmas wf_match_ops = match_ops_mem [THEN wf_buildCondition_match [rotated 2]]
lemmas wf_intros = wf_empty wf_plain_ops wf_operand_ops wf_code_append wf_cond_ops wf_match_ops
  wf_buildCall wf_buildAppendLoop

lemma wf_buildAlternativesCode:
  "\<forall>a \<in> set alts. \<forall>ctx ps c env' pl' ps'.
      generate ast a ctx ps = Inr (c, env', pl', ps') \<longrightarrow>
      (\<forall>nm \<in> refs a. ok (indexOfRule ast nm)) \<longrightarrow> wf_code ok c \<Longrightarrow>
   buildAlternativesCode ast alts ctx ps = Inr (c, ps') \<Longrightarrow>
   \<forall>a \<in> set alts. \<forall>nm \<in> refs a. ok (indexOfRule ast nm) \<Longrightarrow> wf_code ok c"
proof (induction alts arbitrary: ctx ps c ps')
  case Nil
  then show ?case by simp
next
  case (Cons a alts)
  from Cons.prems(2) obtain first env1 pluck1 ps1 where
    g: "generate ast a \<lparr>sp = sp ctx, env = env ctx, pluck = None, action = None\<rparr> ps
          = Inr (first, env1, pluck1, ps1)"
    by (auto simp: Let_def split: sum.splits)
  have "\<forall>ctx ps c env' pl' ps'.
      generate ast a ctx ps = Inr (c, env', pl', ps') \<longrightarrow> wf_code ok c"
    using Cons.prems(1,3) by simp
  with g have wf_first: "wf_code ok first" by blast
  show ?case
  proof (cases "match_or_sometimes (node_of a) = ALWAYS \<or> alts = []")
    case True
    with Cons.prems(2) g wf_first show ?thesis by (auto simp: Let_def split: if_splits)
  next
    case False
    with Cons.prems(2) g obtain rest where
      r: "buildAlternativesCode ast alts ctx ps1 = Inr (rest, ps')"
      and c: "c = first @ buildCondition SOMETIMES [Some op_IF_ERROR] ([Some op_POP] @ rest) []"
      by (auto simp: Let_def split: sum.splits)
    have "wf_code ok rest"
      using Cons.IH [OF _ r] Cons.prems(1,3) by simp
    then have "wf_code ok (buildCondition SOMETIMES [Some op_IF_ERROR] ([Some op_POP] @ rest) [])"
      by (auto intro!: wf_intros)
    with wf_first c show ?thesis by (simp add: wf_code_append)
  qed
qed

lemma wf_buildElementsCode:
  "\<forall>a \<in> set es. \<forall>ctx ps c env' pl' ps'.
      generate ast a ctx ps = Inr (c, env', pl', ps') \<longrightarrow>
      (\<forall>nm \<in> refs a. ok (indexOfRule ast nm)) \<longrightarrow> wf_code ok c \<Longrightarrow>
   buildElementsCode ast k es ctx ps = Inr (c, env', pl', ps') \<Longrightarrow>
   \<forall>a \<in> set es. \<forall>nm \<in> refs a. ok (indexOfRule ast nm) \<Longrightarrow> wf_code ok c"
proof (induction es arbitrary: ctx ps c env' pl' ps')
  case Nil
  then show ?case by (auto split: prod.splits dest: wf_sequence_tail)
next
  case (Cons e es)
  from Cons.prems(2) obtain c1 env1 pluck1 ps1 rest where
    g: "generate ast e \<lparr>sp = sp ctx, env = env ctx, pluck = pluck ctx, action = None\<rparr> ps
          = Inr (c1, env1, pluck1, ps1)"
    and r: "buildElementsCode ast k es
              \<lparr>sp = sp ctx + 1, env = env1, pluck = pluck1, action = action ctx\<rparr> ps1
          = Inr (rest, env', pl', ps')"
    and c: "c = c1 @ buildCondition (match_or_sometimes (node_of e)) [Some op_IF_NOT_ERROR] rest
              ((if int k - int (length (e # es)) + 1 > 1
                then [Some op_POP_N, Some (int k - int (length (e # es)) + 1)]
                else [Some op_POP]) @ [Some op_POP_CURR_POS] @ [Some op_PUSH_FAILED])"
    by (auto simp: Let_def split: sum.splits)
  have "\<forall>ctx ps c env' pl' ps'.
      generate ast e ctx ps = Inr (c, env', pl', ps') \<longrightarrow> wf_code ok c"
    using Cons.prems(1,3) by simp
  with g have wf1: "wf_code ok c1" by blast
  have wf2: "wf_code ok rest"
    using Cons.IH [OF _ r] Cons.prems(1,3) by simp
  have "wf_code ok (buildCondition (match_or_sometimes (node_of e)) [Some op_IF_NOT_ERROR] rest
              ((if int k - int (length (e # es)) + 1 > 1
                then [Some op_POP_N, Some (int k - int (length (e # es)) + 1)]
                else [Some op_POP]) @ [Some op_POP_CURR_POS] @ [Some op_PUSH_FAILED]))"
    using wf2 by (auto intro!: wf_intros)
  with wf1 c show ?case by (simp add: wf_code_append)
qed

text \<open>
  The code of a returning call of \<open>generate\<close> is well formed, for every \<open>ok\<close> that holds of the
  indices \<open>indexOfRule\<close> gives for the names the expression refers to.
\<close>

lemma wf_generate:
  "generate ast e ctx ps = Inr (c, env', pl', ps') \<Longrightarrow>
   \<forall>nm \<in> refs e. ok (indexOfRule ast nm) \<Longrightarrow> wf_code ok c"
proof (induction e arbitrary: ctx ps c env' pl' ps')
  case (Choice x es)
  have IH: "\<forall>a \<in> set es. \<forall>ctx ps c env' pl' ps'.
      generate ast a ctx ps = Inr (c, env', pl', ps') \<longrightarrow>
      (\<forall>nm \<in> refs a. ok (indexOfRule ast nm)) \<longrightarrow> wf_code ok c"
    using Choice.IH by blast
  from Choice.prems(1) obtain ps1 where b: "buildAlternativesCode ast es ctx ps = Inr (c, ps1)"
    by (simp split: sum.splits prod.splits)
  from Choice.prems(2) have "\<forall>a \<in> set es. \<forall>nm \<in> refs a. ok (indexOfRule ast nm)" by simp
  with IH b show ?case by (rule wf_buildAlternativesCode)
next
  case (Sequence x es)
  have IH: "\<forall>a \<in> set es. \<forall>ctx ps c env' pl' ps'.
      generate ast a ctx ps = Inr (c, env', pl', ps') \<longrightarrow>
      (\<forall>nm \<in> refs a. ok (indexOfRule ast nm)) \<longrightarrow> wf_code ok c"
    using Sequence.IH by blast
  from Sequence.prems(1) obtain c1 env1 pluck1 ps1 where
    b: "buildElementsCode ast (length es) es
          \<lparr>sp = sp ctx + 1, env = env ctx, pluck = Some [], action = action ctx\<rparr> ps
        = Inr (c1, env1, pluck1, ps1)"
    and c: "c = [Some op_PUSH_CURR_POS] @ c1"
    by (auto split: sum.splits prod.splits)
  from Sequence.prems(2) have "\<forall>a \<in> set es. \<forall>nm \<in> refs a. ok (indexOfRule ast nm)" by simp
  with IH b have "wf_code ok c1" by (rule wf_buildElementsCode)
  with c show ?case by (auto intro!: wf_intros)
next
  case (Rule_ref x nm)
  then show ?case
    by (auto intro!: wf_rule wf_empty)
next
  case (Literal x v ic)
  then show ?case
    by (cases "match_or_sometimes x"; cases ic)
       (auto simp: Let_def split: prod.splits if_splits intro!: wf_intros)
next
  case (Class x parts iv ic)
  then show ?case
    by (cases "match_or_sometimes x")
       (auto simp: Let_def split: prod.splits if_splits intro!: wf_intros)
next
  case (Any x)
  then show ?case
    by (cases "match_or_sometimes x")
       (auto simp: Let_def split: prod.splits if_splits intro!: wf_intros)
next
  case (Labeled x p l ll e)
  then show ?case
    by (auto simp: Let_def split: sum.splits prod.splits if_splits)
next
  case (Named x nm e)
  then show ?case
    by (auto simp: Let_def split: sum.splits prod.splits if_splits intro!: wf_intros)
next
  case (Action x c cl e)
  then show ?case
    by (auto simp: Let_def split: sum.splits prod.splits if_splits intro!: wf_intros)
next
  case (Text x e)
  then show ?case
    by (auto simp: Let_def split: sum.splits prod.splits if_splits intro!: wf_intros)
next
  case (Simple_and x e)
  then show ?case
    by (auto simp: Let_def split: sum.splits prod.splits if_splits intro!: wf_intros)
next
  case (Simple_not x e)
  then show ?case
    by (auto simp: Let_def split: sum.splits prod.splits if_splits intro!: wf_intros)
next
  case (Optional x e)
  then show ?case
    by (auto simp: Let_def split: sum.splits prod.splits if_splits intro!: wf_intros)
next
  case (Zero_or_more x e)
  then show ?case
    by (auto simp: Let_def split: sum.splits prod.splits if_splits intro!: wf_intros)
next
  case (One_or_more x e)
  then show ?case
    by (auto simp: Let_def split: sum.splits prod.splits if_splits intro!: wf_intros)
next
  case (Group x e)
  then show ?case
    by (auto simp: Let_def split: sum.splits prod.splits if_splits intro!: wf_intros)
next
  case (Semantic_and x c cl)
  then show ?case
    by (auto simp: Let_def split: sum.splits prod.splits if_splits intro!: wf_intros)
next
  case (Semantic_not x c cl)
  then show ?case
    by (auto simp: Let_def split: sum.splits prod.splits if_splits intro!: wf_intros)
qed

lemma refs_defined_refs: "refs_defined ast e \<Longrightarrow> \<forall>nm \<in> refs e. findRule ast nm \<noteq> None"
  by (induction e) (auto simp: list_all_iff)

lemma wf_generate_lengths:
  "generate ast e ctx ps = Inr (c, env', pl', ps') \<Longrightarrow> wf_code any_operand c"
  by (erule wf_generate) (simp add: any_operand_def)

lemma wf_generate_rule_index:
  "generate ast e ctx ps = Inr (c, env', pl', ps') \<Longrightarrow> refs_defined ast e \<Longrightarrow>
     wf_code (rule_index ast) c"
proof -
  assume g: "generate ast e ctx ps = Inr (c, env', pl', ps')" and d: "refs_defined ast e"
  have "\<forall>nm \<in> refs e. rule_index ast (indexOfRule ast nm)"
    using refs_defined_refs [OF d] indexOfRule_valid [of ast] by (auto simp: rule_index_def)
  with g show ?thesis by (rule wf_generate)
qed

text \<open>
  What the \<open>rule\<close> handler leaves of a rule: the rule with a bytecode stored in it, well formed
  in its lengths, and with every \<open>RULE\<close> operand an index into the rules when every \<open>rule_ref\<close> of
  the rule names a rule.
\<close>

definition stores :: "Grammar \<Rightarrow> Rule \<Rightarrow> Rule \<Rightarrow> bool" where
  "stores ast r r' =
     (case bytecode r' of
        None \<Rightarrow> False
      | Some bc \<Rightarrow>
          r' = r\<lparr>bytecode := Some bc\<rparr> \<and> wf_code any_operand bc \<and>
          (refs_defined ast (expression r) \<longrightarrow> wf_code (rule_index ast) bc))"

lemma wf_generate_rules:
  "generate_rules ast rs ps = (ex, rs', ps') \<Longrightarrow>
   list_all2 (\<lambda>r r'. r' = r \<or> stores ast r r') rs rs' \<and>
   (ex = None \<longrightarrow> list_all2 (stores ast) rs rs')"
proof (induction rs arbitrary: ps rs')
  case Nil
  then show ?case by simp
next
  case (Cons r rs)
  show ?case
  proof (cases "generate ast (expression r) \<lparr>sp = -1, env = [], pluck = Some [], action = None\<rparr> ps")
    case (Inl err)
    with Cons.prems have "rs' = r # rs" "ex = Some err" by auto
    then show ?thesis by (simp add: list_all2_conv_all_nth)
  next
    case (Inr res)
    then obtain c env1 pluck1 ps1 where
      g: "generate ast (expression r) \<lparr>sp = -1, env = [], pluck = Some [], action = None\<rparr> ps
            = Inr (c, env1, pluck1, ps1)"
      by (cases res) auto
    with Cons.prems obtain rs1 where
      r: "generate_rules ast rs ps1 = (ex, rs1, ps')"
      and rs': "rs' = r\<lparr>bytecode := Some c\<rparr> # rs1"
      by (auto split: prod.splits)
    have "stores ast r (r\<lparr>bytecode := Some c\<rparr>)"
      using wf_generate_lengths [OF g] wf_generate_rule_index [OF g] by (simp add: stores_def)
    with Cons.IH [OF r] rs' show ?thesis by simp
  qed
qed

text \<open>
  Claim C5, as the code has it.  \<open>indexOfRule\<close> answers \<open>-1\<close> for a name that no rule has, and
  \<open>rule_ref\<close> emits what it answers: for the grammar \<open>start = X\<close> the pass returns normally with
  the code \<open>RULE -1\<close>, whose operand is no index into the rules.
\<close>

theorem generateBytecode_undefined_rule_counterexample:
  "fst (generateBytecode (mk_grammar [mk_rule ''start'' (Rule_ref node0 ''X'')])) = None \<and>
   map bytecode (rules (snd (generateBytecode (mk_grammar [mk_rule ''start'' (Rule_ref node0 ''X'')]))))
     = [Some [Some op_RULE, Some (- 1)]] \<and>
   \<not> wf_code (rule_index (mk_grammar [mk_rule ''start'' (Rule_ref node0 ''X'')]))
       [Some op_RULE, Some (- 1)]"
proof -
  have "\<not> wf_code (rule_index ast) [Some op_RULE, Some (- 1)]" for ast
    by (auto elim!: wf_code.cases
        simp: rule_index_def plain_ops_def operand_ops_def cond_ops_def match_ops_def op_RULE_def
          op_PUSH_EMPTY_STRING_def op_PUSH_UNDEFINED_def op_PUSH_NULL_def op_PUSH_FAILED_def
          op_PUSH_EMPTY_ARRAY_def op_PUSH_CURR_POS_def op_POP_def op_POP_CURR_POS_def op_NIP_def
          op_APPEND_def op_TEXT_def op_UPDATE_SAVED_POS_def op_SILENT_FAILS_ON_def
          op_SILENT_FAILS_OFF_def op_POP_N_def op_WRAP_def op_ACCEPT_N_def op_ACCEPT_STRING_def
          op_FAIL_def op_LOAD_SAVED_POS_def op_PLUCK_def op_CALL_def op_IF_def op_IF_ERROR_def
          op_IF_NOT_ERROR_def op_MATCH_ANY_def op_MATCH_STRING_def op_MATCH_STRING_IC_def
          op_MATCH_CHAR_CLASS_def op_WHILE_NOT_ERROR_def)
  then show ?thesis
    by (simp add: generateBytecode_def mk_grammar_def mk_rule_def indexOfRule_def)
qed

text \<open>
  Claim C5, amended.  \<open>buildCondition\<close> with match \<open>SOMETIMES\<close> emits the condition code, the
  lengths of the then-code and of the else-code, and the two codes inline; with \<open>ALWAYS\<close> it
  gives the then-code alone and with \<open>NEVER\<close> the else-code alone.  \<open>buildLoop\<close> emits the
  condition code, the length of the body and the body inline.  For every grammar, the code
  of every call of \<open>generate\<close> that returns reads as a sequence of instructions in which the
  lengths after each condition and each loop are the lengths of the branches and of the body
  that follow; when every \<open>rule_ref\<close> of the expression names a rule of the grammar, every
  \<open>RULE\<close> operand in it is an index into \<open>grammar.rules\<close>.  The pass leaves every rule either as it
  was or with such a code stored in it, the first only when it throws, and it changes
  nothing else of a rule.
\<close>

theorem generateBytecode_well_formed:
  "buildCondition SOMETIMES condCode thenCode elseCode
     = condCode @ [Some (int (length thenCode)), Some (int (length elseCode))] @ thenCode @ elseCode \<and>
   buildCondition ALWAYS condCode thenCode elseCode = thenCode \<and>
   buildCondition NEVER condCode thenCode elseCode = elseCode \<and>
   buildLoop condCode bodyCode = condCode @ [Some (int (length bodyCode))] @ bodyCode \<and>
   (generate ast e ctx ps = Inr (c, env', pl', ps') \<longrightarrow>
      wf_code any_operand c \<and> (refs_defined ast e \<longrightarrow> wf_code (rule_index ast) c)) \<and>
   (generateBytecode ast = (ex, ast') \<longrightarrow>
      list_all2 (\<lambda>r r'. r' = r \<or> stores ast r r') (rules ast) (rules ast') \<and>
      (ex = None \<longrightarrow> list_all2 (stores ast) (rules ast) (rules ast')))"
proof -
  have gen: "generate ast e ctx ps = Inr (c, env', pl', ps') \<longrightarrow>
      wf_code any_operand c \<and> (refs_defined ast e \<longrightarrow> wf_code (rule_index ast) c)"
    using wf_generate_lengths [of ast e ctx ps c env' pl' ps']
      wf_generate_rule_index [of ast e ctx ps c env' pl' ps'] by blast
  have "list_all2 (\<lambda>r r'. r' = r \<or> stores ast r r') (rules ast) (rules ast') \<and>
      (ex = None \<longrightarrow> list_all2 (stores ast) (rules ast) (rules ast'))"
    if g: "generateBytecode ast = (ex, ast')"
  proof -
    obtain ex1 rs ps1 where
      r: "generate_rules ast (rules ast)
            \<lparr>const_literals = [], const_classes = [], const_expectations = [], const_functions = []\<rparr>
          = (ex1, rs, ps1)"
      by (metis prod_cases3)
    with g have a: "rules ast' = rs" "ex = ex1"
      by (auto simp: generateBytecode_def split: option.splits)
    from wf_generate_rules [OF r] a show ?thesis by simp
  qed
  then have main: "generateBytecode ast = (ex, ast') \<longrightarrow>
      list_all2 (\<lambda>r r'. r' = r \<or> stores ast r r') (rules ast) (rules ast') \<and>
      (ex = None \<longrightarrow> list_all2 (stores ast) (rules ast) (rules ast'))"
    by blast
  have b1: "buildCondition SOMETIMES condCode thenCode elseCode
     = condCode @ [Some (int (length thenCode)), Some (int (length elseCode))] @ thenCode @ elseCode"
    by (simp add: buildCondition_def)
  have b2: "buildCondition ALWAYS condCode thenCode elseCode = thenCode"
    by (simp add: buildCondition_def)
  have b3: "buildCondition NEVER condCode thenCode elseCode = elseCode"
    by (simp add: buildCondition_def)
  have b4: "buildLoop condCode bodyCode = condCode @ [Some (int (length bodyCode))] @ bodyCode"
    by (simp add: buildLoop_def)
  show ?thesis by (intro conjI b1 b2 b3 b4 gen main)
qed

text \<open>
  The amended claim at work on the grammar \<open>start = "a" b*\<close>, \<open>b = . / ""\<close>: both references
  are defined, the pass returns normally, and the two bytecodes it stores are well formed,
  with every \<open>RULE\<close> operand an index into the two rules.
\<close>

theorem generateBytecode_well_formed_witness:
  "fst (generateBytecode (mk_grammar
     [mk_rule ''start'' (Sequence node0 [Literal node0 ''a'' False, Zero_or_more node0 (Rule_ref node0 ''b'')]),
      mk_rule ''b'' (Choice node0 [Any node0, Literal node0 '''' False])])) = None \<and>
   refs_defined (mk_grammar
     [mk_rule ''start'' (Sequence node0 [Literal node0 ''a'' False, Zero_or_more node0 (Rule_ref node0 ''b'')]),
      mk_rule ''b'' (Choice node0 [Any node0, Literal node0 '''' False])])
     (Sequence node0 [Literal node0 ''a'' False, Zero_or_more node0 (Rule_ref node0 ''b'')]) \<and>
   refs_defined (mk_grammar
     [mk_rule ''start'' (Sequence node0 [Literal node0 ''a'' False, Zero_or_more node0 (Rule_ref node0 ''b'')]),
      mk_rule ''b'' (Choice node0 [Any node0, Literal node0 '''' False])])
     (Choice node0 [Any node0, Literal node0 '''' False]) \<and>
   wf_code (rule_index (mk_grammar
     [mk_rule ''start'' (Sequence node0 [Literal node0 ''a'' False, Zero_or_more node0 (Rule_ref node0 ''b'')]),
      mk_rule ''b'' (Choice node0 [Any node0, Literal node0 '''' False])]))
     [Some op_PUSH_CURR_POS, Some op_MATCH_STRING, Some 0, Some 2, Some 2,
      Some op_ACCEPT_STRING, Some 0, Some op_FAIL, Some 0,
      Some op_IF_NOT_ERROR, Some 19, Some 3,
      Some op_PUSH_EMPTY_ARRAY, Some op_RULE, Some 1,
      Some op_WHILE_NOT_ERROR, Some 3, Some op_APPEND, Some op_RULE, Some 1, Some op_POP,
      Some op_IF_NOT_ERROR, Some 3, Some 4,
      Some op_WRAP, Some 2, Some op_NIP,
      Some op_POP_N, Some 2, Some op_POP_CURR_POS, Some op_PUSH_FAILED,
      Some op_POP, Some op_POP_CURR_POS, Some op_PUSH_FAILED] \<and>
   wf_code (rule_index (mk_grammar
     [mk_rule ''start'' (Sequence node0 [Literal node0 ''a'' False, Zero_or_more node0 (Rule_ref node0 ''b'')]),
      mk_rule ''b'' (Choice node0 [Any node0, Literal node0 '''' False])]))
     [Some op_MATCH_ANY, Some 2, Some 2, Some op_ACCEPT_N, Some 1, Some op_FAIL, Some 1,
      Some op_IF_ERROR, Some 2, Some 0, Some op_POP, Some op_PUSH_EMPTY_STRING] \<and>
   wf_code any_operand [Some op_RULE, Some (- 1)]"
  using generateBytecode_well_formed [of _ _ _ _
      "mk_grammar
        [mk_rule ''start'' (Sequence node0 [Literal node0 ''a'' False, Zero_or_more node0 (Rule_ref node0 ''b'')]),
         mk_rule ''b'' (Choice node0 [Any node0, Literal node0 '''' False])]"
      "Rule_ref node0 ''X''"
      "\<lparr>sp = -1, env = [], pluck = Some [], action = None\<rparr>"
      "\<lparr>const_literals = [], const_classes = [], const_expectations = [], const_functions = []\<rparr>"
      "[Some op_RULE, Some (- 1)]" "[]" "Some []"
      "\<lparr>const_literals = [], const_classes = [], const_expectations = [], const_functions = []\<rparr>"
      None
      "snd (generateBytecode (mk_grammar
        [mk_rule ''start'' (Sequence node0 [Literal node0 ''a'' False, Zero_or_more node0 (Rule_ref node0 ''b'')]),
         mk_rule ''b'' (Choice node0 [Any node0, Literal node0 '''' False])]))"]
  by (simp add: generateBytecode_def mk_grammar_def mk_rule_def node0_def match_or_sometimes_def
      addLiteralConst_def addExpectedConst_def addConst_def buildCondition_def sequence_tail_def
      buildAppendLoop_def buildLoop_def Let_def indexOfRule_def findRule_def stores_def)

section \<open>Labels in the generator\<close>

lemma map_of_env_replace:
  "map_of (env_replace k v ev) k' =
     (if k' = k then map_option (\<lambda>old. v) (map_of ev k) else map_of ev k')"
  by (induction ev) auto

lemma map_of_env_insert_index:
  "k \<notin> set (map fst ev) \<Longrightarrow>
     map_of (env_insert_index k v ev) k' = (if k' = k then Some v else map_of ev k')"
  by (induction ev) auto

lemma map_of_env_set:
  "map_of (env_set k v ev) k' =
     (if k' = k \<and> k \<noteq> ''__proto__'' then Some v else map_of ev k')"
proof (cases "k = ''__proto__''")
  case True
  then show ?thesis by (simp add: env_set_def)
next
  case False
  show ?thesis
  proof (cases "k \<in> set (map fst ev)")
    case True
    then have "map_of ev k \<noteq> None" by (simp add: map_of_eq_None_iff)
    with True False show ?thesis by (auto simp: env_set_def map_of_env_replace)
  next
    case notin: False
    then have none: "map_of ev k = None" by (simp add: map_of_eq_None_iff)
    show ?thesis
    proof (cases "is_array_index k")
      case True
      with False notin show ?thesis by (simp add: env_set_def map_of_env_insert_index)
    next
      case noidx: False
      have "map_of (ev @ [(k, v)]) k' = (if k' = k then Some v else map_of ev k')"
        using none by (simp add: map_add_def split: option.splits)
      with False notin noidx show ?thesis by (simp add: env_set_def)
    qed
  qed
qed

text \<open>
  Claim C10, as the code has it.  The handler tests \<open>if (label)\<close>, and the empty string is
  falsy: a label that is not \<open>null\<close> but empty adds no binding.  The label \<open>__proto__\<close> adds none
  either: the assignment \<open>context.env['__proto__'] = sp\<close> makes no key.  And a name that the
  environment binds already is visible inside the expression of a node that binds it again:
  in \<open>a:. a:&{c}\<close> the predicate is compiled with the parameter \<open>a\<close>.
\<close>

theorem generate_labeled_counterexample:
  "generate (mk_grammar []) (Labeled node0 False (Some '''') loc0 (Any node0))
     \<lparr>sp = 0, env = [], pluck = Some [], action = None\<rparr>
     \<lparr>const_literals = [], const_classes = [], const_expectations = [], const_functions = []\<rparr>
   = Inr ([Some op_MATCH_ANY, Some 2, Some 2, Some op_ACCEPT_N, Some 1, Some op_FAIL, Some 0],
          [], Some [],
          \<lparr>const_literals = [], const_classes = [], const_expectations = [ExpectedConstAny],
           const_functions = []\<rparr>) \<and>
   generate (mk_grammar []) (Labeled node0 False (Some ''__proto__'') loc0 (Any node0))
     \<lparr>sp = 0, env = [], pluck = Some [], action = None\<rparr>
     \<lparr>const_literals = [], const_classes = [], const_expectations = [], const_functions = []\<rparr>
   = Inr ([Some op_MATCH_ANY, Some 2, Some 2, Some op_ACCEPT_N, Some 1, Some op_FAIL, Some 0],
          [], Some [],
          \<lparr>const_literals = [], const_classes = [], const_expectations = [ExpectedConstAny],
           const_functions = []\<rparr>) \<and>
   map_sum id (\<lambda>(c, ev, picked, ps). (ev, const_functions ps))
     (generate (mk_grammar [])
        (Sequence node0 [Labeled node0 False (Some ''a'') loc0 (Any node0),
                         Labeled node0 False (Some ''a'') loc0 (Semantic_and node0 ''c'' loc0)])
        \<lparr>sp = -1, env = [], pluck = Some [], action = None\<rparr>
        \<lparr>const_literals = [], const_classes = [], const_expectations = [], const_functions = []\<rparr>)
   = Inr ([(''a'', 2)], [FunctionDesc True [''a''] ''c'' loc0])"
  by (simp add: node0_def match_or_sometimes_def addExpectedConst_def addFunctionConst_def
      addConst_def buildCondition_def buildCall_def sequence_tail_def env_set_def Let_def)

text \<open>
  Claim C10, amended: for a labeled node whose label is neither \<open>null\<close>, nor empty, nor
  \<open>__proto__\<close>.  Unless the node is picked in a context without \<open>pluck\<close> (then the handler throws),
  the code is the code of the sub-expression generated at the same stack pointer, in the
  environment as it was before the binding was added, with no \<open>pluck\<close> and no enclosing
  action; the environment handed back to the enclosing context is the old one with the
  label bound to \<open>sp + 1\<close>: the label maps to \<open>sp + 1\<close> and every other name maps to what it
  did.  The binding that the node adds is not visible inside its own expression: the code,
  the picked positions and the pools are those of the same node without a label (a binding
  of the name made before stays visible there, with its old position).  In a sequence, the
  elements after the labeled one are generated in the environment with the binding.
\<close>

theorem generate_labeled:
  "l \<noteq> '''' \<and> l \<noteq> ''__proto__'' \<longrightarrow>
     generate ast (Labeled x pick (Some l) ll e) ctx ps =
       (if pick \<and> pluck ctx = None then Inl (Error ''Impossible'')
        else case generate ast e \<lparr>sp = sp ctx, env = env ctx, pluck = None, action = None\<rparr> ps of
               Inl err \<Rightarrow> Inl err
             | Inr (c, env', pluck', ps') \<Rightarrow>
                 Inr (c, env_set l (sp ctx + 1) (env ctx),
                      if pick then map_option (\<lambda>picked. picked @ [sp ctx + 1]) (pluck ctx) else pluck ctx,
                      ps')) \<and>
     map_of (env_set l (sp ctx + 1) (env ctx)) l = Some (sp ctx + 1) \<and>
     (\<forall>k. k \<noteq> l \<longrightarrow> map_of (env_set l (sp ctx + 1) (env ctx)) k = map_of (env ctx) k) \<and>
     map_sum id (\<lambda>(c, ev, picked, ps'). (c, picked, ps'))
       (generate ast (Labeled x pick (Some l) ll e) ctx ps)
     = map_sum id (\<lambda>(c, ev, picked, ps'). (c, picked, ps'))
       (generate ast (Labeled x pick None ll e) ctx ps) \<and>
     (\<forall>c1 env1 pluck1 ps1.
        generate ast (Labeled x pick (Some l) ll e)
          \<lparr>sp = sp ctx, env = env ctx, pluck = pluck ctx, action = None\<rparr> ps = Inr (c1, env1, pluck1, ps1) \<longrightarrow>
        env1 = env_set l (sp ctx + 1) (env ctx) \<and>
        buildElementsCode ast n (Labeled x pick (Some l) ll e # elements) ctx ps =
          (case buildElementsCode ast n elements
                  \<lparr>sp = sp ctx + 1, env = env_set l (sp ctx + 1) (env ctx), pluck = pluck1,
                   action = action ctx\<rparr> ps1 of
             Inl err \<Rightarrow> Inl err
           | Inr (rest, env2, pluck2, ps2) \<Rightarrow>
               Inr (c1 @ buildCondition (match_or_sometimes x) [Some op_IF_NOT_ERROR] rest
                      ((if int n - int (length (Labeled x pick (Some l) ll e # elements)) + 1 > 1
                        then [Some op_POP_N,
                              Some (int n - int (length (Labeled x pick (Some l) ll e # elements)) + 1)]
                        else [Some op_POP]) @ [Some op_POP_CURR_POS] @ [Some op_PUSH_FAILED]),
                    env2, pluck2, ps2)))"
proof (intro impI conjI allI)
  assume ll: "l \<noteq> '''' \<and> l \<noteq> ''__proto__''"
  then have l: "l \<noteq> ''''" and p: "l \<noteq> ''__proto__''" by simp_all
  show g: "generate ast (Labeled x pick (Some l) ll e) ctx ps =
       (if pick \<and> pluck ctx = None then Inl (Error ''Impossible'')
        else case generate ast e \<lparr>sp = sp ctx, env = env ctx, pluck = None, action = None\<rparr> ps of
               Inl err \<Rightarrow> Inl err
             | Inr (c, env', pluck', ps') \<Rightarrow>
                 Inr (c, env_set l (sp ctx + 1) (env ctx),
                      if pick then map_option (\<lambda>picked. picked @ [sp ctx + 1]) (pluck ctx) else pluck ctx,
                      ps'))" for ctx
    using l by (simp add: Let_def split: sum.splits prod.splits)
  show "map_of (env_set l (sp ctx + 1) (env ctx)) l = Some (sp ctx + 1)"
    using p by (simp add: map_of_env_set)
  show "map_of (env_set l (sp ctx + 1) (env ctx)) k = map_of (env ctx) k" if "k \<noteq> l" for k
    using that by (simp add: map_of_env_set)
  show "map_sum id (\<lambda>(c, ev, picked, ps'). (c, picked, ps'))
       (generate ast (Labeled x pick (Some l) ll e) ctx ps)
     = map_sum id (\<lambda>(c, ev, picked, ps'). (c, picked, ps'))
       (generate ast (Labeled x pick None ll e) ctx ps)"
    unfolding g by (simp add: Let_def split: sum.splits prod.splits)
  fix c1 env1 pluck1 ps1
  assume a: "generate ast (Labeled x pick (Some l) ll e)
          \<lparr>sp = sp ctx, env = env ctx, pluck = pluck ctx, action = None\<rparr> ps = Inr (c1, env1, pluck1, ps1)"
  from a show e1: "env1 = env_set l (sp ctx + 1) (env ctx)"
    unfolding g by (auto split: if_splits sum.splits prod.splits)
  show "buildElementsCode ast n (Labeled x pick (Some l) ll e # elements) ctx ps =
          (case buildElementsCode ast n elements
                  \<lparr>sp = sp ctx + 1, env = env_set l (sp ctx + 1) (env ctx), pluck = pluck1,
                   action = action ctx\<rparr> ps1 of
             Inl err \<Rightarrow> Inl err
           | Inr (rest, env2, pluck2, ps2) \<Rightarrow>
               Inr (c1 @ buildCondition (match_or_sometimes x) [Some op_IF_NOT_ERROR] rest
                      ((if int n - int (length (Labeled x pick (Some l) ll e # elements)) + 1 > 1
                        then [Some op_POP_N,
                              Some (int n - int (length (Labeled x pick (Some l) ll e # elements)) + 1)]
                        else [Some op_POP]) @ [Some op_POP_CURR_POS] @ [Some op_PUSH_FAILED]),
                    env2, pluck2, ps2))"
    unfolding buildElementsCode.simps a e1 [symmetric]
    by (simp add: Let_def split: sum.splits prod.splits)
qed

text \<open>
  The amended claim at work: in the sequence \<open>a:. b:.\<close> at stack pointer \<open>0\<close>, compiled under an
  action, the call of the action function passes both labels (\<open>a\<close> at position \<open>1\<close>, \<open>b\<close> at
  position \<open>2\<close>), and the environment handed back binds them.
\<close>

theorem generate_labeled_witness:
  "''a'' \<noteq> '''' \<and> ''a'' \<noteq> ''__proto__'' \<and>
   generate (mk_grammar []) (Labeled node0 False (Some ''a'') loc0 (Any node0))
     \<lparr>sp = 0, env = [], pluck = Some [], action = None\<rparr>
     \<lparr>const_literals = [], const_classes = [], const_expectations = [], const_functions = []\<rparr>
   = Inr ([Some op_MATCH_ANY, Some 2, Some 2, Some op_ACCEPT_N, Some 1, Some op_FAIL, Some 0],
          [(''a'', 1)], Some [],
          \<lparr>const_literals = [], const_classes = [], const_expectations = [ExpectedConstAny],
           const_functions = []\<rparr>) \<and>
   map_sum id (fst \<circ> snd)
     (buildElementsCode (mk_grammar []) 2
        [Labeled node0 False (Some ''a'') loc0 (Any node0), Labeled node0 False (Some ''b'') loc0 (Any node0)]
        \<lparr>sp = 0, env = [], pluck = Some [], action = Some (''code'', loc0)\<rparr>
        \<lparr>const_literals = [], const_classes = [], const_expectations = [], const_functions = []\<rparr>)
   = Inr [(''a'', 1), (''b'', 2)]"
  using generate_labeled [of "''a''" "mk_grammar []" node0 False loc0 "Any node0"
      "\<lparr>sp = 0, env = [], pluck = Some [], action = Some (''code'', loc0)\<rparr>"
      "\<lparr>const_literals = [], const_classes = [], const_expectations = [], const_functions = []\<rparr>"
      2 "[Labeled node0 False (Some ''b'') loc0 (Any node0)]"]
  by (simp add: node0_def match_or_sometimes_def addExpectedConst_def addFunctionConst_def addConst_def
      buildCondition_def sequence_tail_def Let_def env_set_def is_array_index_def)

section \<open>Match-result inference (\<open>inferenceMatchResult\<close>)\<close>

definition set_match :: "MatchResult \<Rightarrow> Expr \<Rightarrow> Expr" where
  "set_match m x = Expr (location x) (Some m)"

text \<open>
  The visitor mutates the nodes it is called on.  A rule is reached through \<open>findRule\<close>, which
  gives the first rule of that name: \<open>update_rule\<close> writes to that rule.
\<close>

fun update_rule_rules :: "string \<Rightarrow> (Rule \<Rightarrow> Rule) \<Rightarrow> Rule list \<Rightarrow> Rule list" where
  "update_rule_rules nm f [] = []"
| "update_rule_rules nm f (r # rs) = (if name r = nm then f r # rs else r # update_rule_rules nm f rs)"

definition update_rule :: "string \<Rightarrow> (Rule \<Rightarrow> Rule) \<Rightarrow> Grammar \<Rightarrow> Grammar" where
  "update_rule nm f ast = ast\<lparr>rules := update_rule_rules nm f (rules ast)\<rparr>"

text \<open>The result of \<open>inferenceElements\<close> from the two counters and the number of elements.\<close>

definition elements_result :: "nat \<Rightarrow> nat \<Rightarrow> nat \<Rightarrow> bool \<Rightarrow> MatchResult" where
  "elements_result always never len forChoice =
     (if always = len then ALWAYS
      else if forChoice then (if never = len then NEVER else SOMETIMES)
      else (if never > 0 then NEVER else SOMETIMES))"

text \<open>
  \<open>inference\<close> returns the result, the node as it is left (with its \<open>match\<close> and those of its
  descendants), and the grammar as the rules visited on the way are left.  A rule whose
  \<open>match\<close> is still \<open>undefined\<close> is entered through \<open>rule_loop\<close>, the \<open>do ... while\<close> of the \<open>rule\<close>
  handler; the first argument bounds the depth of rules entered within rules, and \<open>None\<close> says
  that the bound was reached.  \<open>elements_loop\<close> is the \<open>for\<close> loop of \<open>inferenceElements\<close> with its
  two counters.
\<close>

function (sequential)
  inference :: "nat \<Rightarrow> Grammar \<Rightarrow> expr \<Rightarrow> (exn + (MatchResult \<times> expr \<times> Grammar)) option"
  and elements_loop ::
    "nat \<Rightarrow> Grammar \<Rightarrow> expr list \<Rightarrow> (exn + (nat \<times> nat \<times> expr list \<times> Grammar)) option"
  and rule_loop :: "nat \<Rightarrow> Grammar \<Rightarrow> string \<Rightarrow> nat \<Rightarrow> (exn + (MatchResult \<times> Grammar)) option"
where
  "inference n ast (Named x nm e) =
     (case inference n ast e of
        None \<Rightarrow> None
      | Some (Inl err) \<Rightarrow> Some (Inl err)
      | Some (Inr (m, e', ast')) \<Rightarrow> Some (Inr (m, Named (set_match m x) nm e', ast')))"
| "inference n ast (Choice x alternatives) =
     (case elements_loop n ast alternatives of
        None \<Rightarrow> None
      | Some (Inl err) \<Rightarrow> Some (Inl err)
      | Some (Inr (always, never, es', ast')) \<Rightarrow>
          (let m = elements_result always never (length alternatives) True
           in Some (Inr (m, Choice (set_match m x) es', ast'))))"
| "inference n ast (Action x c cl e) =
     (case inference n ast e of
        None \<Rightarrow> None
      | Some (Inl err) \<Rightarrow> Some (Inl err)
      | Some (Inr (m, e', ast')) \<Rightarrow> Some (Inr (m, Action (set_match m x) c cl e', ast')))"
| "inference n ast (Sequence x elements) =
     (case elements_loop n ast elements of
        None \<Rightarrow> None
      | Some (Inl err) \<Rightarrow> Some (Inl err)
      | Some (Inr (always, never, es', ast')) \<Rightarrow>
          (let m = elements_result always never (length elements) False
           in Some (Inr (m, Sequence (set_match m x) es', ast'))))"
| "inference n ast (Labeled x p l ll e) =
     (case inference n ast e of
        None \<Rightarrow> None
      | Some (Inl err) \<Rightarrow> Some (Inl err)
      | Some (Inr (m, e', ast')) \<Rightarrow> Some (Inr (m, Labeled (set_match m x) p l ll e', ast')))"
| "inference n ast (Text x e) =
     (case inference n ast e of
        None \<Rightarrow> None
      | Some (Inl err) \<Rightarrow> Some (Inl err)
      | Some (Inr (m, e', ast')) \<Rightarrow> Some (Inr (m, Text (set_match m x) e', ast')))"
| "inference n ast (Simple_and x e) =
     (case inference n ast e of
        None \<Rightarrow> None
      | Some (Inl err) \<Rightarrow> Some (Inl err)
      | Some (Inr (m, e', ast')) \<Rightarrow> Some (Inr (m, Simple_and (set_match m x) e', ast')))"
| "inference n ast (Simple_not x e) =
     (case inference n ast e of
        None \<Rightarrow> None
      | Some (Inl err) \<Rightarrow> Some (Inl err)
      | Some (Inr (m, e', ast')) \<Rightarrow>
          Some (Inr (negate m, Simple_not (set_match (negate m) x) e', ast')))"
| "inference n ast (Optional x e) =
     (case inference n ast e of
        None \<Rightarrow> None
      | Some (Inl err) \<Rightarrow> Some (Inl err)
      | Some (Inr (m, e', ast')) \<Rightarrow> Some (Inr (ALWAYS, Optional (set_match ALWAYS x) e', ast')))"
| "inference n ast (Zero_or_more x e) =
     (case inference n ast e of
        None \<Rightarrow> None
      | Some (Inl err) \<Rightarrow> Some (Inl err)
      | Some (Inr (m, e', ast')) \<Rightarrow> Some (Inr (ALWAYS, Zero_or_more (set_match ALWAYS x) e', ast')))"
| "inference n ast (One_or_more x e) =
     (case inference n ast e of
        None \<Rightarrow> None
      | Some (Inl err) \<Rightarrow> Some (Inl err)
      | Some (Inr (m, e', ast')) \<Rightarrow> Some (Inr (m, One_or_more (set_match m x) e', ast')))"
| "inference n ast (Group x e) =
     (case inference n ast e of
        None \<Rightarrow> None
      | Some (Inl err) \<Rightarrow> Some (Inl err)
      | Some (Inr (m, e', ast')) \<Rightarrow> Some (Inr (m, Group (set_match m x) e', ast')))"
| "inference n ast (Semantic_and x c cl) =
     Some (Inr (SOMETIMES, Semantic_and (set_match SOMETIMES x) c cl, ast))"
| "inference n ast (Semantic_not x c cl) =
     Some (Inr (SOMETIMES, Semantic_not (set_match SOMETIMES x) c cl, ast))"
| "inference n ast (Rule_ref x nm) =
     (case findRule ast nm of
        None \<Rightarrow> Some (Inr (SOMETIMES, Rule_ref x nm, ast))
      | Some rule \<Rightarrow>
          (case match (rule_node rule) of
             Some m \<Rightarrow> Some (Inr (m, Rule_ref (set_match m x) nm, ast))
           | None \<Rightarrow>
               (case n of
                  0 \<Rightarrow> None
                | Suc k \<Rightarrow>
                    (case rule_loop k
                            (update_rule nm (\<lambda>r. r\<lparr>rule_node := set_match SOMETIMES (rule_node r)\<rparr>) ast)
                            nm 0 of
                       None \<Rightarrow> None
                     | Some (Inl err) \<Rightarrow> Some (Inl err)
                     | Some (Inr (m, ast')) \<Rightarrow> Some (Inr (m, Rule_ref (set_match m x) nm, ast'))))))"
| "inference n ast (Literal x v ic) =
     (let m = (if length v = 0 then ALWAYS else SOMETIMES)
      in Some (Inr (m, Literal (set_match m x) v ic, ast)))"
| "inference n ast (Class x parts iv ic) =
     (let m = (if length parts = 0 then NEVER else SOMETIMES)
      in Some (Inr (m, Class (set_match m x) parts iv ic, ast)))"
| "inference n ast (Any x) = Some (Inr (SOMETIMES, Any (set_match SOMETIMES x), ast))"
| "elements_loop n ast [] = Some (Inr (0, 0, [], ast))"
| "elements_loop n ast (e # es) =
     (case inference n ast e of
        None \<Rightarrow> None
      | Some (Inl err) \<Rightarrow> Some (Inl err)
      | Some (Inr (result, e', ast1)) \<Rightarrow>
          (case elements_loop n ast1 es of
             None \<Rightarrow> None
           | Some (Inl err) \<Rightarrow> Some (Inl err)
           | Some (Inr (always, never, es', ast2)) \<Rightarrow>
               Some (Inr ((if result = ALWAYS then always + 1 else always),
                          (if result = NEVER then never + 1 else never),
                          e' # es', ast2))))"
| "rule_loop k ast nm count =
     (case findRule ast nm of
        None \<Rightarrow> None
      | Some node \<Rightarrow>
          (let oldResult = match (rule_node node)
           in case inference k ast (expression node) of
                None \<Rightarrow> None
              | Some (Inl err) \<Rightarrow> Some (Inl err)
              | Some (Inr (m, e', ast1)) \<Rightarrow>
                  (let ast2 = update_rule nm
                                (\<lambda>r. r\<lparr>expression := e', rule_node := set_match m (rule_node r)\<rparr>) ast1
                   in if count + 1 > 6
                      then Some (Inl (Throw_GrammarError (new_GrammarError
                             ''Infinity cycle detected when trying to evaluate node match result''
                             (Some (location (rule_node node))) None)))
                      else if oldResult \<noteq> Some m then rule_loop k ast2 nm (count + 1)
                      else Some (Inr (m, ast2)))))"
  by pat_completeness auto
termination
  by (relation "measures
        [\<lambda>a. case a of Inl (n, ast, e) \<Rightarrow> n | Inr (Inl (n, ast, es)) \<Rightarrow> n
                      | Inr (Inr (k, ast, nm, count)) \<Rightarrow> k,
         \<lambda>a. case a of Inl (n, ast, e) \<Rightarrow> 0 | Inr (Inl (n, ast, es)) \<Rightarrow> 0
                      | Inr (Inr (k, ast, nm, count)) \<Rightarrow> 1,
         \<lambda>a. case a of Inl (n, ast, e) \<Rightarrow> size e | Inr (Inl (n, ast, es)) \<Rightarrow> size_list size es
                      | Inr (Inr (k, ast, nm, count)) \<Rightarrow> 7 - count]")
    auto

text \<open>The equation of \<open>rule_loop\<close> has no pattern: it is unfolded by hand.\<close>

declare rule_loop.simps [simp del]

text \<open>
  The handler of the grammar and of the initializers is \<open>ignoreNode\<close>, which takes no argument
  and returns \<open>NEVER\<close>.  The pass ends with \<open>inference(ast)\<close>, a call of the visitor on the grammar
  node: the visitor of \<open>buildExprVisitor\<close> dispatches on \<open>node.type\<close>, here \<open>"grammar"\<close>, to that
  handler.  The handler \<open>rule\<close> is reached from \<open>rule_ref\<close> alone, through \<open>findRule\<close>: it is
  \<open>rule_loop\<close> above.
\<close>

definition ignoreNode :: MatchResult where
  "ignoreNode = NEVER"

definition inference_grammar :: "Grammar \<Rightarrow> MatchResult \<times> Grammar" where
  "inference_grammar ast = (ignoreNode, ast)"

definition inferenceMatchResult :: "nat \<Rightarrow> Grammar \<Rightarrow> (exn option \<times> Grammar) option" where
  "inferenceMatchResult n ast =
     (case inference_grammar ast of (m, ast') \<Rightarrow> Some (None, ast'))"

section \<open>The table of match results\<close>

text \<open>
  The results that \<open>inference\<close> returns for the elements of a list, visited in order, each in
  the grammar as the elements before it left it.
\<close>

fun elements_results :: "nat \<Rightarrow> Grammar \<Rightarrow> expr list \<Rightarrow> MatchResult list option" where
  "elements_results n ast [] = Some []"
| "elements_results n ast (e # es) =
     (case inference n ast e of
        Some (Inr (result, e', ast1)) \<Rightarrow> map_option ((#) result) (elements_results n ast1 es)
      | _ \<Rightarrow> None)"

lemma elements_loop_counts:
  "elements_loop n ast es = Some (Inr (always, never, es', ast')) \<Longrightarrow>
     \<exists>rs. elements_results n ast es = Some rs \<and> length rs = length es \<and>
          always = length (filter (\<lambda>r. r = ALWAYS) rs) \<and>
          never = length (filter (\<lambda>r. r = NEVER) rs)"
proof (induction es arbitrary: ast always never es' ast')
  case Nil
  then show ?case by simp
next
  case (Cons e es)
  from Cons.prems obtain result e1 ast1 always1 never1 es1 where
    i: "inference n ast e = Some (Inr (result, e1, ast1))"
    and l: "elements_loop n ast1 es = Some (Inr (always1, never1, es1, ast'))"
    and a: "always = (if result = ALWAYS then always1 + 1 else always1)"
    and v: "never = (if result = NEVER then never1 + 1 else never1)"
    by (auto split: option.splits sum.splits)
  from Cons.IH [OF l] obtain rs where
    "elements_results n ast1 es = Some rs" "length rs = length es"
    "always1 = length (filter (\<lambda>r. r = ALWAYS) rs)" "never1 = length (filter (\<lambda>r. r = NEVER) rs)"
    by blast
  with i a v show ?case by simp
qed

lemma filter_all_length: "(length (filter P xs) = length xs) = (\<forall>x \<in> set xs. P x)"
proof (induction xs)
  case Nil
  then show ?case by simp
next
  case (Cons a xs)
  have "length (filter P xs) \<noteq> Suc (length xs)"
    using length_filter_le [of P xs] by arith
  with Cons show ?case by auto
qed

lemma filter_some_length: "(0 < length (filter P xs)) = (\<exists>x \<in> set xs. P x)"
  by (induction xs) auto

lemma elements_result_table:
  "length rs = len \<Longrightarrow>
   elements_result (length (filter (\<lambda>r. r = ALWAYS) rs)) (length (filter (\<lambda>r. r = NEVER) rs)) len forChoice =
     (if \<forall>r \<in> set rs. r = ALWAYS then ALWAYS
      else if forChoice then (if \<forall>r \<in> set rs. r = NEVER then NEVER else SOMETIMES)
      else (if \<exists>r \<in> set rs. r = NEVER then NEVER else SOMETIMES))"
  using filter_all_length [of "\<lambda>r. r = ALWAYS" rs] filter_all_length [of "\<lambda>r. r = NEVER" rs]
    filter_some_length [of "\<lambda>r. r = NEVER" rs]
  by (simp add: elements_result_def)
lemma elements_loop_returns:
  "elements_results n ast es = Some rs \<Longrightarrow>
     \<exists>always never es' ast'. elements_loop n ast es = Some (Inr (always, never, es', ast'))"
proof (induction es arbitrary: ast rs)
  case Nil
  then show ?case by simp
next
  case (Cons e es)
  from Cons.prems obtain result e1 ast1 rs1 where
    i: "inference n ast e = Some (Inr (result, e1, ast1))"
    and r: "elements_results n ast1 es = Some rs1"
    by (auto split: option.splits sum.splits)
  from Cons.IH [OF r] obtain always never es' ast' where
    "elements_loop n ast1 es = Some (Inr (always, never, es', ast'))" by blast
  with i show ?case by simp
qed

text \<open>
  The handlers of the visitor.  Whenever the visitor returns a result for a choice, the result follows the
  table from the results it got for the alternatives: \<open>ALWAYS\<close> if all are \<open>ALWAYS\<close>, else \<open>NEVER\<close>
  if all are \<open>NEVER\<close>, else \<open>SOMETIMES\<close>; for a sequence: \<open>ALWAYS\<close> if all are \<open>ALWAYS\<close>, else \<open>NEVER\<close>
  if one is \<open>NEVER\<close>, else \<open>SOMETIMES\<close>; the result is stored in the node's \<open>match\<close>; and the
  visitor returns a result for the node whenever it returns one for every child.  A literal
  is \<open>ALWAYS\<close> if its value is empty and \<open>SOMETIMES\<close> otherwise; a class is \<open>NEVER\<close> if it has no
  parts and \<open>SOMETIMES\<close> otherwise; \<open>optional\<close> and \<open>zero_or_more\<close> are \<open>ALWAYS\<close> (after the child
  was visited); \<open>simple_not\<close> is the negation of the child's result.
\<close>

theorem inference_table:
  "(\<forall>m e' ast'. inference n ast (Choice x es) = Some (Inr (m, e', ast')) \<longrightarrow>
      match (node_of e') = Some m \<and>
      (\<exists>rs. elements_results n ast es = Some rs \<and> length rs = length es \<and>
         m = (if \<forall>r \<in> set rs. r = ALWAYS then ALWAYS
              else if \<forall>r \<in> set rs. r = NEVER then NEVER else SOMETIMES))) \<and>
   (\<forall>rs. elements_results n ast es = Some rs \<longrightarrow>
      (\<exists>m e' ast'. inference n ast (Choice x es) = Some (Inr (m, e', ast')))) \<and>
   (\<forall>m e' ast'. inference n ast (Sequence x es) = Some (Inr (m, e', ast')) \<longrightarrow>
      match (node_of e') = Some m \<and>
      (\<exists>rs. elements_results n ast es = Some rs \<and> length rs = length es \<and>
         m = (if \<forall>r \<in> set rs. r = ALWAYS then ALWAYS
              else if \<exists>r \<in> set rs. r = NEVER then NEVER else SOMETIMES))) \<and>
   (\<forall>rs. elements_results n ast es = Some rs \<longrightarrow>
      (\<exists>m e' ast'. inference n ast (Sequence x es) = Some (Inr (m, e', ast')))) \<and>
   inference n ast (Literal x v ic) =
      Some (Inr (if v = '''' then ALWAYS else SOMETIMES,
                 Literal (set_match (if v = '''' then ALWAYS else SOMETIMES) x) v ic, ast)) \<and>
   inference n ast (Class x parts iv ic) =
      Some (Inr (if parts = [] then NEVER else SOMETIMES,
                 Class (set_match (if parts = [] then NEVER else SOMETIMES) x) parts iv ic, ast)) \<and>
   (\<forall>mc ec ast1. inference n ast e = Some (Inr (mc, ec, ast1)) \<longrightarrow>
      inference n ast (Optional x e) = Some (Inr (ALWAYS, Optional (set_match ALWAYS x) ec, ast1)) \<and>
      inference n ast (Zero_or_more x e) = Some (Inr (ALWAYS, Zero_or_more (set_match ALWAYS x) ec, ast1)) \<and>
      inference n ast (Simple_not x e)
        = Some (Inr (negate mc, Simple_not (set_match (negate mc) x) ec, ast1))) \<and>
   (\<forall>m e' ast'. inference n ast (Optional x e) = Some (Inr (m, e', ast')) \<longrightarrow>
      m = ALWAYS \<and> match (node_of e') = Some ALWAYS) \<and>
   (\<forall>m e' ast'. inference n ast (Zero_or_more x e) = Some (Inr (m, e', ast')) \<longrightarrow>
      m = ALWAYS \<and> match (node_of e') = Some ALWAYS) \<and>
   (\<forall>m e' ast'. inference n ast (Simple_not x e) = Some (Inr (m, e', ast')) \<longrightarrow>
      match (node_of e') = Some m \<and>
      (\<exists>mc ec. inference n ast e = Some (Inr (mc, ec, ast')) \<and> m = negate mc)) \<and>
   negate ALWAYS = NEVER \<and> negate NEVER = ALWAYS \<and> negate SOMETIMES = SOMETIMES"
proof -
  have choice: "match (node_of e') = Some m \<and>
      (\<exists>rs. elements_results n ast es = Some rs \<and> length rs = length es \<and>
         m = (if \<forall>r \<in> set rs. r = ALWAYS then ALWAYS
              else if \<forall>r \<in> set rs. r = NEVER then NEVER else SOMETIMES))"
    if a: "inference n ast (Choice x es) = Some (Inr (m, e', ast'))" for m e' ast'
  proof -
    from a obtain always never es' where
      l: "elements_loop n ast es = Some (Inr (always, never, es', ast'))"
      and m: "m = elements_result always never (length es) True"
      and e': "e' = Choice (set_match m x) es'"
      by (auto simp: Let_def split: option.splits sum.splits)
    from elements_loop_counts [OF l] obtain rs where
      rs: "elements_results n ast es = Some rs" "length rs = length es"
        "always = length (filter (\<lambda>r. r = ALWAYS) rs)" "never = length (filter (\<lambda>r. r = NEVER) rs)"
      by blast
    from m rs elements_result_table [of rs "length es" True]
    have "m = (if \<forall>r \<in> set rs. r = ALWAYS then ALWAYS
              else if \<forall>r \<in> set rs. r = NEVER then NEVER else SOMETIMES)"
      by simp
    with rs e' show ?thesis by (simp add: set_match_def)
  qed
  have seq: "match (node_of e') = Some m \<and>
      (\<exists>rs. elements_results n ast es = Some rs \<and> length rs = length es \<and>
         m = (if \<forall>r \<in> set rs. r = ALWAYS then ALWAYS
              else if \<exists>r \<in> set rs. r = NEVER then NEVER else SOMETIMES))"
    if a: "inference n ast (Sequence x es) = Some (Inr (m, e', ast'))" for m e' ast'
  proof -
    from a obtain always never es' where
      l: "elements_loop n ast es = Some (Inr (always, never, es', ast'))"
      and m: "m = elements_result always never (length es) False"
      and e': "e' = Sequence (set_match m x) es'"
      by (auto simp: Let_def split: option.splits sum.splits)
    from elements_loop_counts [OF l] obtain rs where
      rs: "elements_results n ast es = Some rs" "length rs = length es"
        "always = length (filter (\<lambda>r. r = ALWAYS) rs)" "never = length (filter (\<lambda>r. r = NEVER) rs)"
      by blast
    from m rs elements_result_table [of rs "length es" False]
    have "m = (if \<forall>r \<in> set rs. r = ALWAYS then ALWAYS
              else if \<exists>r \<in> set rs. r = NEVER then NEVER else SOMETIMES)"
      by simp
    with rs e' show ?thesis by (simp add: set_match_def)
  qed
  have choice_ret: "\<exists>m e' ast'. inference n ast (Choice x es) = Some (Inr (m, e', ast'))"
    if "elements_results n ast es = Some rs" for rs
    using elements_loop_returns [OF that] by (auto simp: Let_def)
  have seq_ret: "\<exists>m e' ast'. inference n ast (Sequence x es) = Some (Inr (m, e', ast'))"
    if "elements_results n ast es = Some rs" for rs
    using elements_loop_returns [OF that] by (auto simp: Let_def)
  have lit: "inference n ast (Literal x v ic) =
      Some (Inr (if v = '''' then ALWAYS else SOMETIMES,
                 Literal (set_match (if v = '''' then ALWAYS else SOMETIMES) x) v ic, ast))"
    by (simp add: Let_def)
  have cls: "inference n ast (Class x parts iv ic) =
      Some (Inr (if parts = [] then NEVER else SOMETIMES,
                 Class (set_match (if parts = [] then NEVER else SOMETIMES) x) parts iv ic, ast))"
    by (simp add: Let_def)
  have fwd: "inference n ast (Optional x e) = Some (Inr (ALWAYS, Optional (set_match ALWAYS x) ec, ast1)) \<and>
      inference n ast (Zero_or_more x e) = Some (Inr (ALWAYS, Zero_or_more (set_match ALWAYS x) ec, ast1)) \<and>
      inference n ast (Simple_not x e)
        = Some (Inr (negate mc, Simple_not (set_match (negate mc) x) ec, ast1))"
    if "inference n ast e = Some (Inr (mc, ec, ast1))" for mc ec ast1
    using that by simp
  have opt: "m = ALWAYS \<and> match (node_of e') = Some ALWAYS"
    if "inference n ast (Optional x e) = Some (Inr (m, e', ast'))" for m e' ast'
    using that by (auto simp: set_match_def split: option.splits sum.splits)
  have zom: "m = ALWAYS \<and> match (node_of e') = Some ALWAYS"
    if "inference n ast (Zero_or_more x e) = Some (Inr (m, e', ast'))" for m e' ast'
    using that by (auto simp: set_match_def split: option.splits sum.splits)
  have snot: "match (node_of e') = Some m \<and>
      (\<exists>mc ec. inference n ast e = Some (Inr (mc, ec, ast')) \<and> m = negate mc)"
    if "inference n ast (Simple_not x e) = Some (Inr (m, e', ast'))" for m e' ast'
    using that by (auto simp: set_match_def split: option.splits sum.splits)
  show ?thesis
    using choice choice_ret seq seq_ret lit cls fwd opt zom snot
    by (intro conjI allI impI) (blast | simp)+
qed

text \<open>
  The table at work on \<open>"a"? "b"\<close> (scenario 7 of the specification): the visitor gives \<open>ALWAYS\<close>
  for the optional node and \<open>SOMETIMES\<close> for the sequence.
\<close>

theorem inference_table_witness:
  "elements_results 0 (mk_grammar [])
     [Optional node0 (Literal node0 ''a'' False), Literal node0 ''b'' False] = Some [ALWAYS, SOMETIMES] \<and>
   inference 0 (mk_grammar []) (Literal node0 ''a'' False)
     = Some (Inr (SOMETIMES, Literal (set_match SOMETIMES node0) ''a'' False, mk_grammar [])) \<and>
   inference 0 (mk_grammar [])
     (Sequence node0 [Optional node0 (Literal node0 ''a'' False), Literal node0 ''b'' False])
     = Some (Inr (SOMETIMES,
         Sequence (set_match SOMETIMES node0)
           [Optional (set_match ALWAYS node0) (Literal (set_match SOMETIMES node0) ''a'' False),
            Literal (set_match SOMETIMES node0) ''b'' False],
         mk_grammar [])) \<and>
   inference 0 (mk_grammar []) (Choice node0 [Class node0 [] False False, Class node0 [] False False])
     = Some (Inr (NEVER,
         Choice (set_match NEVER node0)
           [Class (set_match NEVER node0) [] False False, Class (set_match NEVER node0) [] False False],
         mk_grammar [])) \<and>
   inference 0 (mk_grammar []) (Simple_not node0 (Literal node0 '''' False))
     = Some (Inr (NEVER, Simple_not (set_match NEVER node0) (Literal (set_match ALWAYS node0) '''' False),
         mk_grammar []))"
  using inference_table [of 0 "mk_grammar []" node0
      "[Optional node0 (Literal node0 ''a'' False), Literal node0 ''b'' False]"
      "''a''" False "[]" False "Literal node0 ''a'' False"]
  by (simp add: elements_result_def Let_def)

section \<open>The entry point of the inference pass\<close>

text \<open>
  Claim C3 fails on the code, by the defect of claim C8: the pass ends with \<open>inference(ast)\<close>,
  which the visitor hands to \<open>ignoreNode\<close>, so the pass assigns no tag to any node.  On the
  grammar \<open>start = "a" / "" ![]\<close> the pass returns the grammar as it got it, every \<open>match\<close> still
  \<open>undefined\<close>; the handlers of the visitor do follow the table, as the call of the visitor on
  the body of the rule shows (\<open>SOMETIMES\<close> for \<open>"a"\<close>, \<open>ALWAYS\<close> for \<open>""\<close>, \<open>NEVER\<close> for \<open>[]\<close>, \<open>ALWAYS\<close> for
  \<open>![]\<close> and for the sequence, \<open>SOMETIMES\<close> for the choice), but the pass never reaches them.
\<close>

theorem inferenceMatchResult_assigns_no_tag:
  "inferenceMatchResult n (mk_grammar [mk_rule ''start''
      (Choice node0 [Literal node0 ''a'' False,
                     Sequence node0 [Literal node0 '''' False,
                                     Simple_not node0 (Class node0 [] False False)]])])
     = Some (None, mk_grammar [mk_rule ''start''
      (Choice node0 [Literal node0 ''a'' False,
                     Sequence node0 [Literal node0 '''' False,
                                     Simple_not node0 (Class node0 [] False False)]])]) \<and>
   match node0 = None \<and>
   inference 0 (mk_grammar [mk_rule ''start''
      (Choice node0 [Literal node0 ''a'' False,
                     Sequence node0 [Literal node0 '''' False,
                                     Simple_not node0 (Class node0 [] False False)]])])
      (Choice node0 [Literal node0 ''a'' False,
                     Sequence node0 [Literal node0 '''' False,
                                     Simple_not node0 (Class node0 [] False False)]])
     = Some (Inr (SOMETIMES,
         Choice (set_match SOMETIMES node0)
           [Literal (set_match SOMETIMES node0) ''a'' False,
            Sequence (set_match ALWAYS node0)
              [Literal (set_match ALWAYS node0) '''' False,
               Simple_not (set_match ALWAYS node0) (Class (set_match NEVER node0) [] False False)]],
         mk_grammar [mk_rule ''start''
           (Choice node0 [Literal node0 ''a'' False,
                          Sequence node0 [Literal node0 '''' False,
                                          Simple_not node0 (Class node0 [] False False)]])]))"
  by (simp add: inferenceMatchResult_def inference_grammar_def node0_def elements_result_def Let_def)

text \<open>
  Claim C8 fails on the code.  The pass ends with \<open>inference(ast)\<close>; the visitor was built with
  \<open>buildExprVisitor\<close> and the handler \<open>ignoreNode\<close> for the grammar, which returns \<open>NEVER\<close> without
  visiting a rule.  The pass therefore returns the grammar as it got it: on \<open>A = "a"? "b"\<close> no
  node has a \<open>match\<close> afterwards, where the visitor, called on the body, assigns one to each.
\<close>

theorem inferenceMatchResult_ignores_grammar:
  "inferenceMatchResult n ast = Some (None, ast) \<and>
   inferenceMatchResult n (mk_grammar [mk_rule ''A''
      (Sequence node0 [Optional node0 (Literal node0 ''a'' False), Literal node0 ''b'' False])])
     = Some (None, mk_grammar [mk_rule ''A''
      (Sequence node0 [Optional node0 (Literal node0 ''a'' False), Literal node0 ''b'' False])]) \<and>
   match (node_of (Sequence node0 [Optional node0 (Literal node0 ''a'' False), Literal node0 ''b'' False]))
     = None \<and>
   match (node_of (Optional node0 (Literal node0 ''a'' False))) = None"
  by (simp add: inferenceMatchResult_def inference_grammar_def node0_def)

section \<open>The fixed point of a rule\<close>

text \<open>
  What the visitor computes, as a function of the results stored in the rules: the value of
  an expression in an environment \<open>\<rho>\<close> that gives each rule name a result.
\<close>

definition table :: "bool \<Rightarrow> MatchResult list \<Rightarrow> MatchResult" where
  "table forChoice rs =
     (if \<forall>r \<in> set rs. r = ALWAYS then ALWAYS
      else if forChoice then (if \<forall>r \<in> set rs. r = NEVER then NEVER else SOMETIMES)
      else (if \<exists>r \<in> set rs. r = NEVER then NEVER else SOMETIMES))"

fun peval :: "(string \<Rightarrow> MatchResult) \<Rightarrow> expr \<Rightarrow> MatchResult" where
  "peval \<rho> (Named x nm e) = peval \<rho> e"
| "peval \<rho> (Choice x es) = table True (map (peval \<rho>) es)"
| "peval \<rho> (Action x c cl e) = peval \<rho> e"
| "peval \<rho> (Sequence x es) = table False (map (peval \<rho>) es)"
| "peval \<rho> (Labeled x p l ll e) = peval \<rho> e"
| "peval \<rho> (Text x e) = peval \<rho> e"
| "peval \<rho> (Simple_and x e) = peval \<rho> e"
| "peval \<rho> (Simple_not x e) = negate (peval \<rho> e)"
| "peval \<rho> (Optional x e) = ALWAYS"
| "peval \<rho> (Zero_or_more x e) = ALWAYS"
| "peval \<rho> (One_or_more x e) = peval \<rho> e"
| "peval \<rho> (Group x e) = peval \<rho> e"
| "peval \<rho> (Semantic_and x c cl) = SOMETIMES"
| "peval \<rho> (Semantic_not x c cl) = SOMETIMES"
| "peval \<rho> (Rule_ref x nm) = \<rho> nm"
| "peval \<rho> (Literal x v ic) = (if v = [] then ALWAYS else SOMETIMES)"
| "peval \<rho> (Class x parts iv ic) = (if parts = [] then NEVER else SOMETIMES)"
| "peval \<rho> (Any x) = SOMETIMES"

text \<open>The expression without its \<open>match\<close> fields.\<close>

definition no_match :: "Expr \<Rightarrow> Expr" where
  "no_match x = Expr (location x) None"

fun erase :: "expr \<Rightarrow> expr" where
  "erase (Named x nm e) = Named (no_match x) nm (erase e)"
| "erase (Choice x es) = Choice (no_match x) (map erase es)"
| "erase (Action x c cl e) = Action (no_match x) c cl (erase e)"
| "erase (Sequence x es) = Sequence (no_match x) (map erase es)"
| "erase (Labeled x p l ll e) = Labeled (no_match x) p l ll (erase e)"
| "erase (Text x e) = Text (no_match x) (erase e)"
| "erase (Simple_and x e) = Simple_and (no_match x) (erase e)"
| "erase (Simple_not x e) = Simple_not (no_match x) (erase e)"
| "erase (Optional x e) = Optional (no_match x) (erase e)"
| "erase (Zero_or_more x e) = Zero_or_more (no_match x) (erase e)"
| "erase (One_or_more x e) = One_or_more (no_match x) (erase e)"
| "erase (Group x e) = Group (no_match x) (erase e)"
| "erase (Semantic_and x c cl) = Semantic_and (no_match x) c cl"
| "erase (Semantic_not x c cl) = Semantic_not (no_match x) c cl"
| "erase (Rule_ref x nm) = Rule_ref (no_match x) nm"
| "erase (Literal x v ic) = Literal (no_match x) v ic"
| "erase (Class x parts iv ic) = Class (no_match x) parts iv ic"
| "erase (Any x) = Any (no_match x)"

text \<open>
  The result stored in the rule of a name, and the environment a grammar gives: a rule that
  is missing or has no result yet counts as \<open>SOMETIMES\<close>.
\<close>

definition rmatch :: "Grammar \<Rightarrow> string \<Rightarrow> MatchResult option" where
  "rmatch ast nm = (case findRule ast nm of None \<Rightarrow> None | Some r \<Rightarrow> match (rule_node r))"

definition env_of :: "Grammar \<Rightarrow> string \<Rightarrow> MatchResult" where
  "env_of ast nm = (case rmatch ast nm of None \<Rightarrow> SOMETIMES | Some m \<Rightarrow> m)"

text \<open>The order of information: \<open>SOMETIMES\<close> lies below \<open>ALWAYS\<close> and below \<open>NEVER\<close>.\<close>

definition le_info :: "MatchResult \<Rightarrow> MatchResult \<Rightarrow> bool" where
  "le_info a b \<longleftrightarrow> a = SOMETIMES \<or> a = b"

text \<open>
  What a visit leaves alone in the rule of a name: whether the rule exists, a result it
  already had, and its body up to the \<open>match\<close> fields.
\<close>

definition stable :: "Grammar \<Rightarrow> Grammar \<Rightarrow> string \<Rightarrow> bool" where
  "stable ast ast' nm \<longleftrightarrow>
     (findRule ast' nm = None) = (findRule ast nm = None) \<and>
     (case rmatch ast nm of None \<Rightarrow> True | Some v \<Rightarrow> rmatch ast' nm = Some v) \<and>
     map_option (\<lambda>r. erase (expression r)) (findRule ast' nm)
       = map_option (\<lambda>r. erase (expression r)) (findRule ast nm)"

text \<open>The number of rules without a result.\<close>

definition undefined_count :: "Grammar \<Rightarrow> nat" where
  "undefined_count ast = length (filter (\<lambda>r. match (rule_node r) = None) (rules ast))"

definition preserved :: "Grammar \<Rightarrow> Grammar \<Rightarrow> bool" where
  "preserved ast ast' \<longleftrightarrow> (\<forall>nm. stable ast ast' nm) \<and> undefined_count ast' \<le> undefined_count ast"

text \<open>
  A good outcome of visiting \<open>e\<close> in \<open>ast\<close>: no exception; the rules are left as described
  above; the rules that \<open>e\<close> refers to have a result, if they exist; the result is the value of
  \<open>e\<close> in the environment of the grammar as it is left; and the node is \<open>e\<close> up to the \<open>match\<close>
  fields.
\<close>

definition good :: "Grammar \<Rightarrow> expr \<Rightarrow> exn + (MatchResult \<times> expr \<times> Grammar) \<Rightarrow> bool" where
  "good ast e res =
     (case res of
        Inl err \<Rightarrow> False
      | Inr (m, e', ast') \<Rightarrow>
          preserved ast ast' \<and>
          (\<forall>nm \<in> refs e. findRule ast nm \<noteq> None \<longrightarrow> rmatch ast' nm \<noteq> None) \<and>
          m = peval (env_of ast') e \<and>
          erase e' = erase e)"

lemma no_match_set_match [simp]: "no_match (set_match m x) = no_match x"
  by (simp add: no_match_def set_match_def)

lemma peval_erase: "peval \<rho> (erase e) = peval \<rho> e"
  by (induction e) (simp_all add: comp_def cong: map_cong)

lemma refs_erase: "refs (erase e) = refs e"
  by (induction e) (simp_all add: comp_def cong: map_cong)

lemma peval_cong_refs: "\<forall>nm \<in> refs e. \<rho> nm = \<rho>' nm \<Longrightarrow> peval \<rho> e = peval \<rho>' e"
proof (induction e)
  case (Choice x es)
  then have "map (peval \<rho>) es = map (peval \<rho>') es" by (intro map_cong) auto
  then show ?case by (simp only: peval.simps)
next
  case (Sequence x es)
  then have "map (peval \<rho>) es = map (peval \<rho>') es" by (intro map_cong) auto
  then show ?case by (simp only: peval.simps)
qed simp_all

lemma le_info_refl [simp]: "le_info a a"
  by (simp add: le_info_def)

lemma le_info_negate: "le_info a b \<Longrightarrow> le_info (negate a) (negate b)"
  by (cases a; cases b) (simp_all add: le_info_def)

lemma le_info_max: "le_info a b \<Longrightarrow> a \<noteq> SOMETIMES \<Longrightarrow> b = a"
  by (simp add: le_info_def)

lemma table_map:
  "table b (map f es) =
     (if \<forall>e \<in> set es. f e = ALWAYS then ALWAYS
      else if b then (if \<forall>e \<in> set es. f e = NEVER then NEVER else SOMETIMES)
      else (if \<exists>e \<in> set es. f e = NEVER then NEVER else SOMETIMES))"
proof -
  have "(\<exists>r \<in> set (map f es). r = NEVER) = (\<exists>e \<in> set es. f e = NEVER)"
    by (induction es) auto
  moreover have "(\<forall>r \<in> set (map f es). r = NEVER) = (\<forall>e \<in> set es. f e = NEVER)"
    by (induction es) auto
  moreover have "(\<forall>r \<in> set (map f es). r = ALWAYS) = (\<forall>e \<in> set es. f e = ALWAYS)"
    by (induction es) auto
  ultimately show ?thesis unfolding table_def by presburger
qed

lemma table_mono:
  assumes "\<forall>e \<in> set es. le_info (f e) (g e)"
  shows "le_info (table b (map f es)) (table b (map g es))"
proof (cases "table b (map f es)")
  case SOMETIMES
  then show ?thesis by (simp add: le_info_def)
next
  case ALWAYS
  then have "\<forall>e \<in> set es. f e = ALWAYS"
    unfolding table_map by (simp split: if_splits)
  with assms have "\<forall>e \<in> set es. g e = ALWAYS" by (auto simp: le_info_def)
  then have "table b (map g es) = ALWAYS" unfolding table_map by simp
  with ALWAYS show ?thesis by simp
next
  case NEVER
  show ?thesis
  proof (cases b)
    case True
    with NEVER have f: "\<forall>e \<in> set es. f e = NEVER" and ne: "\<not> (\<forall>e \<in> set es. f e = ALWAYS)"
      unfolding table_map by (simp_all split: if_splits)
    from f assms have g: "\<forall>e \<in> set es. g e = NEVER" by (auto simp: le_info_def)
    from ne obtain e where "e \<in> set es" by auto
    with g have "g e \<noteq> ALWAYS" "e \<in> set es" by simp_all
    then have "\<not> (\<forall>e \<in> set es. g e = ALWAYS)" by blast
    with g True have "table b (map g es) = NEVER" unfolding table_map by simp
    with NEVER show ?thesis by simp
  next
    case False
    with NEVER obtain e where e: "e \<in> set es" "f e = NEVER"
      unfolding table_map by (auto split: if_splits)
    with assms have ge: "g e = NEVER" by (auto simp: le_info_def)
    then have "g e \<noteq> ALWAYS" by simp
    with e(1) have "\<not> (\<forall>e \<in> set es. g e = ALWAYS)" by blast
    moreover from e(1) ge have "\<exists>e \<in> set es. g e = NEVER" by blast
    ultimately have "table b (map g es) = NEVER" using False unfolding table_map by simp
    with NEVER show ?thesis by simp
  qed
qed

lemma peval_mono: "\<forall>nm \<in> refs e. le_info (\<rho> nm) (\<rho>' nm) \<Longrightarrow> le_info (peval \<rho> e) (peval \<rho>' e)"
proof (induction e)
  case (Choice x es)
  then have "\<forall>e \<in> set es. le_info (peval \<rho> e) (peval \<rho>' e)" by auto
  then show ?case by (simp add: table_mono)
next
  case (Sequence x es)
  then have "\<forall>e \<in> set es. le_info (peval \<rho> e) (peval \<rho>' e)" by auto
  then show ?case by (simp add: table_mono)
qed (simp_all add: le_info_negate)

lemma findRule_rules_update:
  "(\<And>r. name (f r) = name r) \<Longrightarrow>
     findRule_rules (update_rule_rules nm f rs) nm' =
       (if nm' = nm then map_option f (findRule_rules rs nm) else findRule_rules rs nm')"
  by (induction rs) auto

lemma findRule_update_rule:
  "(\<And>r. name (f r) = name r) \<Longrightarrow>
     findRule (update_rule nm f ast) nm' =
       (if nm' = nm then map_option f (findRule ast nm) else findRule ast nm')"
  by (simp add: findRule_def update_rule_def findRule_rules_update)

lemma undefined_count_update_rules:
  "findRule_rules rs nm = Some r \<Longrightarrow> match (rule_node (f r)) \<noteq> None \<Longrightarrow>
     length (filter (\<lambda>r. match (rule_node r) = None) (update_rule_rules nm f rs))
       + (if match (rule_node r) = None then 1 else 0)
     = length (filter (\<lambda>r. match (rule_node r) = None) rs)"
  by (induction rs) (auto split: if_splits)

lemma undefined_count_update:
  "findRule ast nm = Some r \<Longrightarrow> match (rule_node (f r)) \<noteq> None \<Longrightarrow>
     undefined_count (update_rule nm f ast) + (if match (rule_node r) = None then 1 else 0)
       = undefined_count ast"
  using undefined_count_update_rules [of "rules ast" nm r f]
  by (simp add: undefined_count_def findRule_def update_rule_def)

lemma stable_refl: "stable ast ast nm"
  by (simp add: stable_def split: option.splits)

lemma stable_trans: "stable a b nm \<Longrightarrow> stable b c nm \<Longrightarrow> stable a c nm"
  by (auto simp: stable_def split: option.splits)

lemma preserved_refl: "preserved ast ast"
  by (simp add: preserved_def stable_refl)

lemma preserved_trans: "preserved a b \<Longrightarrow> preserved b c \<Longrightarrow> preserved a c"
  unfolding preserved_def using stable_trans [of a b _ c] by (meson le_trans)

lemma preserved_findRule: "preserved a b \<Longrightarrow> (findRule b nm = None) = (findRule a nm = None)"
  by (simp add: preserved_def stable_def)

lemma preserved_rmatch: "preserved a b \<Longrightarrow> rmatch a nm = Some v \<Longrightarrow> rmatch b nm = Some v"
  unfolding preserved_def stable_def by (auto split: option.splits dest!: spec [of _ nm])

lemma preserved_env_of:
  assumes "preserved a b" and "findRule a nm \<noteq> None \<longrightarrow> rmatch a nm \<noteq> None"
  shows "env_of b nm = env_of a nm"
proof (cases "findRule a nm")
  case None
  with assms(1) have "findRule b nm = None" by (simp add: preserved_findRule)
  with None show ?thesis by (simp add: env_of_def rmatch_def)
next
  case (Some r)
  with assms(2) obtain v where v: "rmatch a nm = Some v" by auto
  with assms(1) have "rmatch b nm = Some v" by (rule preserved_rmatch)
  with v show ?thesis by (simp add: env_of_def)
qed

lemma good_later:
  assumes g: "good ast e (Inr (m, e', ast1))" and p: "preserved ast1 ast2"
  shows "m = peval (env_of ast2) e"
    and "\<forall>nm \<in> refs e. findRule ast nm \<noteq> None \<longrightarrow> rmatch ast2 nm \<noteq> None"
proof -
  from g have p0: "preserved ast ast1"
    and d: "\<forall>nm \<in> refs e. findRule ast nm \<noteq> None \<longrightarrow> rmatch ast1 nm \<noteq> None"
    and m: "m = peval (env_of ast1) e"
    by (simp_all add: good_def)
  have "\<forall>nm \<in> refs e. env_of ast2 nm = env_of ast1 nm"
  proof
    fix nm assume "nm \<in> refs e"
    with d have "findRule ast nm \<noteq> None \<longrightarrow> rmatch ast1 nm \<noteq> None" by simp
    with p0 have "findRule ast1 nm \<noteq> None \<longrightarrow> rmatch ast1 nm \<noteq> None"
      by (simp add: preserved_findRule)
    with p show "env_of ast2 nm = env_of ast1 nm" by (rule preserved_env_of)
  qed
  then have "peval (env_of ast2) e = peval (env_of ast1) e" by (rule peval_cong_refs)
  with m show "m = peval (env_of ast2) e" by simp
  show "\<forall>nm \<in> refs e. findRule ast nm \<noteq> None \<longrightarrow> rmatch ast2 nm \<noteq> None"
  proof (intro ballI impI)
    fix nm assume "nm \<in> refs e" "findRule ast nm \<noteq> None"
    with d obtain v where "rmatch ast1 nm = Some v" by auto
    with p have "rmatch ast2 nm = Some v" by (rule preserved_rmatch)
    then show "rmatch ast2 nm \<noteq> None" by simp
  qed
qed

text \<open>A good outcome of the loop over the elements of a choice or a sequence.\<close>

definition good_elements ::
  "Grammar \<Rightarrow> expr list \<Rightarrow> exn + (nat \<times> nat \<times> expr list \<times> Grammar) \<Rightarrow> bool" where
  "good_elements ast es res =
     (case res of
        Inl err \<Rightarrow> False
      | Inr (always, never, es', ast') \<Rightarrow>
          preserved ast ast' \<and>
          (\<forall>e \<in> set es. \<forall>nm \<in> refs e. findRule ast nm \<noteq> None \<longrightarrow> rmatch ast' nm \<noteq> None) \<and>
          always = length (filter (\<lambda>r. r = ALWAYS) (map (peval (env_of ast')) es)) \<and>
          never = length (filter (\<lambda>r. r = NEVER) (map (peval (env_of ast')) es)) \<and>
          map erase es' = map erase es)"

lemma elements_loop_good:
  "\<forall>e \<in> set es. \<forall>ast res. inference n ast e = Some res \<longrightarrow> good ast e res \<Longrightarrow>
   elements_loop n ast es = Some res \<Longrightarrow> good_elements ast es res"
proof (induction es arbitrary: ast res)
  case Nil
  then show ?case by (auto simp: good_elements_def preserved_refl)
next
  case (Cons e es)
  from Cons.prems(1) have IHe: "\<forall>ast res. inference n ast e = Some res \<longrightarrow> good ast e res" by simp
  from Cons.prems(2) obtain r0 where i: "inference n ast e = Some r0"
    by (auto split: option.splits)
  with IHe have g0: "good ast e r0" by blast
  then obtain result e1 ast1 where r0: "r0 = Inr (result, e1, ast1)"
    by (cases r0) (auto simp: good_def)
  from Cons.prems(2) i r0 obtain r1 where l: "elements_loop n ast1 es = Some r1"
    by (auto split: option.splits)
  from Cons.prems(1) have "\<forall>e \<in> set es. \<forall>ast res. inference n ast e = Some res \<longrightarrow> good ast e res"
    by simp
  from Cons.IH [OF this l] have g1: "good_elements ast1 es r1" .
  then obtain always never es1 ast2 where r1: "r1 = Inr (always, never, es1, ast2)"
    by (cases r1) (auto simp: good_elements_def)
  from Cons.prems(2) i r0 l r1 have res: "res = Inr ((if result = ALWAYS then always + 1 else always),
      (if result = NEVER then never + 1 else never), e1 # es1, ast2)"
    by simp
  from g0 r0 have p0: "preserved ast ast1" and er: "erase e1 = erase e" by (simp_all add: good_def)
  from g1 r1 have p1: "preserved ast1 ast2"
    and d1: "\<forall>e \<in> set es. \<forall>nm \<in> refs e. findRule ast1 nm \<noteq> None \<longrightarrow> rmatch ast2 nm \<noteq> None"
    and a1: "always = length (filter (\<lambda>r. r = ALWAYS) (map (peval (env_of ast2)) es))"
    and n1: "never = length (filter (\<lambda>r. r = NEVER) (map (peval (env_of ast2)) es))"
    and e1: "map erase es1 = map erase es"
    by (simp_all add: good_elements_def)
  from g0 [unfolded r0] p1 have m: "result = peval (env_of ast2) e"
    and d0: "\<forall>nm \<in> refs e. findRule ast nm \<noteq> None \<longrightarrow> rmatch ast2 nm \<noteq> None"
    by (rule good_later)+
  from p0 d1 have d1': "\<forall>e \<in> set es. \<forall>nm \<in> refs e. findRule ast nm \<noteq> None \<longrightarrow> rmatch ast2 nm \<noteq> None"
    by (simp add: preserved_findRule)
  from p0 p1 have "preserved ast ast2" by (rule preserved_trans)
  with d0 d1' a1 n1 e1 er m show ?case
    unfolding res good_elements_def by simp
qed

lemma table_counts:
  "elements_result (length (filter (\<lambda>r. r = ALWAYS) (map f es)))
     (length (filter (\<lambda>r. r = NEVER) (map f es))) (length es) forChoice = table forChoice (map f es)"
  using elements_result_table [of "map f es" "length es" forChoice] by (simp add: table_def)

lemma inference_good_structural:
  assumes ref: "\<forall>ast x nm res. inference n ast (Rule_ref x nm) = Some res \<longrightarrow> good ast (Rule_ref x nm) res"
  shows "inference n ast e = Some res \<Longrightarrow> good ast e res"
proof (induction e arbitrary: ast res)
  case (Choice x es)
  then have IH: "\<forall>e \<in> set es. \<forall>ast res. inference n ast e = Some res \<longrightarrow> good ast e res" by blast
  from Choice.prems obtain r1 where l: "elements_loop n ast es = Some r1"
    by (auto split: option.splits)
  from elements_loop_good [OF IH l] have g: "good_elements ast es r1" .
  then obtain always never es1 ast2 where r1: "r1 = Inr (always, never, es1, ast2)"
    by (cases r1) (auto simp: good_elements_def)
  from Choice.prems l r1 have res: "res = Inr (elements_result always never (length es) True,
      Choice (set_match (elements_result always never (length es) True) x) es1, ast2)"
    by (simp add: Let_def)
  from g r1 have p: "preserved ast ast2"
    and d: "\<forall>e \<in> set es. \<forall>nm \<in> refs e. findRule ast nm \<noteq> None \<longrightarrow> rmatch ast2 nm \<noteq> None"
    and a: "always = length (filter (\<lambda>r. r = ALWAYS) (map (peval (env_of ast2)) es))"
    and nv: "never = length (filter (\<lambda>r. r = NEVER) (map (peval (env_of ast2)) es))"
    and er: "map erase es1 = map erase es"
    by (simp_all add: good_elements_def)
  have "elements_result always never (length es) True = table True (map (peval (env_of ast2)) es)"
    unfolding a nv by (rule table_counts)
  with p d er show ?case
    unfolding res good_def by simp
next
  case (Sequence x es)
  then have IH: "\<forall>e \<in> set es. \<forall>ast res. inference n ast e = Some res \<longrightarrow> good ast e res" by blast
  from Sequence.prems obtain r1 where l: "elements_loop n ast es = Some r1"
    by (auto split: option.splits)
  from elements_loop_good [OF IH l] have g: "good_elements ast es r1" .
  then obtain always never es1 ast2 where r1: "r1 = Inr (always, never, es1, ast2)"
    by (cases r1) (auto simp: good_elements_def)
  from Sequence.prems l r1 have res: "res = Inr (elements_result always never (length es) False,
      Sequence (set_match (elements_result always never (length es) False) x) es1, ast2)"
    by (simp add: Let_def)
  from g r1 have p: "preserved ast ast2"
    and d: "\<forall>e \<in> set es. \<forall>nm \<in> refs e. findRule ast nm \<noteq> None \<longrightarrow> rmatch ast2 nm \<noteq> None"
    and a: "always = length (filter (\<lambda>r. r = ALWAYS) (map (peval (env_of ast2)) es))"
    and nv: "never = length (filter (\<lambda>r. r = NEVER) (map (peval (env_of ast2)) es))"
    and er: "map erase es1 = map erase es"
    by (simp_all add: good_elements_def)
  have "elements_result always never (length es) False = table False (map (peval (env_of ast2)) es)"
    unfolding a nv by (rule table_counts)
  with p d er show ?case
    unfolding res good_def by simp
next
  case (Rule_ref x nm)
  with ref show ?case by blast
next
  case (Named x nm e)
  from Named.prems obtain r0 where i: "inference n ast e = Some r0" by (auto split: option.splits)
  from Named.IH [OF i] Named.prems i show ?case
    by (cases r0) (auto simp: good_def)
next
  case (Action x c cl e)
  from Action.prems obtain r0 where i: "inference n ast e = Some r0" by (auto split: option.splits)
  from Action.IH [OF i] Action.prems i show ?case
    by (cases r0) (auto simp: good_def)
next
  case (Labeled x p l ll e)
  from Labeled.prems obtain r0 where i: "inference n ast e = Some r0" by (auto split: option.splits)
  from Labeled.IH [OF i] Labeled.prems i show ?case
    by (cases r0) (auto simp: good_def)
next
  case (Text x e)
  from Text.prems obtain r0 where i: "inference n ast e = Some r0" by (auto split: option.splits)
  from Text.IH [OF i] Text.prems i show ?case
    by (cases r0) (auto simp: good_def)
next
  case (Simple_and x e)
  from Simple_and.prems obtain r0 where i: "inference n ast e = Some r0" by (auto split: option.splits)
  from Simple_and.IH [OF i] Simple_and.prems i show ?case
    by (cases r0) (auto simp: good_def)
next
  case (Simple_not x e)
  from Simple_not.prems obtain r0 where i: "inference n ast e = Some r0" by (auto split: option.splits)
  from Simple_not.IH [OF i] Simple_not.prems i show ?case
    by (cases r0) (auto simp: good_def)
next
  case (Optional x e)
  from Optional.prems obtain r0 where i: "inference n ast e = Some r0" by (auto split: option.splits)
  from Optional.IH [OF i] Optional.prems i show ?case
    by (cases r0) (auto simp: good_def)
next
  case (Zero_or_more x e)
  from Zero_or_more.prems obtain r0 where i: "inference n ast e = Some r0" by (auto split: option.splits)
  from Zero_or_more.IH [OF i] Zero_or_more.prems i show ?case
    by (cases r0) (auto simp: good_def)
next
  case (One_or_more x e)
  from One_or_more.prems obtain r0 where i: "inference n ast e = Some r0" by (auto split: option.splits)
  from One_or_more.IH [OF i] One_or_more.prems i show ?case
    by (cases r0) (auto simp: good_def)
next
  case (Group x e)
  from Group.prems obtain r0 where i: "inference n ast e = Some r0" by (auto split: option.splits)
  from Group.IH [OF i] Group.prems i show ?case
    by (cases r0) (auto simp: good_def)
next
  case (Semantic_and x c cl)
  then show ?case by (auto simp: good_def preserved_refl)
next
  case (Semantic_not x c cl)
  then show ?case by (auto simp: good_def preserved_refl)
next
  case (Literal x v ic)
  then show ?case by (auto simp: good_def preserved_refl Let_def)
next
  case (Class x parts iv ic)
  then show ?case by (auto simp: good_def preserved_refl Let_def)
next
  case (Any x)
  then show ?case by (auto simp: good_def preserved_refl)
qed

section \<open>Removing proxy rules (lib/compiler/passes/remove-proxy-rules.ts)\<close>











section \<open>Properties of proxy removal\<close>

























section \<open>The check passes\<close>

text \<open>
  The passes of the stage \<open>check\<close> build their visitor with \<open>buildVisitor\<close>: a node with one
  \<open>expression\<close> child visits the child, a choice and a sequence visit their children in order,
  the other nodes do nothing, unless the pass gives a handler.  A visit returns the exception
  it threw, if any, and the state as it left it.
\<close>

subsection \<open>\<open>reportUndefinedRules\<close> (lib/compiler/passes/report-undefined-rules.ts)\<close>

fun reportUndefinedRules_check :: "Grammar \<Rightarrow> expr \<Rightarrow> Session \<Rightarrow> exn option \<times> Session"
  and reportUndefinedRules_children :: "Grammar \<Rightarrow> expr list \<Rightarrow> Session \<Rightarrow> exn option \<times> Session" where
  "reportUndefinedRules_check ast (Named x nm e) s = reportUndefinedRules_check ast e s"
| "reportUndefinedRules_check ast (Choice x alternatives) s = reportUndefinedRules_children ast alternatives s"
| "reportUndefinedRules_check ast (Action x c cl e) s = reportUndefinedRules_check ast e s"
| "reportUndefinedRules_check ast (Sequence x elements) s = reportUndefinedRules_children ast elements s"
| "reportUndefinedRules_check ast (Labeled x p l ll e) s = reportUndefinedRules_check ast e s"
| "reportUndefinedRules_check ast (Text x e) s = reportUndefinedRules_check ast e s"
| "reportUndefinedRules_check ast (Simple_and x e) s = reportUndefinedRules_check ast e s"
| "reportUndefinedRules_check ast (Simple_not x e) s = reportUndefinedRules_check ast e s"
| "reportUndefinedRules_check ast (Optional x e) s = reportUndefinedRules_check ast e s"
| "reportUndefinedRules_check ast (Zero_or_more x e) s = reportUndefinedRules_check ast e s"
| "reportUndefinedRules_check ast (One_or_more x e) s = reportUndefinedRules_check ast e s"
| "reportUndefinedRules_check ast (Group x e) s = reportUndefinedRules_check ast e s"
| "reportUndefinedRules_check ast (Semantic_and x c cl) s = (None, s)"
| "reportUndefinedRules_check ast (Semantic_not x c cl) s = (None, s)"
| "reportUndefinedRules_check ast (Rule_ref x nm) s =
     (if findRule ast nm = None
      then Session_error s (''Rule \"'' @ nm @ ''\" is not defined'') (Some (location x)) None
      else (None, s))"
| "reportUndefinedRules_check ast (Literal x v ic) s = (None, s)"
| "reportUndefinedRules_check ast (Class x ps iv ic) s = (None, s)"
| "reportUndefinedRules_check ast (Any x) s = (None, s)"
| "reportUndefinedRules_children ast [] s = (None, s)"
| "reportUndefinedRules_children ast (e # es) s =
     (case reportUndefinedRules_check ast e s of
        (Some ex, s') \<Rightarrow> (Some ex, s')
      | (None, s') \<Rightarrow> reportUndefinedRules_children ast es s')"

fun reportUndefinedRules_rules :: "Grammar \<Rightarrow> Rule list \<Rightarrow> Session \<Rightarrow> exn option \<times> Session" where
  "reportUndefinedRules_rules ast [] s = (None, s)"
| "reportUndefinedRules_rules ast (r # rs) s =
     (case reportUndefinedRules_check ast (expression r) s of
        (Some ex, s') \<Rightarrow> (Some ex, s')
      | (None, s') \<Rightarrow> reportUndefinedRules_rules ast rs s')"

definition reportUndefinedRules ::
  "Grammar \<Rightarrow> ParsedOptions \<Rightarrow> Session \<Rightarrow> (exn option \<times> Grammar \<times> Session) option" where
  "reportUndefinedRules ast options session =
     (case reportUndefinedRules_rules ast (rules ast) session of (ex, s') \<Rightarrow> Some (ex, ast, s'))"

subsection \<open>\<open>reportDuplicateRules\<close> (lib/compiler/passes/report-duplicate-rules.ts)\<close>

text \<open>
  The pass keeps the locations of the names it has seen in a plain object, read with
  \<open>hasOwnProperty\<close>.  The assignment \<open>rules['__proto__'] = nameLocation\<close> replaces the prototype of
  the object and makes no own key.  The handler of \<open>rule\<close> replaces the default: the
  expressions are not visited.
\<close>

fun reportDuplicateRules_rules ::
  "(string \<rightharpoonup> LocationRange) \<Rightarrow> Rule list \<Rightarrow> Session \<Rightarrow> exn option \<times> Session" where
  "reportDuplicateRules_rules seen [] s = (None, s)"
| "reportDuplicateRules_rules seen (r # rs) s =
     (case seen (name r) of
        Some original \<Rightarrow>
          (case Session_error s (''Rule \"'' @ name r @ ''\" is already defined'')
                  (Some (nameLocation r)) (Some [DiagnosticNote ''Original rule location'' original]) of
             (Some ex, s') \<Rightarrow> (Some ex, s')
           | (None, s') \<Rightarrow> reportDuplicateRules_rules seen rs s')
      | None \<Rightarrow>
          reportDuplicateRules_rules
            (if name r = ''__proto__'' then seen else seen(name r \<mapsto> nameLocation r)) rs s)"

definition reportDuplicateRules ::
  "Grammar \<Rightarrow> ParsedOptions \<Rightarrow> Session \<Rightarrow> (exn option \<times> Grammar \<times> Session) option" where
  "reportDuplicateRules ast options session =
     (case reportDuplicateRules_rules Map.empty (rules ast) session of (ex, s') \<Rightarrow> Some (ex, ast, s'))"

subsection \<open>\<open>reportDuplicateLabels\<close> (lib/compiler/passes/report-duplicate-labels.ts)\<close>

text \<open>
  The environment of the labels in scope is a plain object as well, with the same exception
  for \<open>__proto__\<close>.  A node with a handler of the pass visits its child with a copy
  (\<open>{...env}\<close>), so what the child adds is dropped; \<open>named\<close> and \<open>sequence\<close> keep the defaults and
  hand the object itself on, and so does \<open>labeled\<close>, which adds its label after the child was
  visited.  An empty label is falsy.
\<close>

type_synonym LabelEnv = "string \<rightharpoonup> LocationRange"

fun reportDuplicateLabels_check :: "expr \<Rightarrow> LabelEnv \<Rightarrow> Session \<Rightarrow> exn option \<times> LabelEnv \<times> Session"
  and reportDuplicateLabels_alternatives :: "expr list \<Rightarrow> LabelEnv \<Rightarrow> Session \<Rightarrow> exn option \<times> Session"
  and reportDuplicateLabels_elements ::
    "expr list \<Rightarrow> LabelEnv \<Rightarrow> Session \<Rightarrow> exn option \<times> LabelEnv \<times> Session" where
  "reportDuplicateLabels_check (Named x nm e) ev s = reportDuplicateLabels_check e ev s"
| "reportDuplicateLabels_check (Choice x alternatives) ev s =
     (case reportDuplicateLabels_alternatives alternatives ev s of (ex, s') \<Rightarrow> (ex, ev, s'))"
| "reportDuplicateLabels_check (Action x c cl e) ev s =
     (case reportDuplicateLabels_check e ev s of (ex, ev', s') \<Rightarrow> (ex, ev, s'))"
| "reportDuplicateLabels_check (Sequence x elements) ev s = reportDuplicateLabels_elements elements ev s"
| "reportDuplicateLabels_check (Labeled x p label labelLocation e) ev s =
     (let l = (case label of None \<Rightarrow> None | Some v \<Rightarrow> if v = '''' then None else Some v);
          (ex1, s1) =
             (case l of
                None \<Rightarrow> (None, s)
              | Some v \<Rightarrow>
                  (case ev v of
                     None \<Rightarrow> (None, s)
                   | Some original \<Rightarrow>
                       Session_error s (''Label \"'' @ v @ ''\" is already defined'')
                         (Some labelLocation)
                         (Some [DiagnosticNote ''Original label location'' original])))
      in case ex1 of
           Some ex \<Rightarrow> (Some ex, ev, s1)
         | None \<Rightarrow>
             (case reportDuplicateLabels_check e ev s1 of
                (Some ex, ev2, s2) \<Rightarrow> (Some ex, ev2, s2)
              | (None, ev2, s2) \<Rightarrow>
                  (None,
                   (case l of
                      None \<Rightarrow> ev2
                    | Some v \<Rightarrow> if v = ''__proto__'' then ev2 else ev2(v \<mapsto> labelLocation)),
                   s2)))"
| "reportDuplicateLabels_check (Text x e) ev s =
     (case reportDuplicateLabels_check e ev s of (ex, ev', s') \<Rightarrow> (ex, ev, s'))"
| "reportDuplicateLabels_check (Simple_and x e) ev s =
     (case reportDuplicateLabels_check e ev s of (ex, ev', s') \<Rightarrow> (ex, ev, s'))"
| "reportDuplicateLabels_check (Simple_not x e) ev s =
     (case reportDuplicateLabels_check e ev s of (ex, ev', s') \<Rightarrow> (ex, ev, s'))"
| "reportDuplicateLabels_check (Optional x e) ev s =
     (case reportDuplicateLabels_check e ev s of (ex, ev', s') \<Rightarrow> (ex, ev, s'))"
| "reportDuplicateLabels_check (Zero_or_more x e) ev s =
     (case reportDuplicateLabels_check e ev s of (ex, ev', s') \<Rightarrow> (ex, ev, s'))"
| "reportDuplicateLabels_check (One_or_more x e) ev s =
     (case reportDuplicateLabels_check e ev s of (ex, ev', s') \<Rightarrow> (ex, ev, s'))"
| "reportDuplicateLabels_check (Group x e) ev s =
     (case reportDuplicateLabels_check e ev s of (ex, ev', s') \<Rightarrow> (ex, ev, s'))"
| "reportDuplicateLabels_check (Semantic_and x c cl) ev s = (None, ev, s)"
| "reportDuplicateLabels_check (Semantic_not x c cl) ev s = (None, ev, s)"
| "reportDuplicateLabels_check (Rule_ref x nm) ev s = (None, ev, s)"
| "reportDuplicateLabels_check (Literal x v ic) ev s = (None, ev, s)"
| "reportDuplicateLabels_check (Class x ps iv ic) ev s = (None, ev, s)"
| "reportDuplicateLabels_check (Any x) ev s = (None, ev, s)"
| "reportDuplicateLabels_alternatives [] ev s = (None, s)"
| "reportDuplicateLabels_alternatives (a # alternatives) ev s =
     (case reportDuplicateLabels_check a ev s of
        (Some ex, ev', s') \<Rightarrow> (Some ex, s')
      | (None, ev', s') \<Rightarrow> reportDuplicateLabels_alternatives alternatives ev s')"
| "reportDuplicateLabels_elements [] ev s = (None, ev, s)"
| "reportDuplicateLabels_elements (e # elements) ev s =
     (case reportDuplicateLabels_check e ev s of
        (Some ex, ev', s') \<Rightarrow> (Some ex, ev', s')
      | (None, ev', s') \<Rightarrow> reportDuplicateLabels_elements elements ev' s')"

fun reportDuplicateLabels_rules :: "Rule list \<Rightarrow> Session \<Rightarrow> exn option \<times> Session" where
  "reportDuplicateLabels_rules [] s = (None, s)"
| "reportDuplicateLabels_rules (r # rs) s =
     (case reportDuplicateLabels_check (expression r) Map.empty s of
        (Some ex, ev', s') \<Rightarrow> (Some ex, s')
      | (None, ev', s') \<Rightarrow> reportDuplicateLabels_rules rs s')"

definition reportDuplicateLabels ::
  "Grammar \<Rightarrow> ParsedOptions \<Rightarrow> Session \<Rightarrow> (exn option \<times> Grammar \<times> Session) option" where
  "reportDuplicateLabels ast options session =
     (case reportDuplicateLabels_rules (rules ast) session of (ex, s') \<Rightarrow> Some (ex, ast, s'))"

subsection \<open>\<open>reportInfiniteRecursion\<close> (lib/compiler/passes/report-infinite-recursion.ts)\<close>

text \<open>The decimal numeral of a number, and \<open>Array.join\<close>.\<close>

function string_of_nat :: "nat \<Rightarrow> string" where
  "string_of_nat n =
     (if n < 10 then [char_of (48 + n)] else string_of_nat (n div 10) @ [char_of (48 + n mod 10)])"
  by pat_completeness auto
termination
  by (relation "measure id") auto

declare string_of_nat.simps [simp del]

fun join :: "string \<Rightarrow> string list \<Rightarrow> string" where
  "join sep [] = ''''"
| "join sep [x] = x"
| "join sep (x # y # ys) = x @ sep @ join sep (y # ys)"

text \<open>
  The state of the pass: the names of the rules being visited, the \<open>rule_ref\<close> nodes followed
  (of which the name and the location are read), and the session.
\<close>

record Recursion =
  visitedRules :: "string list"
  backtraceRefs :: "(Expr \<times> string) list"
  rec_session :: Session

text \<open>The notes of the error: one step for every reference followed, the last one apart.\<close>

definition backtrace_notes :: "(Expr \<times> string) list \<Rightarrow> DiagnosticNote list" where
  "backtrace_notes backtrace =
     map (\<lambda>(i, (x, nm)).
            DiagnosticNote
              (if i + 1 \<noteq> length backtrace
               then ''Step '' @ string_of_nat (i + 1) @ '': call of the rule \"'' @ nm
                      @ ''\" without input consumption''
               else ''Step '' @ string_of_nat (i + 1)
                      @ '': call itself without input consumption - left recursion'')
              (location x))
         (enumerate 0 backtrace)"

text \<open>
  The visitor.  \<open>rule\<close> pushes the name, visits the body and pops; \<open>sequence\<close> stops after the
  first element that always consumes; \<open>rule_ref\<close> pushes the node, throws when no rule has
  the name, reports a left recursion when the rule is being visited (and returns, leaving
  what was pushed), and otherwise visits the rule and pops.  Entering a rule costs one unit
  of the bound \<open>n\<close>; \<open>c\<close> is the bound handed to \<open>alwaysConsumesOnSuccess\<close>; \<open>None\<close> says that a bound
  was reached.
\<close>

fun reportInfiniteRecursion_check ::
    "nat \<Rightarrow> nat \<Rightarrow> Grammar \<Rightarrow> expr \<Rightarrow> Recursion \<Rightarrow> (exn option \<times> Recursion) option"
  and reportInfiniteRecursion_alternatives ::
    "nat \<Rightarrow> nat \<Rightarrow> Grammar \<Rightarrow> expr list \<Rightarrow> Recursion \<Rightarrow> (exn option \<times> Recursion) option"
  and reportInfiniteRecursion_elements ::
    "nat \<Rightarrow> nat \<Rightarrow> Grammar \<Rightarrow> expr list \<Rightarrow> Recursion \<Rightarrow> (exn option \<times> Recursion) option" where
  "reportInfiniteRecursion_check c n ast (Named x nm e) st = reportInfiniteRecursion_check c n ast e st"
| "reportInfiniteRecursion_check c n ast (Choice x alternatives) st =
     reportInfiniteRecursion_alternatives c n ast alternatives st"
| "reportInfiniteRecursion_check c n ast (Action x co cl e) st = reportInfiniteRecursion_check c n ast e st"
| "reportInfiniteRecursion_check c n ast (Sequence x elements) st =
     reportInfiniteRecursion_elements c n ast elements st"
| "reportInfiniteRecursion_check c n ast (Labeled x p l ll e) st = reportInfiniteRecursion_check c n ast e st"
| "reportInfiniteRecursion_check c n ast (Text x e) st = reportInfiniteRecursion_check c n ast e st"
| "reportInfiniteRecursion_check c n ast (Simple_and x e) st = reportInfiniteRecursion_check c n ast e st"
| "reportInfiniteRecursion_check c n ast (Simple_not x e) st = reportInfiniteRecursion_check c n ast e st"
| "reportInfiniteRecursion_check c n ast (Optional x e) st = reportInfiniteRecursion_check c n ast e st"
| "reportInfiniteRecursion_check c n ast (Zero_or_more x e) st = reportInfiniteRecursion_check c n ast e st"
| "reportInfiniteRecursion_check c n ast (One_or_more x e) st = reportInfiniteRecursion_check c n ast e st"
| "reportInfiniteRecursion_check c n ast (Group x e) st = reportInfiniteRecursion_check c n ast e st"
| "reportInfiniteRecursion_check c n ast (Semantic_and x co cl) st = Some (None, st)"
| "reportInfiniteRecursion_check c n ast (Semantic_not x co cl) st = Some (None, st)"
| "reportInfiniteRecursion_check c n ast (Rule_ref x nm) st =
     (let st1 = st\<lparr>backtraceRefs := backtraceRefs st @ [(x, nm)]\<rparr>
      in case findRule ast nm of
           None \<Rightarrow>
             Some (Some (Error (''Could not find rule '' @ nm
                                  @ '' while looking for infinite recursive parsers'')), st1)
         | Some rule \<Rightarrow>
             if nm \<in> set (visitedRules st1)
             then (let st2 = st1\<lparr>visitedRules := visitedRules st1 @ [nm]\<rparr>
                   in case Session_error (rec_session st2)
                             (''Possible infinite loop when parsing (left recursion: ''
                                @ join '' -> '' (visitedRules st2) @ '')'')
                             (Some (nameLocation rule))
                             (Some (backtrace_notes (backtraceRefs st2))) of
                        (ex, s') \<Rightarrow> Some (ex, st2\<lparr>rec_session := s'\<rparr>))
             else (case n of
                     0 \<Rightarrow> None
                   | Suc k \<Rightarrow>
                       (case reportInfiniteRecursion_check c k ast (expression rule)
                               (st1\<lparr>visitedRules := visitedRules st1 @ [name rule]\<rparr>) of
                          None \<Rightarrow> None
                        | Some (Some ex, st3) \<Rightarrow> Some (Some ex, st3)
                        | Some (None, st3) \<Rightarrow>
                            Some (None, st3\<lparr>visitedRules := butlast (visitedRules st3),
                                            backtraceRefs := butlast (backtraceRefs st3)\<rparr>))))"
| "reportInfiniteRecursion_check c n ast (Literal x v ic) st = Some (None, st)"
| "reportInfiniteRecursion_check c n ast (Class x ps iv ic) st = Some (None, st)"
| "reportInfiniteRecursion_check c n ast (Any x) st = Some (None, st)"
| "reportInfiniteRecursion_alternatives c n ast [] st = Some (None, st)"
| "reportInfiniteRecursion_alternatives c n ast (a # alternatives) st =
     (case reportInfiniteRecursion_check c n ast a st of
        None \<Rightarrow> None
      | Some (Some ex, st') \<Rightarrow> Some (Some ex, st')
      | Some (None, st') \<Rightarrow> reportInfiniteRecursion_alternatives c n ast alternatives st')"
| "reportInfiniteRecursion_elements c n ast [] st = Some (None, st)"
| "reportInfiniteRecursion_elements c n ast (e # elements) st =
     (case reportInfiniteRecursion_check c n ast e st of
        None \<Rightarrow> None
      | Some (Some ex, st') \<Rightarrow> Some (Some ex, st')
      | Some (None, st') \<Rightarrow>
          (case alwaysConsumesOnSuccess c ast (NExpr e) of
             None \<Rightarrow> None
           | Some (Inl ex) \<Rightarrow> Some (Some ex, st')
           | Some (Inr consumed) \<Rightarrow>
               if consumed then Some (None, st')
               else reportInfiniteRecursion_elements c n ast elements st'))"

text \<open>The grammar: every rule in turn, through the handler \<open>rule\<close>.\<close>

fun reportInfiniteRecursion_rules ::
  "nat \<Rightarrow> nat \<Rightarrow> Grammar \<Rightarrow> Rule list \<Rightarrow> Recursion \<Rightarrow> (exn option \<times> Recursion) option" where
  "reportInfiniteRecursion_rules c n ast [] st = Some (None, st)"
| "reportInfiniteRecursion_rules c n ast (r # rs) st =
     (case reportInfiniteRecursion_check c n ast (expression r)
             (st\<lparr>visitedRules := visitedRules st @ [name r]\<rparr>) of
        None \<Rightarrow> None
      | Some (Some ex, st') \<Rightarrow> Some (Some ex, st')
      | Some (None, st') \<Rightarrow>
          reportInfiniteRecursion_rules c n ast rs (st'\<lparr>visitedRules := butlast (visitedRules st')\<rparr>))"

definition reportInfiniteRecursion ::
  "nat \<Rightarrow> nat \<Rightarrow> Grammar \<Rightarrow> ParsedOptions \<Rightarrow> Session \<Rightarrow> (exn option \<times> Grammar \<times> Session) option" where
  "reportInfiniteRecursion c n ast options session =
     (case reportInfiniteRecursion_rules c n ast (rules ast)
             \<lparr>visitedRules = [], backtraceRefs = [], rec_session = session\<rparr> of
        None \<Rightarrow> None
      | Some (ex, st) \<Rightarrow> Some (ex, ast, rec_session st))"

text \<open>The first four passes of the stage \<open>check\<close>, with the names of their functions.\<close>

definition check_passes :: "nat \<Rightarrow> nat \<Rightarrow> Pass list" where
  "check_passes c n =
     [\<lparr>pass_name = ''reportUndefinedRules'', pass_run = reportUndefinedRules\<rparr>,
      \<lparr>pass_name = ''reportDuplicateRules'', pass_run = reportDuplicateRules\<rparr>,
      \<lparr>pass_name = ''reportDuplicateLabels'', pass_run = reportDuplicateLabels\<rparr>,
      \<lparr>pass_name = ''reportInfiniteRecursion'', pass_run = reportInfiniteRecursion c n\<rparr>]"

text \<open>
  Claim C1 fails on the code.  \<open>reportInfiniteRecursion\<close> throws a plain \<open>Error\<close> at a \<open>rule_ref\<close>
  whose rule is missing, whatever the session.  For the grammar \<open>start = X\<close>, compiled with
  callbacks that return, \<open>reportUndefinedRules\<close> records the error \<open>Rule "X" is not defined\<close>, the
  next two passes find nothing, and the fourth pass throws: \<open>compile\<close> ends with that \<open>Error\<close>
  before \<open>checkErrors\<close> is reached, whatever passes and stages follow.  Without the fourth
  pass the stage ends with the \<open>GrammarError\<close> of stage \<open>check\<close> that the claim describes.
\<close>

theorem compile_undefined_rule_throws:
  "reportInfiniteRecursion c n (mk_grammar [mk_rule ''start'' (Rule_ref node0 ''X'')]) options session
     = Some (Some (Error ''Could not find rule X while looking for infinite recursive parsers''),
             mk_grammar [mk_rule ''start'' (Rule_ref node0 ''X'')], session) \<and>
   compile hasTextEncoder (mk_grammar [mk_rule ''start'' (Rule_ref node0 ''X'')])
     ((Stage_check, check_passes c n @ passes) # stages)
     \<lparr>raw_allowedStartRules = None, raw_cache = None, raw_trace = None,
      raw_grammarSource = GS_undefined, raw_optimize = None, raw_plugins = None,
      raw_output = None, raw_format = None, raw_dependencies = None, raw_exportVar = None,
      raw_error = Some ignored, raw_warning = Some ignored, raw_info = Some ignored\<rparr>
     = Some (Inl (Error ''Could not find rule X while looking for infinite recursive parsers''),
             mk_grammar [mk_rule ''start'' (Rule_ref node0 ''X'')]) \<and>
   compile hasTextEncoder (mk_grammar [mk_rule ''start'' (Rule_ref node0 ''X'')])
     [(Stage_check, take 3 (check_passes c n))]
     \<lparr>raw_allowedStartRules = None, raw_cache = None, raw_trace = None,
      raw_grammarSource = GS_undefined, raw_optimize = None, raw_plugins = None,
      raw_output = None, raw_format = None, raw_dependencies = None, raw_exportVar = None,
      raw_error = Some ignored, raw_warning = Some ignored, raw_info = Some ignored\<rparr>
     = Some (Inl (Throw_GrammarError
                   (GrammarError ''Rule \"X\" is not defined'' (Some loc0) [] (Some Stage_check)
                      (OwnProblems
                         [(Sev_info, ''Process stage check'', None, None),
                          (Sev_info, ''Process pass check.reportUndefinedRules'', None, None),
                          (Sev_error, ''Rule \"X\" is not defined'', Some loc0, None),
                          (Sev_info, ''Process pass check.reportDuplicateRules'', None, None),
                          (Sev_info, ''Process pass check.reportDuplicateLabels'', None, None)]))),
             mk_grammar [mk_rule ''start'' (Rule_ref node0 ''X'')])"
proof -
  have a: "reportInfiniteRecursion c n (mk_grammar [mk_rule ''start'' (Rule_ref node0 ''X'')]) options session
     = Some (Some (Error ''Could not find rule X while looking for infinite recursive parsers''),
             mk_grammar [mk_rule ''start'' (Rule_ref node0 ''X'')], session)" for options session
    by (simp add: reportInfiniteRecursion_def mk_grammar_def mk_rule_def findRule_def Let_def)
  have u: "reportUndefinedRules (mk_grammar [mk_rule ''start'' (Rule_ref node0 ''X'')]) options s
     = Some (fst (Session_error s ''Rule \"X\" is not defined'' (Some loc0) None),
             mk_grammar [mk_rule ''start'' (Rule_ref node0 ''X'')],
             snd (Session_error s ''Rule \"X\" is not defined'' (Some loc0) None))"
    for options s
    by (simp add: reportUndefinedRules_def mk_grammar_def mk_rule_def findRule_def node0_def
        split: prod.splits option.splits)
  have r: "reportDuplicateRules (mk_grammar [mk_rule ''start'' (Rule_ref node0 ''X'')]) options s
     = Some (None, mk_grammar [mk_rule ''start'' (Rule_ref node0 ''X'')], s)" for options s
    by (simp add: reportDuplicateRules_def mk_grammar_def mk_rule_def)
  have l: "reportDuplicateLabels (mk_grammar [mk_rule ''start'' (Rule_ref node0 ''X'')]) options s
     = Some (None, mk_grammar [mk_rule ''start'' (Rule_ref node0 ''X'')], s)" for options s
    by (simp add: reportDuplicateLabels_def mk_grammar_def mk_rule_def)
  have m: "rules (mk_grammar [mk_rule ''start'' (Rule_ref node0 ''X'')])
             = [mk_rule ''start'' (Rule_ref node0 ''X'')]"
    "code (mk_grammar [mk_rule ''start'' (Rule_ref node0 ''X'')]) = None"
    "name (mk_rule ''start'' (Rule_ref node0 ''X'')) = ''start''"
    by (simp_all add: mk_grammar_def mk_rule_def)
  have c1: "compile hasTextEncoder (mk_grammar [mk_rule ''start'' (Rule_ref node0 ''X'')])
     ((Stage_check, check_passes c n @ passes) # stages)
     \<lparr>raw_allowedStartRules = None, raw_cache = None, raw_trace = None,
      raw_grammarSource = GS_undefined, raw_optimize = None, raw_plugins = None,
      raw_output = None, raw_format = None, raw_dependencies = None, raw_exportVar = None,
      raw_error = Some ignored, raw_warning = Some ignored, raw_info = Some ignored\<rparr>
     = Some (Inl (Error ''Could not find rule X while looking for infinite recursive parsers''),
             mk_grammar [mk_rule ''start'' (Rule_ref node0 ''X'')])"
    by (simp add: compile_def parseOptions_def m check_passes_def a u r l Session_info_def
        Session_error_def notify_def ignored_def new_Session_def new_GrammarError_def Let_def)
  have c2: "compile hasTextEncoder (mk_grammar [mk_rule ''start'' (Rule_ref node0 ''X'')])
     [(Stage_check, take 3 (check_passes c n))]
     \<lparr>raw_allowedStartRules = None, raw_cache = None, raw_trace = None,
      raw_grammarSource = GS_undefined, raw_optimize = None, raw_plugins = None,
      raw_output = None, raw_format = None, raw_dependencies = None, raw_exportVar = None,
      raw_error = Some ignored, raw_warning = Some ignored, raw_info = Some ignored\<rparr>
     = Some (Inl (Throw_GrammarError
                   (GrammarError ''Rule \"X\" is not defined'' (Some loc0) [] (Some Stage_check)
                      (OwnProblems
                         [(Sev_info, ''Process stage check'', None, None),
                          (Sev_info, ''Process pass check.reportUndefinedRules'', None, None),
                          (Sev_error, ''Rule \"X\" is not defined'', Some loc0, None),
                          (Sev_info, ''Process pass check.reportDuplicateRules'', None, None),
                          (Sev_info, ''Process pass check.reportDuplicateLabels'', None, None)]))),
             mk_grammar [mk_rule ''start'' (Rule_ref node0 ''X'')])"
    by (simp add: compile_def parseOptions_def m check_passes_def u r l Session_info_def
        Session_error_def notify_def ignored_def new_Session_def new_GrammarError_def Let_def
        checkErrors_def problems_of_def)
  show ?thesis by (intro conjI a c1 c2)
qed

end
